(* ===== verification/Slim_Prelude.thy ===== *)
theory Slim_Prelude
  imports Main "HOL-Library.Word"
begin

unbundle bit_operations_syntax

text \<open>
  Shared vocabulary of the development: the machine integers of the Rust sources, the outcome of a
  fallible (and possibly panicking) Rust call, the part of the Rust standard library the sources
  use (slices, \<open>chunks_exact\<close>, \<open>div_ceil\<close>, little-endian conversions) and the generic lemmas on
  lists and words that the components share.

  A value of type \<open>res\<close> is what a Rust call can do: return \<open>Ok\<close>, return \<open>Err\<close>, or panic. A
  call that also changes state is a function into \<open>('a, 'e) res \<times> 's\<close>; the state is part of
  every outcome, because a failed or interrupted flash operation leaves its traces behind.
  \<open>and_then\<close> is the \<open>?\<close> operator: it stops at the first \<open>Err\<close> or panic and keeps the state
  reached so far.
\<close>

section \<open>Machine integers and outcomes\<close>

type_synonym u8 = "8 word"
type_synonym u16 = "16 word"
type_synonym u32 = "32 word"
type_synonym u64 = "64 word"

datatype ('a, 'e) res = Ok 'a | Err 'e | Panic

fun and_then :: "('a, 'e) res \<times> 's \<Rightarrow> ('a \<Rightarrow> 's \<Rightarrow> ('b, 'e) res \<times> 's) \<Rightarrow> ('b, 'e) res \<times> 's" where
  "and_then (Ok x, s) k = k x s"
| "and_then (Err e, s) k = (Err e, s)"
| "and_then (Panic, s) k = (Panic, s)"

fun res_bind :: "('a, 'e) res \<Rightarrow> ('a \<Rightarrow> ('b, 'e) res) \<Rightarrow> ('b, 'e) res" where
  "res_bind (Ok x) k = k x"
| "res_bind (Err e) k = Err e"
| "res_bind Panic k = Panic"

fun map_err :: "('e \<Rightarrow> 'd) \<Rightarrow> ('a, 'e) res \<Rightarrow> ('a, 'd) res" where
  "map_err f (Ok x) = Ok x"
| "map_err f (Err e) = Err (f e)"
| "map_err f Panic = Panic"

fun ok :: "('a, 'e) res \<Rightarrow> 'a option" where
  "ok (Ok x) = Some x"
| "ok (Err e) = None"
| "ok Panic = None"

fun ok_or :: "'e \<Rightarrow> 'a option \<Rightarrow> ('a, 'e) res" where
  "ok_or e (Some x) = Ok x"
| "ok_or e None = Err e"

fun unwrap :: "'a option \<Rightarrow> ('a, 'e) res" where
  "unwrap (Some x) = Ok x"
| "unwrap None = Panic"

text \<open>\<open>unwrap!\<close> of the result of a call that changes state: an \<open>Err\<close> becomes a panic.\<close>

fun unwrap_ok :: "('a, 'e) res \<times> 's \<Rightarrow> ('a, 'd) res \<times> 's" where
  "unwrap_ok (Ok x, s) = (Ok x, s)"
| "unwrap_ok (Err e, s) = (Panic, s)"
| "unwrap_ok (Panic, s) = (Panic, s)"

text \<open>
  \<open>unwrap_unchecked\<close> on \<open>None\<close> is undefined behaviour in Rust. The model leaves its value
  unspecified, so nothing can be proved from it; that no call meets \<open>None\<close> is a theorem of the
  component that makes the call.
\<close>

definition unwrap_unchecked :: "'a option \<Rightarrow> 'a" where
  "unwrap_unchecked x = the x"

text \<open>The outcome is no panic, and an error only if it is one that \<open>P\<close> allows.\<close>

fun fails_only :: "('e \<Rightarrow> bool) \<Rightarrow> ('a, 'e) res \<Rightarrow> bool" where
  "fails_only P (Ok x) \<longleftrightarrow> True"
| "fails_only P (Err e) \<longleftrightarrow> P e"
| "fails_only P Panic \<longleftrightarrow> False"

lemma fails_only_not_Panic [simp]: "fails_only P r \<Longrightarrow> r \<noteq> Panic"
  by auto

lemma unwrap_unchecked_Some [simp]: "unwrap_unchecked (Some x) = x"
  by (simp add: unwrap_unchecked_def)

lemma ok_eq_Some [simp]: "ok r = Some x \<longleftrightarrow> r = Ok x"
  by (cases r) auto

lemma ok_or_eq [simp]: "ok_or e x = Ok y \<longleftrightarrow> x = Some y" "ok_or e x \<noteq> Panic"
  by (cases x; simp)+

lemma map_err_eq [simp]:
  "map_err f r = Ok x \<longleftrightarrow> r = Ok x"
  "map_err f r = Panic \<longleftrightarrow> r = Panic"
  "map_err f r = Err d \<longleftrightarrow> (\<exists>e. r = Err e \<and> d = f e)"
  by (cases r; auto)+

named_theorems outcome_iffs \<open>when a sequence of fallible calls ends in a given outcome\<close>

lemma and_then_eq_Ok [outcome_iffs]:
  "and_then m k = (Ok y, s') \<longleftrightarrow> (\<exists>x s. m = (Ok x, s) \<and> k x s = (Ok y, s'))"
  by (cases "(m, k)" rule: and_then.cases) auto

lemma and_then_eq_Panic [outcome_iffs]:
  "and_then m k = (Panic, s') \<longleftrightarrow> m = (Panic, s') \<or> (\<exists>x s. m = (Ok x, s) \<and> k x s = (Panic, s'))"
  by (cases "(m, k)" rule: and_then.cases) auto

lemma and_then_eq_Err [outcome_iffs]:
  "and_then m k = (Err e, s') \<longleftrightarrow> m = (Err e, s') \<or> (\<exists>x s. m = (Ok x, s) \<and> k x s = (Err e, s'))"
  by (cases "(m, k)" rule: and_then.cases) auto

text \<open>The state after a sequence of calls is that of the call that stopped it, or of the last.\<close>

lemma and_then_state:
  assumes "and_then m k = (r, s')"
  obtains (stopped) "snd m = s'" | (continued) x s where "m = (Ok x, s)" "k x s = (r, s')"
  using assms by (cases "(m, k)" rule: and_then.cases) auto

lemma unwrap_ok_eq_Ok [outcome_iffs]: "unwrap_ok m = (Ok x, s) \<longleftrightarrow> m = (Ok x, s)"
  by (cases m rule: unwrap_ok.cases) auto

lemma unwrap_ok_not_Err [simp]: "unwrap_ok m \<noteq> (Err e, s)"
  by (cases m rule: unwrap_ok.cases) auto

lemma unwrap_eq [outcome_iffs]: "unwrap x = Ok y \<longleftrightarrow> x = Some y" "unwrap x = Panic \<longleftrightarrow> x = None" "unwrap x \<noteq> Err e"
  by (cases x; simp)+

lemma res_bind_eq_Ok [outcome_iffs]: "res_bind r k = Ok y \<longleftrightarrow> (\<exists>x. r = Ok x \<and> k x = Ok y)"
  by (cases r) auto

lemma res_bind_eq_Panic [outcome_iffs]: "res_bind r k = Panic \<longleftrightarrow> r = Panic \<or> (\<exists>x. r = Ok x \<and> k x = Panic)"
  by (cases r) auto

section \<open>Slices and chunks\<close>

text \<open>
  \<open>&xs[a..b]\<close> and \<open>&xs[a..]\<close>: \<open>None\<close> is the out-of-range panic.
\<close>

definition slice :: "nat \<Rightarrow> nat \<Rightarrow> 'a list \<Rightarrow> 'a list option" where
  "slice a b xs = (if a \<le> b \<and> b \<le> length xs then Some (take (b - a) (drop a xs)) else None)"

definition slice_from :: "nat \<Rightarrow> 'a list \<Rightarrow> 'a list option" where
  "slice_from a xs = (if a \<le> length xs then Some (drop a xs) else None)"

text \<open>\<open>xs[a..b].copy_from_slice(ys)\<close> for a range inside \<open>xs\<close> whose length is that of \<open>ys\<close>.\<close>

definition copy_from_slice :: "nat \<Rightarrow> 'a list \<Rightarrow> 'a list \<Rightarrow> 'a list" where
  "copy_from_slice a ys xs = take a xs @ ys @ drop (a + length ys) xs"

function chunks_exact :: "nat \<Rightarrow> 'a list \<Rightarrow> 'a list list" where
  "chunks_exact n xs =
     (if n = 0 \<or> length xs < n then [] else take n xs # chunks_exact n (drop n xs))"
  by pat_completeness auto
termination
  by (relation "measure (\<lambda>(n, xs). length xs)") auto

declare chunks_exact.simps [simp del]

function chunks :: "nat \<Rightarrow> 'a list \<Rightarrow> 'a list list" where
  "chunks n xs = (if n = 0 \<or> xs = [] then [] else take n xs # chunks n (drop n xs))"
  by pat_completeness auto
termination
  by (relation "measure (\<lambda>(n, xs). length xs)") auto

declare chunks.simps [simp del]

text \<open>\<open>usize::div_ceil\<close>; the divisors of the sources are positive constants.\<close>

definition div_ceil :: "nat \<Rightarrow> nat \<Rightarrow> nat" where
  "div_ceil n d = (if n mod d = 0 then n div d else n div d + 1)"

lemma div_ceil_mult [simp]: "0 < d \<Longrightarrow> div_ceil (k * d) d = k"
  by (simp add: div_ceil_def)

lemma div_ceil_covers: "0 < d \<Longrightarrow> n \<le> div_ceil n d * d"
  using dividend_less_div_times [of d n] by (auto simp: div_ceil_def)

lemma div_ceil_tight: "0 < d \<Longrightarrow> i < div_ceil n d \<Longrightarrow> i * d < n"
proof -
  assume d: "0 < d" and i: "i < div_ceil n d"
  have n: "n = n div d * d + n mod d" by simp
  show ?thesis
  proof (cases "n mod d = 0")
    case True
    with i have "Suc i \<le> n div d" by (simp add: div_ceil_def)
    then have "Suc i * d \<le> n div d * d" by (rule mult_le_mono1)
    with n True d show ?thesis by simp
  next
    case False
    with i have "i \<le> n div d" by (simp add: div_ceil_def)
    then have "i * d \<le> n div d * d" by (rule mult_le_mono1)
    with n False show ?thesis by linarith
  qed
qed

lemma length_copy_from_slice [simp]: "a + length ys \<le> length xs \<Longrightarrow> length (copy_from_slice a ys xs) = length xs"
  by (simp add: copy_from_slice_def)

lemma nth_copy_from_slice:
  assumes "a + length ys \<le> length xs" and "i < length xs"
  shows "copy_from_slice a ys xs ! i = (if a \<le> i \<and> i < a + length ys then ys ! (i - a) else xs ! i)"
  using assms by (auto simp: copy_from_slice_def nth_append min_def add.commute)

lemma slice_Some: "slice a b xs = Some ys \<longleftrightarrow> a \<le> b \<and> b \<le> length xs \<and> ys = take (b - a) (drop a xs)"
  by (auto simp: slice_def)

lemma slice_from_Some: "slice_from a xs = Some ys \<longleftrightarrow> a \<le> length xs \<and> ys = drop a xs"
  by (auto simp: slice_from_def)

lemma drop_append_drop: "length xs \<le> m \<Longrightarrow> drop m (xs @ drop (length xs) ys) = drop m ys"
  by simp

lemma chunks_Nil [simp]: "chunks n [] = []"
  by (simp add: chunks.simps)

lemma chunks_step: "0 < n \<Longrightarrow> xs \<noteq> [] \<Longrightarrow> chunks n xs = take n xs # chunks n (drop n xs)"
  by (simp add: chunks.simps [of n xs])

lemma concat_chunks [simp]: "0 < n \<Longrightarrow> concat (chunks n xs) = xs"
proof (induction n xs rule: chunks.induct)
  case (1 n xs)
  then show ?case by (cases "xs = []") (simp_all add: chunks_step)
qed

lemma chunks_bounded: "0 < n \<Longrightarrow> c \<in> set (chunks n xs) \<Longrightarrow> 0 < length c \<and> length c \<le> n"
proof (induction n xs rule: chunks.induct)
  case (1 n xs)
  then show ?case by (cases "xs = []") (auto simp: chunks_step)
qed

lemma chunks_replicate: "0 < n \<Longrightarrow> chunks n (replicate (m * n) x) = replicate m (replicate n x)"
  by (induction m) (simp_all add: chunks_step add.commute min_def)

text \<open>How a sequence is cut into chunks depends on its length only.\<close>

lemma chunks_lengths: "0 < n \<Longrightarrow> length xs = length ys \<Longrightarrow> map length (chunks n xs) = map length (chunks n ys)"
proof (induction n xs arbitrary: ys rule: chunks.induct)
  case (1 n xs)
  then show ?case by (cases "xs = []"; cases "ys = []") (auto simp: chunks_step)
qed

lemma length_chunks: "0 < n \<Longrightarrow> length (chunks n xs) = (length xs + n - 1) div n"
proof (induction n xs rule: chunks.induct)
  case (1 n xs)
  show ?case
  proof (cases "xs = []")
    case False
    then have "length (chunks n xs) = Suc ((length (drop n xs) + n - 1) div n)"
      using 1 by (simp add: chunks_step)
    also have "(length (drop n xs) + n - 1) div n = (length xs - 1) div n"
      using False 1(2) by (cases "length xs \<le> n") (cases xs, simp_all)+
    also have "Suc ((length xs - 1) div n) = (length xs - 1 + n) div n"
      using div_add_self2 [of n "length xs - 1"] 1(2) by linarith
    also have "length xs - 1 + n = length xs + n - 1" using False by (cases xs) simp_all
    finally show ?thesis .
  qed (use 1 in simp)
qed

section \<open>Words\<close>

lemma unat_of_nat_u32 [simp]: "n < 2 ^ 32 \<Longrightarrow> unat (of_nat n :: u32) = n"
  by (simp add: unat_of_nat take_bit_nat_eq_self)

lemma and_u8_max [simp]: "(0xff :: u8) AND x = x"
  by (rule bit_word_eqI) (auto simp: bit_and_iff bit_numeral_rec less_Suc_eq numeral_eq_Suc)

lemma unat_u8_less [simp]: "unat (b :: u8) < 256"
proof -
  have "unat b < 2 ^ LENGTH(8)" by (rule unsigned_less)
  then show ?thesis by simp
qed

section \<open>Byte order\<close>

definition u32_to_le_bytes :: "u32 \<Rightarrow> u8 list" where
  "u32_to_le_bytes w =
     [ucast w, ucast (drop_bit 8 w), ucast (drop_bit 16 w), ucast (drop_bit 24 w)]"

definition u32_from_le_bytes :: "u8 list \<Rightarrow> u32" where
  "u32_from_le_bytes bs =
     ucast (bs ! 0) OR push_bit 8 (ucast (bs ! 1)) OR push_bit 16 (ucast (bs ! 2)) OR push_bit 24 (ucast (bs ! 3))"

definition u16_from_le_bytes :: "u8 list \<Rightarrow> u16" where
  "u16_from_le_bytes bs = ucast (bs ! 0) OR push_bit 8 (ucast (bs ! 1))"

definition u32_to_be_bytes :: "u32 \<Rightarrow> u8 list" where
  "u32_to_be_bytes w = rev (u32_to_le_bytes w)"

definition u32_from_be_bytes :: "u8 list \<Rightarrow> u32" where
  "u32_from_be_bytes bs = u32_from_le_bytes (rev bs)"

lemma length_u32_to_le_bytes [simp]: "length (u32_to_le_bytes w) = 4"
  by (simp add: u32_to_le_bytes_def)

lemma length_u32_to_be_bytes [simp]: "length (u32_to_be_bytes w) = 4"
  by (simp add: u32_to_be_bytes_def)

lemma u32_from_to_le_bytes [simp]: "u32_from_le_bytes (u32_to_le_bytes w) = w"
proof (rule bit_word_eqI)
  fix n
  assume n: "n < LENGTH(32)"
  then consider "n < 8" | "8 \<le> n" "n < 16" | "16 \<le> n" "n < 24" | "24 \<le> n" "n < 32" by fastforce
  then show "bit (u32_from_le_bytes (u32_to_le_bytes w)) n = bit w n"
    by cases
      (auto simp: u32_from_le_bytes_def u32_to_le_bytes_def bit_or_iff bit_push_bit_iff bit_ucast_iff
        bit_drop_bit_eq possible_bit_word)
qed

lemma u32_to_from_le_bytes [simp]: "u32_to_le_bytes (u32_from_le_bytes [a, b, c, d]) = [a, b, c, d]"
  unfolding u32_to_le_bytes_def list.inject
  by (intro conjI refl; rule bit_word_eqI)
    (auto simp: u32_from_le_bytes_def bit_or_iff bit_push_bit_iff bit_ucast_iff bit_drop_bit_eq
      possible_bit_word dest: bit_imp_le_length)

lemma u32_to_from_le_bytes_length:
  assumes "length bs = 4"
  shows "u32_to_le_bytes (u32_from_le_bytes bs) = bs"
proof -
  obtain a b c d where "bs = [a, b, c, d]"
    using assms by (auto simp: length_Suc_conv numeral_eq_Suc)
  then show ?thesis by simp
qed

lemma u32_from_to_be_bytes [simp]: "u32_from_be_bytes (u32_to_be_bytes w) = w"
  by (simp add: u32_from_be_bytes_def u32_to_be_bytes_def)

end
