(* ===== verification/Boot_State.thy ===== *)
theory Boot_State
  imports Slim_Prelude
begin

unbundle bit_operations_syntax

text \<open>
  The journal entry of \<open>libs/ec-slimloader-state/src/state.rs\<close>: \<open>Slot\<close>, \<open>Status\<close>,
  \<open>ParseResult\<close> and \<open>State\<close>, the two-byte record (status, backup and target in the first byte,
  a CRC-8 of it in the second).

  The checksum comes from the \<open>crc\<close> crate, which is not part of the repository: it is the
  parameter \<open>crc\<close> of every definition that computes one, and no theorem below assumes anything
  about it. \<open>crc8_opensafety\<close> is the concrete function the witnesses instantiate it with; it
  reproduces the four checksums of the test \<open>state_validity_crc\<close>.
\<close>

section \<open>Slots and statuses\<close>

definition MAX_SLOT_COUNT :: nat where
  "MAX_SLOT_COUNT = 0b111"

datatype slot = S0 | S1 | S2 | S3 | S4 | S5 | S6

datatype too_many_bits = TooManyBits

definition slot_try_from :: "u8 \<Rightarrow> (slot, too_many_bits) res" where
  "slot_try_from val =
     (if val = 0x00 then Ok S0
      else if val = 0x01 then Ok S1
      else if val = 0x02 then Ok S2
      else if val = 0x03 then Ok S3
      else if val = 0x04 then Ok S4
      else if val = 0x05 then Ok S5
      else if val = 0x06 then Ok S6
      else Err TooManyBits)"

fun slot_as_u8 :: "slot \<Rightarrow> u8" where
  "slot_as_u8 S0 = 0x00"
| "slot_as_u8 S1 = 0x01"
| "slot_as_u8 S2 = 0x02"
| "slot_as_u8 S3 = 0x03"
| "slot_as_u8 S4 = 0x04"
| "slot_as_u8 S5 = 0x05"
| "slot_as_u8 S6 = 0x06"

datatype parse_result = Unset | Invalid

datatype status = Initial | Attempting | Failed | Confirmed

fun status_as_u8 :: "status \<Rightarrow> u8" where
  "status_as_u8 Initial = 3"
| "status_as_u8 Attempting = 2"
| "status_as_u8 Failed = 1"
| "status_as_u8 Confirmed = 0"

text \<open>The derived \<open>TryFromPrimitive\<close>: the variant with that discriminant, if there is one.\<close>

definition status_try_from_primitive :: "u8 \<Rightarrow> status option" where
  "status_try_from_primitive v =
     (if v = 3 then Some Initial
      else if v = 2 then Some Attempting
      else if v = 1 then Some Failed
      else if v = 0 then Some Confirmed
      else None)"

section \<open>State records\<close>

type_synonym crc8 = "u8 list \<Rightarrow> u8"

text \<open>\<open>State([u8; 2])\<close>; the field is private, so a value comes from \<open>new\<close> or \<open>try_new\<close>.\<close>

datatype state = State (data_byte: u8) (crc_byte: u8)

definition state_new :: "crc8 \<Rightarrow> status \<Rightarrow> slot \<Rightarrow> slot \<Rightarrow> state" where
  "state_new crc status target backup =
     (let data = 0;
          data = data OR push_bit 6 (status_as_u8 status);
          data = data OR push_bit 3 (slot_as_u8 backup);
          data = data OR slot_as_u8 target;
          c = crc [data]
      in State data c)"

definition try_target :: "u8 \<Rightarrow> slot option" where
  "try_target val = ok (slot_try_from (val AND 0b111))"

definition try_backup :: "u8 \<Rightarrow> slot option" where
  "try_backup val = ok (slot_try_from (drop_bit 3 val AND 0b111))"

definition check_crc :: "crc8 \<Rightarrow> u8 \<Rightarrow> u8 \<Rightarrow> bool" where
  "check_crc crc c data \<longleftrightarrow> c = crc [data]"

definition try_new :: "crc8 \<Rightarrow> u8 \<times> u8 \<Rightarrow> (state, parse_result) res" where
  "try_new crc data =
     (if data = (0xff, 0xff) then Err Unset
      else if try_target (fst data) = None \<or> try_backup (fst data) = None then Err Invalid
      else if \<not> check_crc crc (snd data) (fst data) then Err Invalid
      else Ok (State (fst data) (snd data)))"

definition as_bytes :: "state \<Rightarrow> u8 list" where
  "as_bytes s = [data_byte s, crc_byte s]"

definition state_status :: "state \<Rightarrow> status" where
  "state_status s = unwrap_unchecked (status_try_from_primitive (drop_bit 6 (data_byte s)))"

definition state_target :: "state \<Rightarrow> slot" where
  "state_target s = unwrap_unchecked (try_target (data_byte s))"

definition state_backup :: "state \<Rightarrow> slot" where
  "state_backup s = unwrap_unchecked (try_backup (data_byte s))"

definition with_status :: "crc8 \<Rightarrow> state \<Rightarrow> status \<Rightarrow> state" where
  "with_status crc s st = state_new crc st (state_target s) (state_backup s)"

text \<open>
  The type invariant of \<open>State\<close>: the values the two public constructors can produce. It is what
  the \<open>unwrap_unchecked\<close> calls of the accessors rely on.
\<close>

definition valid_state :: "crc8 \<Rightarrow> state \<Rightarrow> bool" where
  "valid_state crc s \<longleftrightarrow> try_new crc (data_byte s, crc_byte s) = Ok s"

text \<open>CRC-8/OPENSAFETY: polynomial \<open>0x2f\<close>, initial value 0, no reflection, no final xor.\<close>

definition crc8_step :: "u8 \<Rightarrow> u8" where
  "crc8_step c = (if bit c 7 then push_bit 1 c XOR 0x2f else push_bit 1 c)"

definition crc8_opensafety :: crc8 where
  "crc8_opensafety bs = foldl (\<lambda>c b. (crc8_step ^^ 8) (c XOR b)) 0 bs"

section \<open>The encoding of the first byte\<close>

lemma slot_try_from_as_u8 [simp]: "slot_try_from (slot_as_u8 s) = Ok s"
  by (cases s) (simp_all add: slot_try_from_def)

lemma slot_as_u8_try_from: "slot_try_from v = Ok s \<Longrightarrow> slot_as_u8 s = v"
  by (auto simp: slot_try_from_def split: if_splits)


lemma status_try_from_as_u8 [simp]: "status_try_from_primitive (status_as_u8 s) = Some s"
  by (cases s) (simp_all add: status_try_from_primitive_def)

lemma status_as_u8_try_from: "status_try_from_primitive v = Some s \<Longrightarrow> status_as_u8 s = v"
  by (auto simp: status_try_from_primitive_def split: if_splits)

lemma u8_fields:
  fixes a :: u8
  shows "push_bit 6 (drop_bit 6 a) OR push_bit 3 (drop_bit 3 a AND 0b111) OR (a AND 0b111) = a"
proof (rule bit_word_eqI)
  fix n
  assume n: "n < LENGTH(8)"
  have mask: "(0b111 :: u8) = mask 3" by (simp add: mask_eq_exp_minus_1)
  show "bit (push_bit 6 (drop_bit 6 a) OR push_bit 3 (drop_bit 3 a AND 0b111) OR (a AND 0b111)) n = bit a n"
  proof (cases "6 \<le> n")
    case True
    with n show ?thesis
      unfolding mask
      by (simp only: bit_or_iff bit_and_iff bit_push_bit_iff bit_drop_bit_eq comp_def bit_mask_iff
          possible_bit_word le_add_diff_inverse) auto
  next
    case False
    with n show ?thesis
      unfolding mask
      by (simp only: bit_or_iff bit_and_iff bit_push_bit_iff bit_drop_bit_eq comp_def bit_mask_iff
          possible_bit_word) auto
  qed
qed

lemma drop_bit_6_less: "drop_bit 6 (a :: u8) < 4"
proof -
  have "unat a div 64 < 4" using unat_u8_less [of a] by linarith
  then show ?thesis by (simp add: word_less_nat_alt unat_div drop_bit_eq_div)
qed

lemma status_try_from_total: "\<exists>s. status_try_from_primitive (drop_bit 6 a) = Some s"
proof -
  have "unat (drop_bit 6 a) < 4" using drop_bit_6_less [of a] by (simp add: word_less_nat_alt)
  then have "unat (drop_bit 6 a) \<in> {0, 1, 2, 3}" by auto
  then have "of_nat (unat (drop_bit 6 a)) \<in> (of_nat ` {0, 1, 2, 3} :: u8 set)" by (rule imageI)
  then show ?thesis by (auto simp: status_try_from_primitive_def)
qed

lemma status_as_u8_state_status: "status_as_u8 (state_status s) = drop_bit 6 (data_byte s)"
  using status_try_from_total [of "data_byte s"]
  by (auto simp: state_status_def dest: status_as_u8_try_from)

section \<open>Slots and statuses as finite types\<close>

text \<open>The enumerations list the values in the order of their codes, so that quantifiers over them compute.\<close>

instantiation slot :: enum
begin

definition enum_slot :: "slot list" where
  "enum_slot = [S0, S1, S2, S3, S4, S5, S6]"

definition enum_all_slot :: "(slot \<Rightarrow> bool) \<Rightarrow> bool" where
  "enum_all_slot P \<longleftrightarrow> list_all P [S0, S1, S2, S3, S4, S5, S6]"

definition enum_ex_slot :: "(slot \<Rightarrow> bool) \<Rightarrow> bool" where
  "enum_ex_slot P \<longleftrightarrow> list_ex P [S0, S1, S2, S3, S4, S5, S6]"

instance
proof
  have univ: "UNIV = set [S0, S1, S2, S3, S4, S5, S6]"
  proof (rule UNIV_eq_I)
    fix s show "s \<in> set [S0, S1, S2, S3, S4, S5, S6]" by (cases s) simp_all
  qed
  then show "(UNIV :: slot set) = set enum_class.enum" by (simp only: enum_slot_def)
  show "distinct (enum_class.enum :: slot list)" by (simp add: enum_slot_def)
  show "enum_class.enum_all P \<longleftrightarrow> Ball UNIV P" for P :: "slot \<Rightarrow> bool"
    unfolding univ by (simp add: enum_all_slot_def)
  show "enum_class.enum_ex P \<longleftrightarrow> Bex UNIV P" for P :: "slot \<Rightarrow> bool"
    unfolding univ by (simp add: enum_ex_slot_def)
qed

end

instantiation status :: enum
begin

definition enum_status :: "status list" where
  "enum_status = [Confirmed, Failed, Attempting, Initial]"

definition enum_all_status :: "(status \<Rightarrow> bool) \<Rightarrow> bool" where
  "enum_all_status P \<longleftrightarrow> list_all P [Confirmed, Failed, Attempting, Initial]"

definition enum_ex_status :: "(status \<Rightarrow> bool) \<Rightarrow> bool" where
  "enum_ex_status P \<longleftrightarrow> list_ex P [Confirmed, Failed, Attempting, Initial]"

instance
proof
  have univ: "UNIV = set [Confirmed, Failed, Attempting, Initial]"
  proof (rule UNIV_eq_I)
    fix s show "s \<in> set [Confirmed, Failed, Attempting, Initial]" by (cases s) simp_all
  qed
  then show "(UNIV :: status set) = set enum_class.enum" by (simp only: enum_status_def)
  show "distinct (enum_class.enum :: status list)" by (simp add: enum_status_def)
  show "enum_class.enum_all P \<longleftrightarrow> Ball UNIV P" for P :: "status \<Rightarrow> bool"
    unfolding univ by (simp add: enum_all_status_def)
  show "enum_class.enum_ex P \<longleftrightarrow> Bex UNIV P" for P :: "status \<Rightarrow> bool"
    unfolding univ by (simp add: enum_ex_status_def)
qed

end

section \<open>Constructor, parser and accessors\<close>

lemma state_new_simps [simp]:
  "try_target (data_byte (state_new crc st t b)) = Some t"
  "try_backup (data_byte (state_new crc st t b)) = Some b"
  "state_status (state_new crc st t b) = st"
  "state_target (state_new crc st t b) = t"
  "state_backup (state_new crc st t b) = b"
proof -
  show t: "try_target (data_byte (state_new crc st t b)) = Some t"
    by (cases st; cases t; cases b; simp add: state_new_def try_target_def slot_try_from_def)
  show b: "try_backup (data_byte (state_new crc st t b)) = Some b"
    by (cases st; cases t; cases b; simp add: state_new_def try_backup_def slot_try_from_def)
  show "state_status (state_new crc st t b) = st"
    by (cases st; cases t; cases b;
        simp add: state_new_def state_status_def status_try_from_primitive_def)
  show "state_target (state_new crc st t b) = t" "state_backup (state_new crc st t b) = b"
    using t b by (simp_all add: state_target_def state_backup_def)
qed

lemma crc_byte_state_new: "crc_byte (state_new crc st t b) = crc [data_byte (state_new crc st t b)]"
  by (simp add: state_new_def Let_def)

lemma try_target_0xff [simp]: "try_target 0xff = None"
  by (simp add: try_target_def slot_try_from_def)

lemma try_new_Ok_iff:
  "try_new crc (a, c) = Ok s \<longleftrightarrow>
     s = State a c \<and> c = crc [a] \<and> try_target a \<noteq> None \<and> try_backup a \<noteq> None"
  by (auto simp: try_new_def check_crc_def)

lemma try_new_Unset_iff: "try_new crc (a, c) = Err Unset \<longleftrightarrow> a = 0xff \<and> c = 0xff"
  by (auto simp: try_new_def)

lemma try_new_not_Panic [simp]: "try_new crc d \<noteq> Panic"
  by (simp add: try_new_def)

lemma try_new_0xff [simp]: "try_new crc (0xff, c) = Err (if c = 0xff then Unset else Invalid)"
  by (simp add: try_new_def)

lemma valid_state_iff:
  "valid_state crc s \<longleftrightarrow>
     crc_byte s = crc [data_byte s] \<and> try_target (data_byte s) \<noteq> None \<and> try_backup (data_byte s) \<noteq> None"
  by (cases s) (auto simp: valid_state_def try_new_Ok_iff)

lemma valid_state_new [simp]: "valid_state crc (state_new crc st t b)"
  by (simp add: valid_state_iff crc_byte_state_new)

lemma valid_with_status [simp]: "valid_state crc (with_status crc s st)"
  by (simp add: with_status_def)

lemma with_status_simps [simp]:
  "state_status (with_status crc s st) = st"
  "state_target (with_status crc s st) = state_target s"
  "state_backup (with_status crc s st) = state_backup s"
  by (simp_all add: with_status_def)

lemma try_new_valid: "try_new crc d = Ok s \<Longrightarrow> valid_state crc s"
  by (cases d) (auto simp: try_new_Ok_iff valid_state_iff)

lemma valid_state_data_byte: "valid_state crc s \<Longrightarrow> data_byte s \<noteq> 0xff"
  by (auto simp: valid_state_iff)

lemma valid_state_slots:
  assumes "valid_state crc s"
  shows "try_target (data_byte s) = Some (state_target s)"
    and "try_backup (data_byte s) = Some (state_backup s)"
  using assms by (auto simp: valid_state_iff state_target_def state_backup_def)

text \<open>A valid record is determined by its three fields: it is what \<open>new\<close> builds from them.\<close>

lemma valid_state_eq_new:
  assumes "valid_state crc s"
  shows "s = state_new crc (state_status s) (state_target s) (state_backup s)"
proof -
  from assms have t: "slot_as_u8 (state_target s) = data_byte s AND 0b111"
    using valid_state_slots(1) [OF assms] by (auto simp: try_target_def dest: slot_as_u8_try_from)
  from assms have b: "slot_as_u8 (state_backup s) = drop_bit 3 (data_byte s) AND 0b111"
    using valid_state_slots(2) [OF assms] by (auto simp: try_backup_def dest: slot_as_u8_try_from)
  have "data_byte (state_new crc (state_status s) (state_target s) (state_backup s)) = data_byte s"
    using u8_fields [of "data_byte s"]
    by (simp add: state_new_def Let_def t b status_as_u8_state_status or.assoc)
  with assms show ?thesis
    by (cases s) (auto simp: valid_state_iff crc_byte_state_new intro: state.expand)
qed

section \<open>Properties\<close>

text \<open>
  C17. Round trip: whatever checksum function is used, a record built by \<open>State::new\<close> parses back
  with \<open>State::try_new\<close> from its own bytes, and the accessors return the three fields it was built
  from.
\<close>

theorem state_round_trip:
  "let s = state_new crc st t b in
     try_new crc (as_bytes s ! 0, as_bytes s ! 1) = Ok s \<and>
     state_status s = st \<and> state_target s = t \<and> state_backup s = b"
  using valid_state_new [of crc st t b] by (simp add: as_bytes_def valid_state_def Let_def)

text \<open>
  C18. The parser accepts exactly the records the constructor can build: \<open>try_new\<close> returns \<open>Ok\<close> on
  two bytes if and only if they are the bytes of \<open>State::new\<close> for some status and slots. In
  particular no \<open>unwrap_unchecked\<close> of the accessors ever sees \<open>None\<close> on an accepted record.
\<close>

theorem try_new_accepts_range_of_new:
  "(\<exists>s. try_new crc (a, c) = Ok s) \<longleftrightarrow> (\<exists>st t b. as_bytes (state_new crc st t b) = [a, c])"
proof
  assume "\<exists>s. try_new crc (a, c) = Ok s"
  then have "try_new crc (a, c) = Ok (State a c)" by (auto simp: try_new_Ok_iff)
  then have "valid_state crc (State a c)" by (rule try_new_valid)
  from valid_state_eq_new [OF this] show "\<exists>st t b. as_bytes (state_new crc st t b) = [a, c]"
    by (metis as_bytes_def state.sel)
next
  assume "\<exists>st t b. as_bytes (state_new crc st t b) = [a, c]"
  then show "\<exists>s. try_new crc (a, c) = Ok s"
    using valid_state_new by (metis as_bytes_def list.inject valid_state_def)
qed

text \<open>
  C39. The type invariant of \<open>State\<close>: every value the constructors can produce decodes, so that the
  \<open>unwrap_unchecked\<close> calls in \<open>status\<close>, \<open>target\<close> and \<open>backup\<close> never meet \<open>None\<close>; \<open>try_new\<close> and
  \<open>with_status\<close> stay within these values, and \<open>with_status\<close> changes nothing but the status.
\<close>

theorem state_type_invariant:
  assumes "valid_state crc s"
  shows "status_try_from_primitive (drop_bit 6 (data_byte s)) = Some (state_status s) \<and>
    try_target (data_byte s) = Some (state_target s) \<and> try_backup (data_byte s) = Some (state_backup s) \<and>
    s = state_new crc (state_status s) (state_target s) (state_backup s) \<and>
    valid_state crc (with_status crc s st) \<and> state_status (with_status crc s st) = st \<and>
    state_target (with_status crc s st) = state_target s \<and> state_backup (with_status crc s st) = state_backup s"
proof -
  from valid_state_eq_new [OF assms] obtain st0 t b where s: "s = state_new crc st0 t b" by blast
  have "status_try_from_primitive (drop_bit 6 (data_byte s)) = Some (state_status s)"
    by (simp flip: status_as_u8_state_status)
  then show ?thesis by (simp add: s with_status_def)
qed

theorem state_type_invariant_witness:
  "valid_state crc8_opensafety (with_status crc8_opensafety (state_new crc8_opensafety Initial S1 S0) Confirmed)"
  using state_type_invariant [OF valid_state_new [of crc8_opensafety Initial S1 S0], of Confirmed] by blast

end
