(* ===== verification/Nor_Flash.thy ===== *)
theory Nor_Flash
  imports Boot_State
begin

text \<open>
  The storage interface the journal is written against. \<open>FlashJournal<T: NorFlash>\<close> is generic in
  the \<open>NorFlash\<close> trait of the \<open>embedded-storage-async\<close> crate, which is not part of the
  repository; \<open>nor_flash\<close> is the dictionary of the trait items the journal calls, and the journal's
  definitions take it as an argument. \<open>'f\<close> is the storage device, \<open>'e\<close> its error type.

  The locale \<open>nor_flash_laws\<close> states what the trait documents of those items, down to what an
  operation that is cut short may leave behind: a write programs its bytes in order, an erase
  proceeds from its first to its last byte. \<open>contents\<close> is the byte image of the device, \<open>invar\<close>
  its representation invariant, \<open>reliable\<close> holds of a device that will not fail, \<open>readable\<close> of
  one whose reads will not fail, and \<open>failure\<close> of
  the errors a legal operation on a failing device reports. The mock
  flash of the repository is proved to satisfy the laws in \<open>Mock_Flash\<close>.
\<close>

record ('f, 'e) nor_flash =
  ERASE_SIZE :: nat
  capacity :: "'f \<Rightarrow> nat"
  flash_read :: "u32 \<Rightarrow> nat \<Rightarrow> 'f \<Rightarrow> (u8 list, 'e) res \<times> 'f"
  flash_erase :: "u32 \<Rightarrow> u32 \<Rightarrow> 'f \<Rightarrow> (unit, 'e) res \<times> 'f"
  flash_write :: "u32 \<Rightarrow> u8 list \<Rightarrow> 'f \<Rightarrow> (unit, 'e) res \<times> 'f"

text \<open>The image after the bytes of \<open>[a, b)\<close> have been erased.\<close>

definition erase_range :: "nat \<Rightarrow> nat \<Rightarrow> u8 list \<Rightarrow> u8 list" where
  "erase_range a b d = take a d @ replicate (b - a) 0xff @ drop b d"

lemma length_erase_range [simp]: "a \<le> b \<Longrightarrow> b \<le> length d \<Longrightarrow> length (erase_range a b d) = length d"
  by (simp add: erase_range_def)

lemma nth_erase_range:
  assumes "a \<le> b" and "b \<le> length d" and "i < length d"
  shows "erase_range a b d ! i = (if a \<le> i \<and> i < b then 0xff else d ! i)"
  using assms by (auto simp: erase_range_def nth_append min_def)

lemma erase_range_empty [simp]: "erase_range a a d = d"
  by (simp add: erase_range_def)

lemma erase_range_Suc:
  assumes "a \<le> k" and "k < length d"
  shows "erase_range a (Suc k) d = (erase_range a k d)[k := 0xff]"
proof (rule nth_equalityI)
  show "length (erase_range a (Suc k) d) = length ((erase_range a k d)[k := 0xff])"
    using assms by simp
  fix i
  assume "i < length (erase_range a (Suc k) d)"
  then show "erase_range a (Suc k) d ! i = (erase_range a k d)[k := 0xff] ! i"
    using assms by (auto simp: nth_erase_range nth_list_update less_Suc_eq)
qed

text \<open>
  The two bytes of a journal entry programmed into the image at \<open>a\<close>: completely, or cut short
  after none or one of them.
\<close>

definition program2 :: "nat \<Rightarrow> u8 \<Rightarrow> u8 \<Rightarrow> u8 list \<Rightarrow> u8 list" where
  "program2 a x y d = d[a := x, Suc a := y]"

definition torn_program2 :: "nat \<Rightarrow> u8 \<Rightarrow> u8 \<Rightarrow> u8 list \<Rightarrow> u8 list set" where
  "torn_program2 a x y d = {d, d[a := x], program2 a x y d}"

lemma length_program2 [simp]: "length (program2 a x y d) = length d"
  by (simp add: program2_def)

locale nor_flash_laws =
  fixes ops :: "('f, 'e) nor_flash"
    and contents :: "'f \<Rightarrow> u8 list"
    and invar :: "'f \<Rightarrow> bool"
    and reliable :: "'f \<Rightarrow> bool"
    and readable :: "'f \<Rightarrow> bool"
    and failure :: "'e \<Rightarrow> bool"
  assumes capacity_law: "invar f \<Longrightarrow> capacity ops f = length (contents f)"
    and capacity_u32: "invar f \<Longrightarrow> length (contents f) < 2 ^ 32"
    and page_even: "invar f \<Longrightarrow> even (ERASE_SIZE ops)"
    and page_pos: "invar f \<Longrightarrow> 0 < ERASE_SIZE ops"
    and whole_pages: "invar f \<Longrightarrow> ERASE_SIZE ops dvd length (contents f)"
    and reliable_readable: "reliable f \<Longrightarrow> readable f"
    and read_law:
      "invar f \<Longrightarrow> even off \<Longrightarrow> even n \<Longrightarrow> off + n \<le> length (contents f) \<Longrightarrow>
       flash_read ops (of_nat off) n f = (rb, f') \<Longrightarrow>
       invar f' \<and> contents f' = contents f \<and> fails_only failure rb \<and>
       (\<forall>bs. rb = Ok bs \<longrightarrow> bs = take n (drop off (contents f))) \<and>
       (reliable f \<longrightarrow> reliable f') \<and>
       (readable f \<longrightarrow> readable f' \<and> (\<exists>bs. rb = Ok bs))"
    and write_law:
      "invar f \<Longrightarrow> even a \<Longrightarrow> Suc a < length (contents f) \<Longrightarrow>
       contents f ! a = 0xff \<Longrightarrow> contents f ! Suc a = 0xff \<Longrightarrow> x \<noteq> 0xff \<Longrightarrow>
       flash_write ops (of_nat a) [x, y] f = (r, f') \<Longrightarrow>
       invar f' \<and> fails_only failure r \<and> contents f' \<in> torn_program2 a x y (contents f) \<and>
       (r = Ok () \<longrightarrow> contents f' = program2 a x y (contents f)) \<and>
       (reliable f \<longrightarrow> reliable f' \<and> r = Ok ())"
    and erase_law:
      "invar f \<Longrightarrow> ERASE_SIZE ops dvd a \<Longrightarrow> ERASE_SIZE ops dvd b \<Longrightarrow> a \<le> b \<Longrightarrow>
       b \<le> length (contents f) \<Longrightarrow>
       flash_erase ops (of_nat a) (of_nat b) f = (r, f') \<Longrightarrow>
       invar f' \<and> fails_only failure r \<and>
       (\<exists>k. a \<le> k \<and> k \<le> b \<and> contents f' = erase_range a k (contents f)) \<and>
       (r = Ok () \<longrightarrow> contents f' = erase_range a b (contents f)) \<and>
       (reliable f \<longrightarrow> reliable f' \<and> r = Ok ())"

end
