(* ===== verification/Flash_Journal.thy ===== *)
theory Flash_Journal
  imports Nor_Flash
begin

text \<open>
  \<open>libs/ec-slimloader-state/src/flash.rs\<close>: the state journal. \<open>FlashJournal\<close> owns the storage
  (\<open>inner\<close>) and a cache of the last valid entry and the first free slot; \<open>new\<close> scans the storage,
  \<open>get\<close> reads the cache, \<open>set\<close> appends an entry, erasing pages in a crash-safe order when the
  journal is full, and re-scans. Every definition takes the checksum \<open>crc\<close> and the storage
  dictionary \<open>ops\<close>; \<open>usize\<close> values are \<open>nat\<close>, and the casts to \<open>u32\<close> at the storage
  interface are the wrapping \<open>of_nat\<close>.

  The abstract specification is \<open>latest_state\<close>: the last valid entry of the byte image. The lemmas
  show that the cache computes it for every block size, that \<open>set\<close> makes the given state the latest
  one, and that a \<open>set\<close> that is cut short at any byte leaves either the old or the new latest
  state.
\<close>

section \<open>The journal\<close>

datatype 'e journal_error = NotEnoughPartitions | ReadbackFailed | Other 'e

record state_with_addr =
  swa_state :: state
  swa_address :: nat

record cache =
  last_valid_state :: "state_with_addr option"
  first_empty_slot :: "nat option"

record 'f flash_journal =
  inner :: 'f
  cache :: cache

definition default_cache :: cache where
  "default_cache = \<lparr>last_valid_state = None, first_empty_slot = None\<rparr>"

definition CHUNK_SIZE :: nat where
  "CHUNK_SIZE = 2"

definition page_count :: "('f, 'e) nor_flash \<Rightarrow> 'f \<Rightarrow> nat" where
  "page_count ops f = div_ceil (capacity ops f) (ERASE_SIZE ops)"

definition address_to_page_i :: "('f, 'e) nor_flash \<Rightarrow> u32 \<Rightarrow> nat" where
  "address_to_page_i ops address = unat address div ERASE_SIZE ops"

text \<open>The \<open>match\<close> on one chunk, then the loop over the chunks of a block.\<close>

definition scan_chunk :: "crc8 \<Rightarrow> nat \<Rightarrow> u8 \<times> u8 \<Rightarrow> cache \<Rightarrow> cache" where
  "scan_chunk crc address chunk result =
     (case try_new crc chunk of
        Ok s \<Rightarrow>
          \<lparr>last_valid_state = Some \<lparr>swa_state = s, swa_address = address\<rparr>, first_empty_slot = None\<rparr>
      | Err Unset \<Rightarrow>
          (if first_empty_slot result = None then result\<lparr>first_empty_slot := Some address\<rparr> else result)
      | Err Invalid \<Rightarrow> result
      | Panic \<Rightarrow> result)"

fun scan_chunks :: "crc8 \<Rightarrow> nat \<Rightarrow> nat \<Rightarrow> u8 list list \<Rightarrow> cache \<Rightarrow> cache" where
  "scan_chunks crc block_start chunk_i [] result = result"
| "scan_chunks crc block_start chunk_i (chunk # rest) result =
     (let address = block_start + chunk_i * CHUNK_SIZE
      in scan_chunks crc block_start (Suc chunk_i) rest
           (scan_chunk crc address (chunk ! 0, chunk ! 1) result))"

fun scan_blocks ::
    "crc8 \<Rightarrow> ('f, 'e) nor_flash \<Rightarrow> nat \<Rightarrow> nat list \<Rightarrow> cache \<Rightarrow> 'f \<Rightarrow> (cache, 'e) res \<times> 'f" where
  "scan_blocks crc ops BLOCK_SIZE [] result f = (Ok result, f)"
| "scan_blocks crc ops BLOCK_SIZE (block_i # rest) result f =
     (let block_start = block_i * BLOCK_SIZE;
          block_end = min (block_start + BLOCK_SIZE) (capacity ops f)
      in and_then (flash_read ops (of_nat block_start) (block_end - block_start) f)
           (\<lambda>block f. scan_blocks crc ops BLOCK_SIZE rest
              (scan_chunks crc block_start 0 (chunks_exact CHUNK_SIZE block) result) f))"

definition compute_cache :: "crc8 \<Rightarrow> ('f, 'e) nor_flash \<Rightarrow> nat \<Rightarrow> 'f \<Rightarrow> (cache, 'e) res \<times> 'f" where
  "compute_cache crc ops BLOCK_SIZE f =
     (if \<not> BLOCK_SIZE \<ge> CHUNK_SIZE then (Panic, f)
      else if BLOCK_SIZE mod CHUNK_SIZE \<noteq> 0 then (Panic, f)
      else scan_blocks crc ops BLOCK_SIZE [0..<div_ceil (capacity ops f) BLOCK_SIZE] default_cache f)"

text \<open>\<open>FlashJournal::new\<close> consumes the storage; on an error the journal does not exist.\<close>

definition journal_new ::
    "crc8 \<Rightarrow> ('f, 'e) nor_flash \<Rightarrow> nat \<Rightarrow> 'f \<Rightarrow> ('f flash_journal, 'e journal_error) res \<times> 'f" where
  "journal_new crc ops N f =
     (if page_count ops f < 2 then (Err NotEnoughPartitions, f)
      else (case compute_cache crc ops N f of
              (Ok c, f') \<Rightarrow> (Ok \<lparr>inner = f', cache = c\<rparr>, f')
            | (Err e, f') \<Rightarrow> (Err (Other e), f')
            | (Panic, f') \<Rightarrow> (Panic, f')))"

definition journal_get :: "'f flash_journal \<Rightarrow> state option" where
  "journal_get j = map_option swa_state (last_valid_state (cache j))"

text \<open>An operation on the storage inside \<open>set\<close>, with the \<open>?\<close> that wraps its error.\<close>

definition on_inner ::
    "('f \<Rightarrow> ('a, 'e) res \<times> 'f) \<Rightarrow> 'f flash_journal \<Rightarrow> ('a, 'e journal_error) res \<times> 'f flash_journal" where
  "on_inner op j = (case op (inner j) of (r, f) \<Rightarrow> (map_err Other r, j\<lparr>inner := f\<rparr>))"

definition erase_pages :: "('f, 'e) nor_flash \<Rightarrow> nat \<Rightarrow> nat \<Rightarrow> 'f \<Rightarrow> (unit, 'e) res \<times> 'f" where
  "erase_pages ops range_start range_end f =
     (let start = range_start * ERASE_SIZE ops;
          end = min (range_end * ERASE_SIZE ops) (capacity ops f)
      in flash_erase ops (of_nat start) (of_nat end) f)"

text \<open>The middle part of \<open>set\<close>: where and how the new entry is written.\<close>

definition write_state ::
    "('f, 'e) nor_flash \<Rightarrow> state \<Rightarrow> 'f flash_journal \<Rightarrow> (unit, 'e journal_error) res \<times> 'f flash_journal" where
  "write_state ops s j =
     (case first_empty_slot (cache j) of
        Some first_empty \<Rightarrow> on_inner (flash_write ops (of_nat first_empty) (as_bytes s)) j
      | None \<Rightarrow>
        (case last_valid_state (cache j) of
           Some last_valid \<Rightarrow>
             (let page_i = address_to_page_i ops (of_nat (swa_address last_valid)) in
              if page_i > 0 then
                and_then (on_inner (erase_pages ops 0 1) j) (\<lambda>_ j.
                and_then (on_inner (flash_write ops (of_nat 0) (as_bytes s)) j) (\<lambda>_ j.
                on_inner (erase_pages ops 1 (page_count ops (inner j))) j))
              else
                (let second_page_i = 1 in
                 and_then (on_inner (erase_pages ops second_page_i (page_count ops (inner j))) j) (\<lambda>_ j.
                 let state_address = second_page_i * ERASE_SIZE ops in
                 on_inner (flash_write ops (of_nat state_address) (as_bytes s)) j)))
         | None \<Rightarrow>
             and_then (on_inner (flash_erase ops (of_nat 0) (of_nat (capacity ops (inner j)))) j) (\<lambda>_ j.
             on_inner (flash_write ops (of_nat 0) (as_bytes s)) j)))"

definition journal_set ::
    "crc8 \<Rightarrow> ('f, 'e) nor_flash \<Rightarrow> nat \<Rightarrow> state \<Rightarrow> 'f flash_journal \<Rightarrow>
     (unit, 'e journal_error) res \<times> 'f flash_journal" where
  "journal_set crc ops N s j =
     (if journal_get j = Some s then (Ok (), j)
      else and_then (write_state ops s j) (\<lambda>_ j.
           and_then (on_inner (compute_cache crc ops N) j) (\<lambda>c j.
           let j = j\<lparr>cache := c\<rparr> in
           if journal_get j = Some s then (Ok (), j) else (Err ReadbackFailed, j))))"

section \<open>The abstract journal: the last valid entry of the image\<close>

fun words :: "u8 list \<Rightarrow> (u8 \<times> u8) list" where
  "words (a # b # rest) = (a, b) # words rest"
| "words _ = []"

definition valid_word :: "crc8 \<Rightarrow> u8 \<times> u8 \<Rightarrow> bool" where
  "valid_word crc w \<longleftrightarrow> (\<exists>s. try_new crc w = Ok s)"

definition latest :: "crc8 \<Rightarrow> (u8 \<times> u8) list \<Rightarrow> state option" where
  "latest crc ws =
     (let vs = List.map_filter (\<lambda>w. ok (try_new crc w)) ws in if vs = [] then None else Some (last vs))"

definition latest_state :: "crc8 \<Rightarrow> u8 list \<Rightarrow> state option" where
  "latest_state crc d = latest crc (words d)"

text \<open>A one-pass scan of the whole image, the reference for the blockwise one of the code.\<close>

fun scan :: "crc8 \<Rightarrow> nat \<Rightarrow> (u8 \<times> u8) list \<Rightarrow> cache \<Rightarrow> cache" where
  "scan crc address [] c = c"
| "scan crc address (w # ws) c = scan crc (address + 2) ws (scan_chunk crc address w c)"

lemma length_words [simp]: "length (words d) = length d div 2"
  by (induction d rule: words.induct) auto

lemma words_append: "even (length xs) \<Longrightarrow> words (xs @ ys) = words xs @ words ys"
  by (induction xs rule: words.induct) auto

lemma words_take: "even n \<Longrightarrow> words (take n d) = take (n div 2) (words d)"
proof (induction d arbitrary: n rule: words.induct)
  case (1 a b rest)
  show ?case
  proof (cases n)
    case (Suc m)
    with \<open>even n\<close> obtain k where "n = Suc (Suc k)" "even k" by (cases m) auto
    with 1 show ?thesis by simp
  qed simp
qed (auto simp: take_Cons split: nat.splits)

lemma words_drop: "even n \<Longrightarrow> words (drop n d) = drop (n div 2) (words d)"
proof (induction d arbitrary: n rule: words.induct)
  case (1 a b rest)
  show ?case
  proof (cases n)
    case (Suc m)
    with \<open>even n\<close> obtain k where "n = Suc (Suc k)" "even k" by (cases m) auto
    with 1 show ?thesis by simp
  qed simp
qed (auto simp: drop_Cons split: nat.splits)

lemma words_nth: "Suc (2 * i) < length d \<Longrightarrow> words d ! i = (d ! (2 * i), d ! Suc (2 * i))"
proof (induction d arbitrary: i rule: words.induct)
  case (1 a b rest)
  then show ?case by (cases i) auto
qed auto

lemma scan_append: "scan crc a (xs @ ys) c = scan crc (a + 2 * length xs) ys (scan crc a xs c)"
  by (induction xs arbitrary: a c) (auto simp: algebra_simps)

lemma latest_Nil [simp]: "latest crc [] = None"
  by (simp add: latest_def)

lemma latest_append:
  "latest crc (us @ vs) = (case latest crc vs of Some s \<Rightarrow> Some s | None \<Rightarrow> latest crc us)"
  by (simp add: latest_def Let_def List.map_filter_def)

lemma latest_single: "latest crc [w] = ok (try_new crc w)"
  by (cases "try_new crc w") (simp_all add: latest_def map_filter_simps)

lemma latest_Cons: "latest crc (w # ws) = (case latest crc ws of Some s \<Rightarrow> Some s | None \<Rightarrow> ok (try_new crc w))"
  using latest_append [of crc "[w]" ws] by (simp add: latest_single split: option.splits)

lemma latest_None_iff: "latest crc ws = None \<longleftrightarrow> (\<forall>w \<in> set ws. \<not> valid_word crc w)"
proof (induction ws)
  case (Cons w ws)
  show ?case
    by (cases "try_new crc w")
      (use Cons in \<open>auto simp: latest_Cons valid_word_def split: option.splits\<close>)
qed simp

lemma latest_Some_valid: "latest crc ws = Some s \<Longrightarrow> valid_state crc s"
  by (induction ws) (auto simp: latest_Cons split: option.splits dest: try_new_valid)

lemma valid_word_blank [simp]: "\<not> valid_word crc (0xff, c)"
  by (simp add: valid_word_def)

lemma latest_append_None:
  "latest crc vs = None \<Longrightarrow> latest crc (us @ vs) = latest crc us"
  by (simp add: latest_append)

lemma latest_append_Some:
  "latest crc vs \<noteq> None \<Longrightarrow> latest crc (us @ vs) = latest crc vs"
  by (auto simp: latest_append)

section \<open>The scan\<close>

text \<open>
  What the two fields of the cache say about the words of the image: the last valid word with its
  address, and the first blank word after it.
\<close>

definition last_spec :: "crc8 \<Rightarrow> (u8 \<times> u8) list \<Rightarrow> state_with_addr option \<Rightarrow> bool" where
  "last_spec crc ws lv \<longleftrightarrow>
     (case lv of
        None \<Rightarrow> \<forall>j < length ws. \<not> valid_word crc (ws ! j)
      | Some sa \<Rightarrow> \<exists>i < length ws. swa_address sa = 2 * i \<and> try_new crc (ws ! i) = Ok (swa_state sa) \<and>
          (\<forall>j < length ws. i < j \<longrightarrow> \<not> valid_word crc (ws ! j)))"

definition free_spec :: "crc8 \<Rightarrow> (u8 \<times> u8) list \<Rightarrow> nat option \<Rightarrow> bool" where
  "free_spec crc ws fe \<longleftrightarrow>
     (case fe of
        None \<Rightarrow> \<forall>k < length ws. ws ! k = (0xff, 0xff) \<longrightarrow> (\<exists>j < length ws. k < j \<and> valid_word crc (ws ! j))
      | Some e \<Rightarrow> \<exists>k < length ws. e = 2 * k \<and> ws ! k = (0xff, 0xff) \<and>
          (\<forall>j < length ws. k < j \<longrightarrow> \<not> valid_word crc (ws ! j)) \<and>
          (\<forall>m < k. ws ! m = (0xff, 0xff) \<longrightarrow> (\<exists>j < length ws. m < j \<and> valid_word crc (ws ! j))))"

lemma last_spec_snoc_valid:
  "try_new crc w = Ok s \<Longrightarrow>
   last_spec crc (ws @ [w]) (Some \<lparr>swa_state = s, swa_address = 2 * length ws\<rparr>)"
  by (auto simp: last_spec_def nth_append)

lemma last_spec_snoc_other:
  assumes "\<not> valid_word crc w" and "last_spec crc ws lv"
  shows "last_spec crc (ws @ [w]) lv"
  using assms by (fastforce simp: last_spec_def nth_append less_Suc_eq split: option.splits)

lemma free_spec_snoc_valid:
  assumes "valid_word crc w"
  shows "free_spec crc (ws @ [w]) None"
proof -
  have "w \<noteq> (0xff, 0xff)" using assms by auto
  then have "\<exists>j < length (ws @ [w]). k < j \<and> valid_word crc ((ws @ [w]) ! j)"
    if "k < length (ws @ [w])" "(ws @ [w]) ! k = (0xff, 0xff)" for k
    using that assms by (intro exI [of _ "length ws"]) (simp add: nth_append split: if_splits)
  then show ?thesis by (simp add: free_spec_def)
qed

lemma free_spec_snoc_blank:
  assumes "free_spec crc ws None"
  shows "free_spec crc (ws @ [(0xff, 0xff)]) (Some (2 * length ws))"
proof -
  have "\<exists>j < Suc (length ws). m < j \<and> valid_word crc ((ws @ [(0xff, 0xff)]) ! j)"
    if "m < length ws" "ws ! m = (0xff, 0xff)" for m
  proof -
    from assms that obtain j where "j < length ws" "m < j" "valid_word crc (ws ! j)"
      by (auto simp: free_spec_def)
    then show ?thesis by (auto simp: nth_append intro: exI [of _ j])
  qed
  then show ?thesis by (simp add: free_spec_def nth_append)
qed

lemma free_spec_snoc_other:
  assumes nv: "\<not> valid_word crc w" and spec: "free_spec crc ws fe" and blank: "fe = None \<Longrightarrow> w \<noteq> (0xff, 0xff)"
  shows "free_spec crc (ws @ [w]) fe"
proof -
  have ext: "(\<exists>j < length (ws @ [w]). m < j \<and> valid_word crc ((ws @ [w]) ! j))
      \<longleftrightarrow> (\<exists>j < length ws. m < j \<and> valid_word crc (ws ! j))" for m
    using nv by (auto simp: nth_append less_Suc_eq)
  show ?thesis
  proof (cases fe)
    case None
    with spec blank show ?thesis
      unfolding free_spec_def ext by (auto simp: nth_append less_Suc_eq)
  next
    case (Some e)
    with spec obtain k where k: "k < length ws" "e = 2 * k" "ws ! k = (0xff, 0xff)"
        "\<forall>j < length ws. k < j \<longrightarrow> \<not> valid_word crc (ws ! j)"
        "\<forall>m < k. ws ! m = (0xff, 0xff) \<longrightarrow> (\<exists>j < length ws. m < j \<and> valid_word crc (ws ! j))"
      by (auto simp: free_spec_def)
    with nv Some show ?thesis
      unfolding free_spec_def ext by (auto simp: nth_append less_Suc_eq intro!: exI [of _ k])
  qed
qed

lemma scan_snoc: "scan crc 0 (ws @ [w]) c = scan_chunk crc (2 * length ws) w (scan crc 0 ws c)"
  by (simp add: scan_append)

lemma scan_spec:
  "last_spec crc ws (last_valid_state (scan crc 0 ws default_cache)) \<and>
   free_spec crc ws (first_empty_slot (scan crc 0 ws default_cache))"
proof (induction ws rule: rev_induct)
  case Nil
  show ?case by (simp add: last_spec_def free_spec_def default_cache_def)
next
  case (snoc w ws)
  show ?case
  proof (cases "try_new crc w")
    case (Ok s)
    then have "valid_word crc w" by (simp add: valid_word_def)
    with Ok show ?thesis
      unfolding scan_snoc by (simp add: scan_chunk_def last_spec_snoc_valid free_spec_snoc_valid)
  next
    case (Err e)
    then have nv: "\<not> valid_word crc w" by (simp add: valid_word_def)
    show ?thesis
    proof (cases "w = (0xff, 0xff) \<and> first_empty_slot (scan crc 0 ws default_cache) = None")
      case True
      with snoc.IH nv show ?thesis
        unfolding scan_snoc
        by (auto simp: scan_chunk_def last_spec_snoc_other free_spec_snoc_blank)
    next
      case False
      then have "scan_chunk crc (2 * length ws) w (scan crc 0 ws default_cache) = scan crc 0 ws default_cache"
        using Err try_new_Unset_iff [of crc "fst w" "snd w"]
        by (cases e; cases w) (auto simp: scan_chunk_def)
      with snoc.IH nv False show ?thesis
        unfolding scan_snoc by (auto intro: last_spec_snoc_other free_spec_snoc_other)
    qed
  qed simp
qed

lemma scan_get: "map_option swa_state (last_valid_state (scan crc 0 ws default_cache)) = latest crc ws"
proof (induction ws rule: rev_induct)
  case (snoc w ws)
  then show ?case
    unfolding scan_snoc
    by (cases "try_new crc w")
      (auto simp: scan_chunk_def latest_append latest_single split: parse_result.split)
qed (simp add: default_cache_def)

text \<open>The chunk loop of the code is the one-pass scan of the block.\<close>

lemma scan_chunks_eq:
  "scan_chunks crc start i (chunks_exact CHUNK_SIZE d) c = scan crc (start + 2 * i) (words d) c"
proof (induction d arbitrary: i c rule: words.induct)
  case (1 a b rest)
  have "chunks_exact CHUNK_SIZE (a # b # rest) = [a, b] # chunks_exact CHUNK_SIZE rest"
    by (simp add: CHUNK_SIZE_def chunks_exact.simps [of 2 "a # b # rest"])
  with 1 show ?case by (simp add: Let_def CHUNK_SIZE_def algebra_simps)
qed (simp_all add: CHUNK_SIZE_def chunks_exact.simps)

text \<open>Scanning a block and then the rest of the image is scanning the image.\<close>

lemma scan_block_join:
  assumes B: "even B" and d: "even (length d)" and k: "k * B < length d"
  shows "scan crc (Suc k * B) (words (drop (Suc k * B) d))
      (scan crc (k * B) (words (take (min (k * B + B) (length d) - k * B) (drop (k * B) d))) c) =
    scan crc (k * B) (words (drop (k * B) d)) c"
proof (cases "Suc k * B \<le> length d")
  case True
  let ?xs = "drop (k * B) d"
  have "words ?xs = words (take B ?xs @ drop B ?xs)" by (simp only: append_take_drop_id)
  also have "\<dots> = words (take B ?xs) @ words (drop B ?xs)"
    using True B k d by (subst words_append) (auto simp: min_def)
  finally have "words ?xs = words (take B ?xs) @ words (drop (Suc k * B) d)"
    by (simp add: add.commute)
  moreover have "2 * length (words (take B ?xs)) = B" using True B k by simp
  ultimately show ?thesis
    using True by (simp add: scan_append min_def algebra_simps)
next
  case False
  then show ?thesis by (simp add: min_def)
qed

section \<open>Erasing and programming, seen through \<open>latest\<close>\<close>

lemma words_replicate: "words (replicate (2 * n) x) = replicate n (x, x)"
  by (induction n) auto

lemma words_erase_range:
  assumes a: "even a" "a \<le> b" "b \<le> length d" and d: "even (length d)"
  shows "\<exists>mid. words (erase_range a b d) = take (a div 2) (words d) @ mid @ drop (Suc b div 2) (words d) \<and>
    (\<forall>w \<in> set mid. fst w = 0xff)"
proof (cases "even b")
  case True
  with a obtain n where n: "b - a = 2 * n" by (metis dvd_diff_nat evenE)
  have "words (erase_range a b d) = words (take a d) @ words (replicate (2 * n) 0xff) @ words (drop b d)"
    using a True by (simp add: erase_range_def n words_append)
  then show ?thesis
    using a True by (auto simp: words_replicate words_take words_drop)
next
  case False
  then have b: "b < length d" using a d by (metis le_neq_implies_less)
  have "odd (b - a)" using a(1,2) False by simp
  then obtain n where n: "b - a = 2 * n + 1" by (rule oddE)
  have "erase_range a b d = take a d @ replicate (2 * n) 0xff @ [0xff, d ! b] @ drop (Suc b) d"
    using b Cons_nth_drop_Suc [OF b, symmetric]
    by (simp add: erase_range_def n replicate_append_same)
  then have "words (erase_range a b d) = take (a div 2) (words d) @
      (replicate n (0xff, 0xff) @ [(0xff, d ! b)]) @ drop (Suc b div 2) (words d)"
    using a b False by (simp add: words_append words_replicate words_take words_drop)
  then show ?thesis by force
qed

lemma latest_erase_range:
  assumes "even a" "a \<le> b" "b \<le> length d" and "even (length d)"
  shows "latest_state crc (erase_range a b d) =
    latest crc (take (a div 2) (words d) @ drop (Suc b div 2) (words d))"
proof -
  obtain mid where mid: "words (erase_range a b d) = take (a div 2) (words d) @ mid @ drop (Suc b div 2) (words d)"
      "\<forall>w \<in> set mid. fst w = 0xff"
    using words_erase_range [OF assms] by blast
  then have "latest crc mid = None" by (auto simp: latest_None_iff)
  with mid show ?thesis by (auto simp: latest_state_def latest_append split: option.splits)
qed

lemma words_update:
  assumes "Suc (2 * k) < length d"
  shows "words (d[2 * k := x]) = (words d)[k := (x, d ! Suc (2 * k))]"
    and "words (program2 (2 * k) x y d) = (words d)[k := (x, y)]"
proof -
  have "2 * i \<noteq> Suc (2 * k)" "Suc (2 * i) \<noteq> 2 * k" for i by presburger+
  then show "words (d[2 * k := x]) = (words d)[k := (x, d ! Suc (2 * k))]"
    and "words (program2 (2 * k) x y d) = (words d)[k := (x, y)]"
    using assms by (auto intro!: nth_equalityI simp: words_nth nth_list_update program2_def)
qed

lemma latest_update_last:
  assumes k: "k < length ws" and "\<not> valid_word crc (ws ! k)"
    and later: "\<forall>j < length ws. k < j \<longrightarrow> \<not> valid_word crc (ws ! j)"
  shows "latest crc (ws[k := w]) = (case try_new crc w of Ok s \<Rightarrow> Some s | _ \<Rightarrow> latest crc ws)"
proof -
  have tail: "latest crc (drop (Suc k) ws) = None"
    using later k by (auto simp: latest_None_iff set_conv_nth)
  have "ok (try_new crc (ws ! k)) = None"
    using assms(2) by (cases "try_new crc (ws ! k)") (auto simp: valid_word_def)
  then have "latest crc ws = latest crc (take k ws)"
    using id_take_nth_drop [OF k] tail by (metis latest_append_None latest_Cons option.simps(4))
  with tail k show ?thesis
    by (cases "try_new crc w") (simp_all add: upd_conv_take_nth_drop latest_append latest_Cons)
qed

lemma latest_update_earlier:
  assumes "k < length ws" and "latest crc (drop (Suc k) ws) \<noteq> None"
  shows "latest crc (ws[k := w]) = latest crc ws"
proof -
  have "latest crc (v # drop (Suc k) ws) = latest crc (drop (Suc k) ws)" for v
    using assms(2) by (auto simp: latest_Cons)
  then show ?thesis
    using assms id_take_nth_drop [OF assms(1)]
    by (metis latest_append_Some upd_conv_take_nth_drop)
qed

text \<open>
  Programming a valid entry into the free slot, possibly cut short: the latest state is the old or
  the new one, and after a complete write the new one. The half-written word is accepted by the
  parser only when the missing checksum byte is \<open>0xff\<close>, that is, when it is the new entry already.
\<close>

lemma latest_torn_program2:
  assumes s: "valid_state crc s" and k: "Suc (2 * k) < length d"
    and blank: "words d ! k = (0xff, 0xff)"
    and later: "\<forall>j < length (words d). k < j \<longrightarrow> \<not> valid_word crc (words d ! j)"
    and d': "d' \<in> torn_program2 (2 * k) (data_byte s) (crc_byte s) d"
  shows "latest_state crc d' = latest_state crc d \<or> latest_state crc d' = Some s"
    and "d' = program2 (2 * k) (data_byte s) (crc_byte s) d \<Longrightarrow> latest_state crc d' = Some s"
proof -
  have k': "k < length (words d)" using k by simp
  note upd = latest_update_last [OF k' _ later, unfolded blank, OF valid_word_blank]
  have new: "try_new crc (data_byte s, crc_byte s) = Ok s" using s by (simp add: valid_state_def)
  then show full: "d' = program2 (2 * k) (data_byte s) (crc_byte s) d \<Longrightarrow> latest_state crc d' = Some s"
    using k by (simp add: latest_state_def words_update upd)
  have half: "try_new crc (data_byte s, 0xff) = Ok t \<Longrightarrow> t = s" for t
    using s by (cases s) (auto simp: try_new_Ok_iff valid_state_iff)
  have ff: "d ! Suc (2 * k) = 0xff" using blank words_nth [OF k] by simp
  have "latest_state crc (d[2 * k := data_byte s]) \<in> {latest_state crc d, Some s}"
    using k half
    by (auto simp: latest_state_def words_update upd ff split: res.split)
  with d' full show "latest_state crc d' = latest_state crc d \<or> latest_state crc d' = Some s"
    by (auto simp: torn_program2_def)
qed

lemma words_erase_page:
  assumes "even b" and "b \<le> length d"
  shows "words (erase_range 0 b d) = replicate (b div 2) (0xff, 0xff) @ drop (b div 2) (words d)"
  using assms words_replicate [of "b div 2" "0xff"]
  by (simp add: erase_range_def words_append words_drop)

lemma words_erase_to_end:
  assumes "even a" and "a \<le> length d" and "even (length d)"
  shows "words (erase_range a (length d) d) =
    take (a div 2) (words d) @ replicate ((length d - a) div 2) (0xff, 0xff)"
  using assms words_replicate [of "(length d - a) div 2" "0xff"]
  by (simp add: erase_range_def words_append words_take)

lemma latest_drop:
  assumes "i < length ws" and "valid_word crc (ws ! i)" and "m \<le> i"
  shows "latest crc (drop m ws) = latest crc ws" and "latest crc (drop m ws) \<noteq> None"
proof -
  have "drop m ws ! (i - m) = ws ! i" "i - m < length (drop m ws)" using assms by simp_all
  with assms(2) have "ws ! i \<in> set (drop m ws)" by (metis nth_mem)
  then show some: "latest crc (drop m ws) \<noteq> None" using assms(2) by (auto simp: latest_None_iff)
  show "latest crc (drop m ws) = latest crc ws"
    using latest_append_Some [OF some, of "take m ws"] by simp
qed

lemma latest_drop_cases: "latest crc (drop m ws) = None \<or> latest crc (drop m ws) = latest crc ws"
  using latest_append_Some [of crc "drop m ws" "take m ws"] by (cases "latest crc (drop m ws)") auto

lemma latest_drop_None:
  assumes "\<forall>j < length ws. i < j \<longrightarrow> \<not> valid_word crc (ws ! j)" and "i < m"
  shows "latest crc (drop m ws) = None" and "latest crc (take m ws) = latest crc ws"
proof -
  show none: "latest crc (drop m ws) = None"
    using assms by (auto simp: latest_None_iff set_conv_nth)
  show "latest crc (take m ws) = latest crc ws"
    using latest_append_None [OF none, of "take m ws"] by simp
qed

lemma latest_blanks [simp]: "latest crc (replicate n (0xff, c)) = None"
  by (auto simp: latest_None_iff)

lemma latest_entry_blanks:
  "valid_state crc s \<Longrightarrow> latest crc ((data_byte s, crc_byte s) # replicate n (0xff, 0xff)) = Some s"
  by (simp add: latest_Cons valid_state_def)

section \<open>\<open>set\<close> on the storage\<close>

text \<open>The writing part of \<open>set\<close> as an operation on the storage alone: the cache does not change.\<close>

definition write_inner :: "('f, 'e) nor_flash \<Rightarrow> state \<Rightarrow> cache \<Rightarrow> 'f \<Rightarrow> (unit, 'e) res \<times> 'f" where
  "write_inner ops s c f =
     (case first_empty_slot c of
        Some first_empty \<Rightarrow> flash_write ops (of_nat first_empty) (as_bytes s) f
      | None \<Rightarrow>
        (case last_valid_state c of
           Some last_valid \<Rightarrow>
             if address_to_page_i ops (of_nat (swa_address last_valid)) > 0 then
               and_then (erase_pages ops 0 1 f) (\<lambda>_ f.
               and_then (flash_write ops (of_nat 0) (as_bytes s) f) (\<lambda>_ f.
               erase_pages ops 1 (page_count ops f) f))
             else
               and_then (erase_pages ops 1 (page_count ops f) f) (\<lambda>_ f.
               flash_write ops (of_nat (ERASE_SIZE ops)) (as_bytes s) f)
         | None \<Rightarrow>
             and_then (flash_erase ops (of_nat 0) (of_nat (capacity ops f)) f) (\<lambda>_ f.
             flash_write ops (of_nat 0) (as_bytes s) f)))"

lemma on_inner_seq:
  "and_then (on_inner op j) (\<lambda>x j. on_inner (k x) j) = on_inner (\<lambda>f. and_then (op f) k) j"
proof -
  obtain r f where "op (inner j) = (r, f)" by fastforce
  then show ?thesis by (cases r) (simp_all add: on_inner_def)
qed

lemma on_inner_dep: "on_inner (h (inner j)) j = on_inner (\<lambda>f. h f f) j"
  by (simp add: on_inner_def)

lemma write_state_eq: "write_state ops s j = on_inner (write_inner ops s (cache j)) j"
  unfolding write_state_def write_inner_def Let_def
  by (simp add: on_inner_seq on_inner_dep [of "\<lambda>f. erase_pages ops _ (page_count ops f)"]
      on_inner_dep [of "\<lambda>f. flash_erase ops _ (of_nat (capacity ops f))"] split: option.split)

section \<open>The journal over any storage that satisfies the laws\<close>

text \<open>A journal in order: lawful storage of at least two pages, and a cache that is its scan.\<close>

definition journal_inv ::
    "crc8 \<Rightarrow> ('f, 'e) nor_flash \<Rightarrow> ('f \<Rightarrow> u8 list) \<Rightarrow> ('f \<Rightarrow> bool) \<Rightarrow> 'f flash_journal \<Rightarrow> bool" where
  "journal_inv crc ops contents invar j \<longleftrightarrow>
     invar (inner j) \<and> 2 \<le> page_count ops (inner j) \<and>
     cache j = scan crc 0 (words (contents (inner j))) default_cache"

text \<open>The errors of the journal that only pass on an error of the storage.\<close>

fun storage_failure :: "('e \<Rightarrow> bool) \<Rightarrow> 'e journal_error \<Rightarrow> bool" where
  "storage_failure P (Other e) \<longleftrightarrow> P e"
| "storage_failure P _ \<longleftrightarrow> False"

lemma journal_inv_get:
  "journal_inv crc ops contents invar j \<Longrightarrow> journal_get j = latest_state crc (contents (inner j))"
  by (simp add: journal_inv_def journal_get_def scan_get latest_state_def)

context nor_flash_laws
begin

lemma even_capacity: "invar f \<Longrightarrow> even (length (contents f))"
  using page_even whole_pages by (metis dvd_trans)

lemma page_count_eq: "invar f \<Longrightarrow> page_count ops f * ERASE_SIZE ops = length (contents f)"
  using whole_pages [of f] page_pos [of f] by (auto simp: page_count_def capacity_law mult.commute)

text \<open>The rest of the scan, from block \<open>k\<close> on.\<close>

lemma scan_blocks_effect:
  assumes "invar f" and B: "even B" "2 \<le> B" and "k \<le> n" and "n = div_ceil (length (contents f)) B"
    and "scan_blocks crc ops B [k..<n] c f = (r, f')"
  shows "invar f' \<and> contents f' = contents f \<and> fails_only failure r \<and>
    (\<forall>c'. r = Ok c' \<longrightarrow> c' = scan crc (k * B) (words (drop (k * B) (contents f))) c) \<and>
    (reliable f \<longrightarrow> reliable f') \<and> (readable f \<longrightarrow> readable f' \<and> (\<exists>c'. r = Ok c'))"
  using assms(1,4-)
proof (induction "n - k" arbitrary: k c f)
  case 0
  then have "length (contents f) \<le> k * B" using div_ceil_covers [of B "length (contents f)"] B by simp
  with 0 show ?case by auto
next
  case (Suc m)
  let ?d = "contents f"
  let ?n = "min (k * B + B) (length ?d) - k * B"
  have k: "k < n" using Suc by simp
  then have kB: "k * B < length ?d" using Suc.prems(3) B div_ceil_tight [of B k] by simp
  have even: "even (k * B)" "even ?n"
    using B even_capacity [OF Suc.prems(1)] by (auto simp: min_def)
  obtain rb g where rd: "flash_read ops (of_nat (k * B)) ?n f = (rb, g)" by fastforce
  have len: "k * B + ?n \<le> length ?d" using kB by simp
  note law = read_law [OF Suc.prems(1) even len rd]
  let ?c = "scan crc (k * B) (words (take ?n (drop (k * B) ?d))) c"
  show ?case
  proof (cases rb)
    case (Ok bs)
    with law have bs: "bs = take ?n (drop (k * B) ?d)" and g: "invar g" "contents g = ?d" by auto
    have run: "scan_blocks crc ops B [Suc k..<n] ?c g = (r, f')"
      using Suc.prems(4) k Ok rd scan_chunks_eq [of crc "k * B" 0]
      by (simp add: upt_conv_Cons Let_def capacity_law [OF Suc.prems(1)] bs)
    have "m = n - Suc k" "Suc k \<le> n" "n = div_ceil (length (contents g)) B" using Suc g k by auto
    note IH = Suc.hyps(1) [OF this(1) g(1) this(2,3) run]
    have "scan crc (Suc k * B) (words (drop (Suc k * B) ?d)) ?c = scan crc (k * B) (words (drop (k * B) ?d)) c"
      by (rule scan_block_join [OF B(1) even_capacity [OF Suc.prems(1)] kB])
    with IH law Ok g show ?thesis by auto
  next
    case (Err e)
    with law Suc.prems(4) k rd show ?thesis
      by (auto simp: upt_conv_Cons Let_def capacity_law [OF Suc.prems(1)])
  next
    case Panic
    with law show ?thesis by simp
  qed
qed

lemma compute_cache_effect:
  assumes "invar f" and "even B" and "2 \<le> B" and "compute_cache crc ops B f = (r, f')"
  shows "invar f' \<and> contents f' = contents f \<and> fails_only failure r \<and>
    (\<forall>c. r = Ok c \<longrightarrow> c = scan crc 0 (words (contents f)) default_cache) \<and>
    (reliable f \<longrightarrow> reliable f') \<and> (readable f \<longrightarrow> readable f' \<and> (\<exists>c. r = Ok c))"
  using assms scan_blocks_effect [of f B 0 _ crc default_cache r f']
  by (simp add: compute_cache_def CHUNK_SIZE_def capacity_law even_iff_mod_2_eq_zero)

lemma journal_new_effect:
  assumes "invar f" and "even B" and "2 \<le> B" and pages: "2 \<le> page_count ops f"
    and "journal_new crc ops B f = (r, f')"
  shows "invar f' \<and> contents f' = contents f \<and> fails_only (storage_failure failure) r \<and>
    (\<forall>j. r = Ok j \<longrightarrow> journal_inv crc ops contents invar j \<and> inner j = f') \<and>
    (reliable f \<longrightarrow> reliable f') \<and> (readable f \<longrightarrow> readable f' \<and> (\<exists>j. r = Ok j))"
proof -
  obtain rc g where cc: "compute_cache crc ops B f = (rc, g)" by fastforce
  note eff = compute_cache_effect [OF assms(1-3) cc]
  then have "page_count ops g = page_count ops f"
    using assms(1) by (simp add: page_count_def capacity_law)
  with eff assms(4,5) cc show ?thesis
    by (cases rc) (auto simp: journal_new_def journal_inv_def)
qed

text \<open>
  The effect of the storage operations of \<open>set\<close> on a device, in the shape the proof of \<open>set\<close> chains.
\<close>

lemma erase_pages_effect:
  assumes inv: "invar f" and ij: "i \<le> j" "j \<le> page_count ops f"
    and run: "erase_pages ops i j f = (r, f')"
  shows "invar f' \<and> fails_only failure r \<and>
    (\<exists>k. i * ERASE_SIZE ops \<le> k \<and> k \<le> j * ERASE_SIZE ops \<and>
       contents f' = erase_range (i * ERASE_SIZE ops) k (contents f)) \<and>
    (r = Ok () \<longrightarrow> contents f' = erase_range (i * ERASE_SIZE ops) (j * ERASE_SIZE ops) (contents f)) \<and>
    (reliable f \<longrightarrow> reliable f' \<and> r = Ok ())"
proof -
  have le: "j * ERASE_SIZE ops \<le> length (contents f)"
    using page_count_eq [OF inv] mult_le_mono1 [OF ij(2)] by metis
  then have run': "flash_erase ops (of_nat (i * ERASE_SIZE ops)) (of_nat (j * ERASE_SIZE ops)) f = (r, f')"
    using run inv by (simp add: erase_pages_def Let_def capacity_law min_def)
  show ?thesis
    by (rule erase_law [OF inv _ _ _ le run']) (simp_all add: ij)
qed

lemma write_entry_effect:
  assumes inv: "invar f" and s: "valid_state crc s" and k: "Suc (2 * k) < length (contents f)"
    and blank: "words (contents f) ! k = (0xff, 0xff)"
    and run: "flash_write ops (of_nat (2 * k)) (as_bytes s) f = (r, f')"
  shows "invar f' \<and> fails_only failure r \<and>
    contents f' \<in> torn_program2 (2 * k) (data_byte s) (crc_byte s) (contents f) \<and>
    (r = Ok () \<longrightarrow> contents f' = program2 (2 * k) (data_byte s) (crc_byte s) (contents f)) \<and>
    (reliable f \<longrightarrow> reliable f' \<and> r = Ok ())"
proof -
  have blank: "contents f ! (2 * k) = 0xff" "contents f ! Suc (2 * k) = 0xff"
    using blank words_nth [OF k] by simp_all
  have run': "flash_write ops (of_nat (2 * k)) [data_byte s, crc_byte s] f = (r, f')"
    using run by (simp only: as_bytes_def)
  show ?thesis
    by (rule write_law [OF inv _ k blank valid_state_data_byte [OF s] run']) simp
qed

text \<open>
  What writing the entry \<open>s\<close> must do to the device: from \<open>f\<close>, with outcome \<open>r\<close>, to \<open>f'\<close>.
\<close>

definition writes_entry :: "crc8 \<Rightarrow> state \<Rightarrow> 'f \<Rightarrow> (unit, 'e) res \<Rightarrow> 'f \<Rightarrow> bool" where
  "writes_entry crc s f r f' \<longleftrightarrow>
     invar f' \<and> length (contents f') = length (contents f) \<and> fails_only failure r \<and>
     (latest_state crc (contents f') = latest_state crc (contents f) \<or>
      latest_state crc (contents f') = Some s) \<and>
     (r = Ok () \<longrightarrow> latest_state crc (contents f') = Some s) \<and>
     (reliable f \<longrightarrow> reliable f' \<and> r = Ok ())"

lemma append_entry:
  assumes inv: "invar f" and s: "valid_state crc s" and k: "k < length (words (contents f))"
    and blank: "words (contents f) ! k = (0xff, 0xff)"
    and later: "\<forall>j < length (words (contents f)). k < j \<longrightarrow> \<not> valid_word crc (words (contents f) ! j)"
    and run: "flash_write ops (of_nat (2 * k)) (as_bytes s) f = (r, f')"
  shows "writes_entry crc s f r f'"
proof -
  have k': "Suc (2 * k) < length (contents f)" using k even_capacity [OF inv] by auto
  note eff = write_entry_effect [OF inv s k' blank run]
  note torn = latest_torn_program2 [OF s k' blank later, of "contents f'"]
  from eff have "length (contents f') = length (contents f)"
    by (auto simp: torn_program2_def)
  with eff torn show ?thesis by (auto simp: writes_entry_def)
qed

text \<open>An operation before it that leaves the latest state alone, and how the two are chained.\<close>

definition keeps_latest :: "crc8 \<Rightarrow> 'f \<Rightarrow> (unit, 'e) res \<Rightarrow> 'f \<Rightarrow> bool" where
  "keeps_latest crc f r f' \<longleftrightarrow>
     invar f' \<and> length (contents f') = length (contents f) \<and> fails_only failure r \<and>
     latest_state crc (contents f') = latest_state crc (contents f) \<and> (reliable f \<longrightarrow> reliable f' \<and> r = Ok ())"

lemma writes_entry_seq:
  assumes "and_then m k = (r, f')"
    and "\<And>r1 f1. m = (r1, f1) \<Longrightarrow> keeps_latest crc f r1 f1"
    and "\<And>f1. m = (Ok (), f1) \<Longrightarrow> k () f1 = (r, f') \<Longrightarrow> writes_entry crc s f1 r f'"
  shows "writes_entry crc s f r f'"
proof -
  obtain r1 f1 where op: "m = (r1, f1)" by fastforce
  note keeps = assms(2) [OF op, unfolded keeps_latest_def]
  show ?thesis
  proof (cases r1)
    case (Ok u)
    with assms(1,3) op have "writes_entry crc s f1 r f'" by simp
    with keeps Ok show ?thesis by (auto simp: writes_entry_def)
  qed (use assms(1) op keeps in \<open>auto simp: writes_entry_def\<close>)
qed

text \<open>Nothing valid in the journal and no free slot: erase everything, then write.\<close>

lemma write_fresh:
  assumes inv: "invar f" and s: "valid_state crc s" and pages: "2 \<le> page_count ops f"
    and none: "latest_state crc (contents f) = None"
    and run: "and_then (flash_erase ops (of_nat 0) (of_nat (capacity ops f)) f)
        (\<lambda>_. flash_write ops (of_nat 0) (as_bytes s)) = (r, f')"
  shows "writes_entry crc s f r f'"
proof -
  let ?d = "contents f"
  have ev: "even (length ?d)" using even_capacity [OF inv] .
  have len: "2 \<le> length ?d"
    using page_count_eq [OF inv] page_pos [OF inv] page_even [OF inv] pages
    by (metis dvd_imp_le dvd_mult le_trans mult_is_0 not_gr_zero not_numeral_le_zero)
  note law = erase_law [OF inv dvd_0_right whole_pages [OF inv] le0 order_refl, folded capacity_law [OF inv]]
  show ?thesis
  proof (rule writes_entry_seq [OF run])
    fix r1 g
    assume er: "flash_erase ops (of_nat 0) (of_nat (capacity ops f)) f = (r1, g)"
    from law [OF er] obtain k where k: "k \<le> length ?d" "contents g = erase_range 0 k ?d"
      by (auto simp: capacity_law [OF inv])
    have "latest_state crc (contents g) = None"
      using k ev none latest_drop_cases [of crc "Suc k div 2" "words ?d"]
      by (simp add: latest_erase_range) (simp add: latest_state_def)
    with law [OF er] k none show "keeps_latest crc f r1 g" by (simp add: keeps_latest_def)
  next
    fix g
    assume er: "flash_erase ops (of_nat 0) (of_nat (capacity ops f)) f = (Ok (), g)"
      and wr: "flash_write ops (of_nat 0) (as_bytes s) g = (r, f')"
    have blanks: "words (contents g) = replicate (length ?d div 2) (0xff, 0xff)"
      using law [OF er] ev by (simp add: words_erase_page capacity_law [OF inv])
    show "writes_entry crc s g r f'"
      by (rule append_entry [of g crc s 0]) (use law [OF er] s len blanks wr in auto)
  qed
qed

text \<open>
  The last valid entry lies in the first page and no slot is free: erase the other pages, then write
  at the start of the second page.
\<close>

lemma page_words:
  assumes "invar f" and "2 \<le> page_count ops f"
  shows "ERASE_SIZE ops = 2 * (ERASE_SIZE ops div 2)" and "0 < ERASE_SIZE ops div 2"
    and "2 * ERASE_SIZE ops \<le> length (contents f)"
proof -
  show P: "ERASE_SIZE ops = 2 * (ERASE_SIZE ops div 2)" using page_even [OF assms(1)] by simp
  show "0 < ERASE_SIZE ops div 2" using P page_pos [OF assms(1)] by linarith
  show "2 * ERASE_SIZE ops \<le> length (contents f)"
    using page_count_eq [OF assms(1)] mult_le_mono1 [OF assms(2)] by metis
qed

lemma write_second_page:
  assumes inv: "invar f" and s: "valid_state crc s" and pages: "2 \<le> page_count ops f"
    and i: "i < ERASE_SIZE ops div 2"
    and last: "\<forall>j < length (words (contents f)). i < j \<longrightarrow> \<not> valid_word crc (words (contents f) ! j)"
    and run: "and_then (erase_pages ops 1 (page_count ops f) f)
        (\<lambda>_. flash_write ops (of_nat (ERASE_SIZE ops)) (as_bytes s)) = (r, f')"
  shows "writes_entry crc s f r f'"
proof -
  let ?d = "contents f" and ?P = "ERASE_SIZE ops" and ?p = "ERASE_SIZE ops div 2"
  have ev: "even (length ?d)" using even_capacity [OF inv] .
  note P = page_words [OF inv pages]
  have "1 \<le> page_count ops f" using pages by simp
  note eff = erase_pages_effect [OF inv this order_refl, unfolded page_count_eq [OF inv] mult_1]
  show ?thesis
  proof (rule writes_entry_seq [OF run])
    fix r1 g
    assume er: "erase_pages ops 1 (page_count ops f) f = (r1, g)"
    from eff [OF er] obtain k where k: "?P \<le> k" "k \<le> length ?d" "contents g = erase_range ?P k ?d" by auto
    have "latest crc (drop (Suc k div 2) (words ?d)) = None" "latest crc (take ?p (words ?d)) = latest crc (words ?d)"
      using latest_drop_None [OF last, of "Suc k div 2"] latest_drop_None [OF last, of ?p] i k(1) by auto
    then have "latest_state crc (contents g) = latest_state crc ?d"
      using k ev page_even [OF inv] by (simp add: latest_erase_range latest_append_None) (simp add: latest_state_def)
    with eff [OF er] k show "keeps_latest crc f r1 g" by (simp add: keeps_latest_def)
  next
    fix g
    assume er: "erase_pages ops 1 (page_count ops f) f = (Ok (), g)"
      and wr: "flash_write ops (of_nat ?P) (as_bytes s) g = (r, f')"
    have g: "invar g" "contents g = erase_range ?P (length ?d) ?d" using eff [OF er] by auto
    then have ws: "words (contents g) = take ?p (words ?d) @ replicate ((length ?d - ?P) div 2) (0xff, 0xff)"
      using P(3) ev page_even [OF inv] by (simp add: words_erase_to_end)
    have len: "length (contents g) = length ?d" "?p < length ?d div 2" using g(2) P by auto
    have "?p + (length ?d - ?P) div 2 = length ?d div 2" using arg_cong [OF ws, of length] len by simp
    then have "words (contents g) ! j = (0xff, 0xff)" if "?p \<le> j" "j < length ?d div 2" for j
      using that ws len by (simp add: nth_append less_diff_conv2 add.commute)
    then show "writes_entry crc s g r f'"
      using g(1) s len wr P(1) by (intro append_entry [of g crc s ?p]) auto
  qed
qed

text \<open>
  The last valid entry lies behind the first page and no slot is free: erase the first page, write
  the entry there, erase the rest. The old entry stays the latest until the last erase passes it.
\<close>

lemma write_first_page_torn:
  assumes s: "valid_state crc s" and d: "even (length d)" and p: "0 < p" "2 * p \<le> length d"
    and i: "p \<le> i" "i < length (words d)" "valid_word crc (words d ! i)"
    and d': "d' \<in> torn_program2 0 (data_byte s) (crc_byte s) (erase_range 0 (2 * p) d)"
  shows "latest_state crc d' = latest_state crc d"
proof -
  let ?e = "erase_range 0 (2 * p) d"
  have ws: "words ?e = replicate p (0xff, 0xff) @ drop p (words d)"
    using p d by (simp add: words_erase_page)
  have old: "latest crc (drop p (words d)) = latest crc (words d)" "latest crc (drop p (words d)) \<noteq> None"
    using latest_drop [OF i(2,3,1)] by auto
  have le: "latest crc (words ?e) = latest crc (words d)"
    using old by (simp add: ws latest_append_Some)
  have "latest crc (drop (Suc 0) (words ?e)) \<noteq> None"
    using old p by (simp add: ws latest_append_Some)
  then have "latest crc ((words ?e)[0 := w]) = latest crc (words d)" for w
    using le p i(2) latest_update_earlier [of 0 "words ?e"] by simp
  moreover have "Suc (2 * 0) < length ?e" using p by simp
  ultimately show ?thesis
    using d' le words_update [of 0 ?e] by (auto simp: latest_state_def torn_program2_def)
qed

lemma write_first_page_finish:
  assumes s: "valid_state crc s" and d: "even (length d)" and p: "0 < p" "2 * p \<le> length d"
    and k: "2 * p \<le> k" "k \<le> length d"
    and e: "e = program2 0 (data_byte s) (crc_byte s) (erase_range 0 (2 * p) d)"
  shows "latest_state crc (erase_range (2 * p) k e) = latest_state crc d \<or>
      latest_state crc (erase_range (2 * p) k e) = Some s"
    and "k = length d \<Longrightarrow> latest_state crc (erase_range (2 * p) k e) = Some s"
proof -
  let ?entry = "(data_byte s, crc_byte s)"
  have len: "length e = length d" using p by (simp add: e)
  have "Suc (2 * 0) < length (erase_range 0 (2 * p) d)" using p by simp
  from words_update(2) [OF this] have "words e = (replicate p (0xff, 0xff) @ drop p (words d))[0 := ?entry]"
    using p d by (simp add: e words_erase_page)
  moreover obtain q where q: "p = Suc q" using p by (cases p) auto
  ultimately have ws: "words e = (?entry # replicate q (0xff, 0xff)) @ drop p (words d)" by simp
  have m: "p \<le> Suc k div 2" using k by linarith
  have "latest_state crc (erase_range (2 * p) k e) =
      latest crc (take p (words e) @ drop (Suc k div 2) (words e))"
    using k p d len by (simp add: latest_erase_range)
  also have "take p (words e) = ?entry # replicate q (0xff, 0xff)" using ws q by simp
  also have "drop (Suc k div 2) (words e) = drop (Suc k div 2) (words d)"
    using drop_append_drop [of "?entry # replicate q (0xff, 0xff)" "Suc k div 2" "words d"] ws q m by simp
  finally have eq: "latest_state crc (erase_range (2 * p) k e) =
      (case latest crc (drop (Suc k div 2) (words d)) of Some t \<Rightarrow> Some t | None \<Rightarrow> Some s)"
    using s by (simp only: latest_append latest_entry_blanks)
  then show "latest_state crc (erase_range (2 * p) k e) = latest_state crc d \<or>
      latest_state crc (erase_range (2 * p) k e) = Some s"
    using latest_drop_cases [of crc "Suc k div 2" "words d"] by (auto simp: latest_state_def split: option.splits)
  show "k = length d \<Longrightarrow> latest_state crc (erase_range (2 * p) k e) = Some s"
    using eq d by simp
qed

lemma erase_first_keeps:
  assumes inv: "invar f" and pages: "2 \<le> page_count ops f"
    and i: "ERASE_SIZE ops div 2 \<le> i" "i < length (words (contents f))" "valid_word crc (words (contents f) ! i)"
    and run: "erase_pages ops 0 1 f = (r, f')"
  shows "keeps_latest crc f r f'"
    and "r = Ok () \<Longrightarrow> contents f' = erase_range 0 (2 * (ERASE_SIZE ops div 2)) (contents f)"
proof -
  note P = page_words [OF inv pages]
  have "1 \<le> page_count ops f" using pages by simp
  note law = erase_pages_effect [OF inv _ this run, simplified]
  then obtain k where k: "k \<le> ERASE_SIZE ops" "contents f' = erase_range 0 k (contents f)" by auto
  have "Suc k div 2 \<le> i" "k \<le> length (contents f)" using k(1) P i(1) by linarith+
  with k(2) even_capacity [OF inv] latest_drop(1) [OF i(2,3)] have
    "latest_state crc (contents f') = latest_state crc (contents f)" "length (contents f') = length (contents f)"
    by (simp_all add: latest_erase_range) (simp add: latest_state_def)
  with law show "keeps_latest crc f r f'" by (simp add: keeps_latest_def)
  show "r = Ok () \<Longrightarrow> contents f' = erase_range 0 (2 * (ERASE_SIZE ops div 2)) (contents f)" using law P(1) by simp
qed

lemma erase_rest_finishes:
  assumes inv: "invar f" and s: "valid_state crc s" and d: "even (length d)" and p: "0 < p" "2 * p \<le> length d" "ERASE_SIZE ops = 2 * p"
    and f: "contents f = program2 0 (data_byte s) (crc_byte s) (erase_range 0 (2 * p) d)"
    and old: "latest_state crc (contents f) = latest_state crc d"
    and run: "erase_pages ops 1 (page_count ops f) f = (r, f')"
  shows "writes_entry crc s f r f'"
proof -
  have len: "length (contents f) = length d" using f p by simp
  have "1 \<le> page_count ops f" using page_count_eq [OF inv] len p by (cases "page_count ops f") auto
  have "page_count ops f * (2 * p) = length d" using page_count_eq [OF inv] len p(3) by simp
  note law = erase_pages_effect [OF inv \<open>1 \<le> page_count ops f\<close> order_refl run, unfolded p(3) this mult_1]
  then obtain k where k: "2 * p \<le> k" "k \<le> length d" "contents f' = erase_range (2 * p) k (contents f)" by auto
  note fin = write_first_page_finish [OF s d p(1,2) _ _ f]
  have "r = Ok () \<Longrightarrow> latest_state crc (contents f') = Some s" using law fin(2) [OF p(2) order_refl] by auto
  with law len k old fin(1) [OF k(1,2)] show ?thesis by (auto simp: writes_entry_def)
qed

lemma write_first_page:
  assumes inv: "invar f" and s: "valid_state crc s" and pages: "2 \<le> page_count ops f"
    and i: "ERASE_SIZE ops div 2 \<le> i" "i < length (words (contents f))" "valid_word crc (words (contents f) ! i)"
    and run: "and_then (erase_pages ops 0 1 f) (\<lambda>_ f.
        and_then (flash_write ops (of_nat 0) (as_bytes s) f) (\<lambda>_ f.
        erase_pages ops 1 (page_count ops f) f)) = (r, f')"
  shows "writes_entry crc s f r f'"
proof -
  let ?d = "contents f" and ?p = "ERASE_SIZE ops div 2"
  have ev: "even (length ?d)" using even_capacity [OF inv] .
  note P = page_words [OF inv pages]
  have p: "0 < ?p" "2 * ?p \<le> length ?d" using P by linarith+
  show ?thesis
  proof (rule writes_entry_seq [OF run])
    show "keeps_latest crc f r1 f1" if "erase_pages ops 0 1 f = (r1, f1)" for r1 f1
      by (rule erase_first_keeps(1) [OF inv pages i that])
  next
    fix f1
    assume e1: "erase_pages ops 0 1 f = (Ok (), f1)"
      and run1: "and_then (flash_write ops (of_nat 0) (as_bytes s) f1) (\<lambda>_ f. erase_pages ops 1 (page_count ops f) f) = (r, f')"
    have f1: "invar f1" "latest_state crc (contents f1) = latest_state crc ?d"
      using erase_first_keeps(1) [OF inv pages i e1] by (simp_all add: keeps_latest_def)
    have d1: "contents f1 = erase_range 0 (2 * ?p) ?d" by (rule erase_first_keeps(2) [OF inv pages i e1 refl])
    have blank: "words (contents f1) ! 0 = (0xff, 0xff)" "Suc (2 * 0) < length (contents f1)"
      using p ev by (simp_all add: d1 words_erase_page nth_append)
    note law = write_entry_effect [OF f1(1) s blank(2,1), unfolded mult_0_right]
    have torn: "latest_state crc (contents f2) = latest_state crc ?d"
      if "flash_write ops (of_nat 0) (as_bytes s) f1 = (r2, f2)" for r2 f2
      by (rule write_first_page_torn [OF s ev p i]) (use law [OF that] in \<open>simp add: d1\<close>)
    show "writes_entry crc s f1 r f'"
    proof (rule writes_entry_seq [OF run1])
      fix r2 f2
      assume e2: "flash_write ops (of_nat 0) (as_bytes s) f1 = (r2, f2)"
      have "length (contents f2) = length (contents f1)" using law [OF e2] by (auto simp: torn_program2_def)
      with law [OF e2] torn [OF e2] f1(2) show "keeps_latest crc f1 r2 f2" by (simp add: keeps_latest_def)
    next
      fix f2
      assume e2: "flash_write ops (of_nat 0) (as_bytes s) f1 = (Ok (), f2)"
        and e3: "erase_pages ops 1 (page_count ops f2) f2 = (r, f')"
      from law [OF e2] d1 show "writes_entry crc s f2 r f'"
        by (intro erase_rest_finishes [OF _ s ev p P(1) _ torn [OF e2] e3]) auto
    qed
  qed
qed

text \<open>The four ways of writing an entry, under the conditions in which \<open>set\<close> takes them.\<close>

lemma address_to_page_i_eq:
  "invar f \<Longrightarrow> a < length (contents f) \<Longrightarrow> address_to_page_i ops (of_nat a) = a div ERASE_SIZE ops"
  using capacity_u32 [of f] by (simp add: address_to_page_i_def)

lemma write_inner_effect:
  assumes inv: "invar f" and s: "valid_state crc s" and pages: "2 \<le> page_count ops f"
    and c: "c = scan crc 0 (words (contents f)) default_cache"
    and run: "write_inner ops s c f = (r, f')"
  shows "writes_entry crc s f r f'"
proof -
  let ?ws = "words (contents f)"
  have last: "last_spec crc ?ws (last_valid_state c)" and free: "free_spec crc ?ws (first_empty_slot c)"
    using scan_spec [of crc ?ws] by (simp_all add: c)
  show ?thesis
  proof (cases "first_empty_slot c")
    case (Some e)
    with free obtain k where "k < length ?ws" "e = 2 * k" "?ws ! k = (0xff, 0xff)"
        "\<forall>j < length ?ws. k < j \<longrightarrow> \<not> valid_word crc (?ws ! j)"
      by (auto simp: free_spec_def)
    with run Some inv s show ?thesis by (intro append_entry [of f crc s k]) (auto simp: write_inner_def)
  next
    case None
    note no_free = None
    show ?thesis
    proof (cases "last_valid_state c")
      case None
      then have "latest_state crc (contents f) = None"
        using scan_get [of crc ?ws] c by (simp add: latest_state_def)
      with run None no_free show ?thesis
        by (intro write_fresh [OF inv s pages]) (auto simp: write_inner_def)
    next
      case (Some sa)
      with last obtain i where i: "i < length ?ws" "swa_address sa = 2 * i" "valid_word crc (?ws ! i)"
          "\<forall>j < length ?ws. i < j \<longrightarrow> \<not> valid_word crc (?ws ! j)"
        by (auto simp: last_spec_def valid_word_def)
      have page: "address_to_page_i ops (of_nat (swa_address sa)) = 2 * i div ERASE_SIZE ops"
        using address_to_page_i_eq [OF inv, of "2 * i"] i(1,2) by simp
      note P = page_words [OF inv pages]
      show ?thesis
      proof (cases "ERASE_SIZE ops \<le> 2 * i")
        case True
        then have "0 < 2 * i div ERASE_SIZE ops" "ERASE_SIZE ops div 2 \<le> i"
          using page_pos [OF inv] by (simp_all add: div_greater_zero_iff)
        with run Some no_free page i show ?thesis
          by (intro write_first_page [OF inv s pages]) (auto simp: write_inner_def)
      next
        case False
        then have "2 * i div ERASE_SIZE ops = 0" "i < ERASE_SIZE ops div 2" using P(1) by auto
        with run Some no_free page i(4) show ?thesis
          by (intro write_second_page [OF inv s pages]) (auto simp: write_inner_def)
      qed
    qed
  qed
qed

text \<open>
  The contract of \<open>set\<close>: whatever happens, the device stays lawful and its latest state is the old or
  the new one; success means the new one, and a device that does not fail always succeeds.
\<close>

lemma journal_set_effect:
  assumes j: "journal_inv crc ops contents invar j" and s: "valid_state crc s"
    and B: "even B" "2 \<le> B" and run: "journal_set crc ops B s j = (r, j')"
  shows "invar (inner j') \<and> length (contents (inner j')) = length (contents (inner j)) \<and>
    fails_only (storage_failure failure) r \<and>
    (latest_state crc (contents (inner j')) = latest_state crc (contents (inner j)) \<or>
     latest_state crc (contents (inner j')) = Some s) \<and>
    (r = Ok () \<longrightarrow> journal_inv crc ops contents invar j' \<and> journal_get j' = Some s) \<and>
    (reliable (inner j) \<longrightarrow> reliable (inner j') \<and> r = Ok ())"
proof (cases "journal_get j = Some s")
  case True
  with run j show ?thesis by (auto simp: journal_set_def journal_inv_def)
next
  case False
  have inv: "invar (inner j)" and pages: "2 \<le> page_count ops (inner j)"
    and c: "cache j = scan crc 0 (words (contents (inner j))) default_cache"
    using j by (simp_all add: journal_inv_def)
  obtain r1 f1 where w: "write_inner ops s (cache j) (inner j) = (r1, f1)" by fastforce
  note eff = write_inner_effect [OF inv s pages c w, unfolded writes_entry_def]
  show ?thesis
  proof (cases r1)
    case (Ok u)
    obtain r2 f2 where cc: "compute_cache crc ops B f1 = (r2, f2)" by fastforce
    have "invar f1" using eff by simp
    note eff2 = compute_cache_effect [OF this B cc]
    note rel = reliable_readable [of f1]
    have "page_count ops f2 = page_count ops (inner j)"
      using eff eff2 inv by (simp add: page_count_def capacity_law)
    moreover have "journal_get (j\<lparr>inner := f2, cache := scan crc 0 (words (contents f1)) default_cache\<rparr>) = Some s"
      using eff Ok by (simp add: journal_get_def scan_get latest_state_def)
    ultimately show ?thesis
      using run False w Ok cc eff eff2 rel pages
      by (cases r2)
        (auto simp: journal_set_def write_state_eq on_inner_def Let_def journal_inv_def split: if_splits)
  qed (use run False w eff in \<open>auto simp: journal_set_def write_state_eq on_inner_def\<close>)
qed

end

section \<open>The contract of the journal\<close>

text \<open>
  What the bootloader and the application rely on: a journal in order (\<open>jinv\<close>) whose storage does
  not fail (\<open>jreliable\<close>) stores every state it is given; a \<open>set\<close> that reports success has stored it
  in any case; and no operation conjures up a state that was never stored.
\<close>

locale journal_contract =
  fixes crc :: crc8
    and ops :: "('f, 'e) nor_flash"
    and N :: nat
    and jinv :: "'f flash_journal \<Rightarrow> bool"
    and jreliable :: "'f flash_journal \<Rightarrow> bool"
    and persisted :: "'f \<Rightarrow> state option"
  assumes get_persisted: "jinv j \<Longrightarrow> journal_get j = persisted (inner j)"
    and get_valid: "jinv j \<Longrightarrow> journal_get j = Some s \<Longrightarrow> valid_state crc s"
    and set_success:
      "jinv j \<Longrightarrow> valid_state crc s \<Longrightarrow> journal_set crc ops N s j = (Ok (), j') \<Longrightarrow>
       jinv j' \<and> journal_get j' = Some s \<and> (jreliable j \<longrightarrow> jreliable j')"
    and set_atomic:
      "jinv j \<Longrightarrow> valid_state crc s \<Longrightarrow> journal_set crc ops N s j = (r, j') \<Longrightarrow>
       persisted (inner j') = journal_get j \<or> persisted (inner j') = Some s"
    and set_reliable:
      "jinv j \<Longrightarrow> valid_state crc s \<Longrightarrow> jreliable j \<Longrightarrow> \<exists>j'. journal_set crc ops N s j = (Ok (), j')"

text \<open>Any storage that satisfies the laws provides it, for a scan buffer of even size.\<close>

lemma nor_flash_journal_contract:
  assumes "nor_flash_laws ops contents invar reliable readable failure" and N: "even N" "2 \<le> N"
  shows "journal_contract crc ops N (journal_inv crc ops contents invar) (\<lambda>j. reliable (inner j))
    (\<lambda>f. latest_state crc (contents f))"
proof -
  note set = nor_flash_laws.journal_set_effect [OF assms(1) _ _ N]
  show ?thesis
  proof
    fix j s
    assume j: "journal_inv crc ops contents invar j"
    then show get: "journal_get j = latest_state crc (contents (inner j))" by (rule journal_inv_get)
    show "valid_state crc s" if "journal_get j = Some s"
      using that get by (auto simp: latest_state_def intro: latest_Some_valid)
    fix r j'
    assume s: "valid_state crc s"
    show "journal_inv crc ops contents invar j' \<and> journal_get j' = Some s \<and>
        (reliable (inner j) \<longrightarrow> reliable (inner j'))" if "journal_set crc ops N s j = (Ok (), j')"
      using set [OF j s that] by simp
    show "latest_state crc (contents (inner j')) = journal_get j \<or>
        latest_state crc (contents (inner j')) = Some s" if "journal_set crc ops N s j = (r, j')"
      using set [OF j s that] get by simp
    show "\<exists>j'. journal_set crc ops N s j = (Ok (), j')" if "reliable (inner j)"
    proof -
      obtain r j' where run: "journal_set crc ops N s j = (r, j')" by fastforce
      with set [OF j s run] that show ?thesis by simp
    qed
  qed
qed

text \<open>A contract that holds under a side condition holds with the condition in the invariant.\<close>

lemma journal_contract_guard:
  assumes "G \<Longrightarrow> journal_contract crc ops N jinv jreliable persisted"
  shows "journal_contract crc ops N (\<lambda>j. G \<and> jinv j) jreliable persisted"
proof
  fix j s j' r
  assume j: "G \<and> jinv j"
  then have c: "journal_contract crc ops N jinv jreliable persisted" using assms by simp
  show "journal_get j = persisted (inner j)"
    using j journal_contract.get_persisted [OF c] by simp
  show "valid_state crc s" if "journal_get j = Some s"
    using j that journal_contract.get_valid [OF c] by blast
  assume s: "valid_state crc s"
  show "(G \<and> jinv j') \<and> journal_get j' = Some s \<and> (jreliable j \<longrightarrow> jreliable j')"
    if "journal_set crc ops N s j = (Ok (), j')"
    using j s that journal_contract.set_success [OF c] by blast
  show "persisted (inner j') = journal_get j \<or> persisted (inner j') = Some s"
    if "journal_set crc ops N s j = (r, j')"
    using j s that journal_contract.set_atomic [OF c] by blast
  show "\<exists>j'. journal_set crc ops N s j = (Ok (), j')" if "jreliable j"
    using j s that journal_contract.set_reliable [OF c] by blast
qed

end
