(* ===== verification/Slimloader.thy ===== *)
theory Slimloader
  imports Flash_Journal
begin

text \<open>
  \<open>libs/ec-slimloader/src/lib.rs\<close>: the boot decision. \<open>BootStatePolicy\<close> and \<open>Board\<close> are traits;
  \<open>board\<close> is the dictionary of their items, and the definitions take it as an argument, next to the
  checksum \<open>crc\<close> and the storage dictionary \<open>ops\<close> of the journal. \<open>start\<close> never returns in Rust;
  here its result says how it ends: control was handed to the image of a slot (\<open>Started\<close>), \<open>abort\<close>
  was called (\<open>Aborted\<close>), or it panicked.

  The locale \<open>board_contract\<close> is what \<open>start\<close> relies on: a journal that keeps its contract, which
  \<open>check_and_boot\<close> leaves alone. Its lemmas describe what the journal holds whenever an image is
  started, and after every interrupted boot. It is interpreted on the i.MX RT board in
  \<open>Imxrt_Board\<close>.
\<close>

section \<open>The board and the boot decision\<close>

datatype boot_error =
  SlotUnknown | TooLarge | TooSmall | Markers | MemoryRegion | ChangeAfterRead | Authenticate | IO | Hash

datatype boot_intent = Target | Backup

text \<open>\<open>check_and_boot\<close> returns an error, or does not return because the image runs.\<close>

datatype boot_outcome = Booted | Returned boot_error

datatype start_result = Started slot | Aborted

record ('c, 'b, 'f) board =
  default_state :: "(state, unit) res"
  is_valid_state :: "state \<Rightarrow> bool"
  board_init :: "nat \<Rightarrow> 'c \<Rightarrow> ('b, unit) res"
  board_journal :: "'b \<Rightarrow> 'f flash_journal"
  set_board_journal :: "'f flash_journal \<Rightarrow> 'b \<Rightarrow> 'b"
  check_and_boot :: "slot \<Rightarrow> 'b \<Rightarrow> (boot_outcome, unit) res \<times> 'b"

text \<open>The bodies \<open>BootStatePolicy\<close> provides for its two items.\<close>

definition policy_default_state :: "crc8 \<Rightarrow> (state, unit) res" where
  "policy_default_state crc =
     res_bind (unwrap (ok (slot_try_from 0))) (\<lambda>target.
     res_bind (unwrap (ok (slot_try_from 0))) (\<lambda>backup.
     Ok (state_new crc Initial target backup)))"

definition policy_is_valid_state :: "state \<Rightarrow> bool" where
  "policy_is_valid_state s = True"

definition set_status ::
    "crc8 \<Rightarrow> ('f, 'e) nor_flash \<Rightarrow> nat \<Rightarrow> ('c, 'b, 'f) board \<Rightarrow> status \<Rightarrow> state \<Rightarrow> 'b \<Rightarrow> (state, unit) res \<times> 'b" where
  "set_status crc ops N B st s b =
     (let s = with_status crc s st in
      case journal_set crc ops N s (board_journal B b) of
        (Ok _, j) \<Rightarrow> (Ok s, set_board_journal B j b)
      | (Err _, j) \<Rightarrow> (Panic, set_board_journal B j b)
      | (Panic, j) \<Rightarrow> (Panic, set_board_journal B j b))"

text \<open>The parts of \<open>start\<close>, in order.\<close>

definition fetch_state :: "('c, 'b, 'f) board \<Rightarrow> 'b \<Rightarrow> (state, unit) res" where
  "fetch_state B b =
     (case journal_get (board_journal B b) of
        Some s \<Rightarrow> if is_valid_state B s then Ok s else default_state B
      | None \<Rightarrow> default_state B)"

definition determine_intent ::
    "crc8 \<Rightarrow> ('f, 'e) nor_flash \<Rightarrow> nat \<Rightarrow> ('c, 'b, 'f) board \<Rightarrow> state \<Rightarrow> 'b \<Rightarrow> (boot_intent \<times> state, unit) res \<times> 'b" where
  "determine_intent crc ops N B s b =
     (case state_status s of
        Initial \<Rightarrow> and_then (set_status crc ops N B Attempting s b) (\<lambda>s b. (Ok (Target, s), b))
      | Attempting \<Rightarrow> and_then (set_status crc ops N B Failed s b) (\<lambda>s b. (Ok (Backup, s), b))
      | Failed \<Rightarrow> (Ok (Backup, s), b)
      | Confirmed \<Rightarrow> (Ok (Target, s), b))"

fun intent_slot :: "boot_intent \<Rightarrow> state \<Rightarrow> slot" where
  "intent_slot Target s = state_target s"
| "intent_slot Backup s = state_backup s"

definition mark_failed ::
    "crc8 \<Rightarrow> ('f, 'e) nor_flash \<Rightarrow> nat \<Rightarrow> ('c, 'b, 'f) board \<Rightarrow> state \<Rightarrow> 'b \<Rightarrow> (state, unit) res \<times> 'b" where
  "mark_failed crc ops N B s b =
     (if state_status s \<noteq> Failed then set_status crc ops N B Failed s b else (Ok s, b))"

definition boot_backup :: "('c, 'b, 'f) board \<Rightarrow> slot \<Rightarrow> state \<Rightarrow> 'b \<Rightarrow> (start_result, unit) res \<times> 'b" where
  "boot_backup B slot s b =
     (if slot \<noteq> state_backup s then
        and_then (check_and_boot B (state_backup s) b) (\<lambda>outcome b.
        case outcome of
          Booted \<Rightarrow> (Ok (Started (state_backup s)), b)
        | Returned error \<Rightarrow> (Ok Aborted, b))
      else (Ok Aborted, b))"

definition start_board ::
    "crc8 \<Rightarrow> ('f, 'e) nor_flash \<Rightarrow> nat \<Rightarrow> ('c, 'b, 'f) board \<Rightarrow> 'b \<Rightarrow> (start_result, unit) res \<times> 'b" where
  "start_board crc ops N B b =
     and_then (fetch_state B b, b) (\<lambda>s b.
     and_then (determine_intent crc ops N B s b) (\<lambda>(intent, s) b.
     let slot = intent_slot intent s in
     and_then (check_and_boot B slot b) (\<lambda>outcome b.
     case outcome of
       Booted \<Rightarrow> (Ok (Started slot), b)
     | Returned error \<Rightarrow> and_then (mark_failed crc ops N B s b) (boot_backup B slot))))"

text \<open>\<open>start\<close>: the board comes from \<open>init\<close>; when that panics there is none.\<close>

definition start ::
    "crc8 \<Rightarrow> ('f, 'e) nor_flash \<Rightarrow> nat \<Rightarrow> ('c, 'b, 'f) board \<Rightarrow> 'c \<Rightarrow> (start_result, unit) res \<times> 'b option" where
  "start crc ops N B config =
     (case board_init B N config of
        Ok b \<Rightarrow> (case start_board crc ops N B b of (r, b) \<Rightarrow> (r, Some b))
      | Err e \<Rightarrow> (Err e, None)
      | Panic \<Rightarrow> (Panic, None))"

section \<open>The abstract boot decision\<close>

text \<open>
  What a boot does to the recorded status, and which slot it tries first: the state machine of the
  bootloader without storage, checks and failures.
\<close>

fun plan :: "status \<Rightarrow> status \<times> boot_intent" where
  "plan Initial = (Attempting, Target)"
| "plan Attempting = (Failed, Backup)"
| "plan Failed = (Failed, Backup)"
| "plan Confirmed = (Confirmed, Target)"

text \<open>One boot, given the slots whose image passes the checks: its result and the new status.\<close>

definition abstract_boot :: "(slot \<Rightarrow> bool) \<Rightarrow> state \<Rightarrow> start_result \<times> status" where
  "abstract_boot bootable s =
     (let (st, intent) = plan (state_status s); slot = intent_slot intent s in
      if bootable slot then (Started slot, st)
      else if bootable (state_backup s) then (Started (state_backup s), Failed)
      else (Aborted, Failed))"

text \<open>
  A policy the bootloader can work with: there is a default state, and the states the bootloader
  derives from an acceptable state by changing its status are acceptable.
\<close>

definition policy_ok :: "crc8 \<Rightarrow> ('c, 'b, 'f) board \<Rightarrow> bool" where
  "policy_ok crc B \<longleftrightarrow>
     (\<exists>d. default_state B = Ok d \<and> valid_state crc d \<and> is_valid_state B d) \<and>
     (\<forall>s st. valid_state crc s \<longrightarrow> is_valid_state B s \<longrightarrow> is_valid_state B (with_status crc s st))"

lemma policy_default_state_eq [simp]: "policy_default_state crc = Ok (state_new crc Initial S0 S0)"
  by (simp add: policy_default_state_def slot_try_from_def)

lemma with_status_with_status [simp]:
  "with_status crc (with_status crc s st) st' = with_status crc s st'"
  by (simp add: with_status_def)

lemma with_status_same [simp]: "valid_state crc s \<Longrightarrow> state_status s = st \<Longrightarrow> with_status crc s st = s"
  using valid_state_eq_new [of crc s] by (simp add: with_status_def)

section \<open>The contract of a board\<close>

locale board_contract = journal_contract crc ops N jinv jreliable persisted
  for crc :: crc8
    and ops :: "('f, 'e) nor_flash"
    and N :: nat
    and jinv :: "'f flash_journal \<Rightarrow> bool"
    and jreliable :: "'f flash_journal \<Rightarrow> bool"
    and persisted :: "'f \<Rightarrow> state option" +
  fixes B :: "('c, 'b, 'f) board"
  assumes journal_of_set: "board_journal B (set_board_journal B j b) = j"
    and check_and_boot_journal:
      "check_and_boot B sl b = (r, b') \<Longrightarrow> board_journal B b' = board_journal B b"
begin

text \<open>The journal is in order and \<open>s\<close> is the state the next boot would start from.\<close>

definition recorded :: "state \<Rightarrow> 'b \<Rightarrow> bool" where
  "recorded s b \<longleftrightarrow> jinv (board_journal B b) \<and> fetch_state B b = Ok s"

lemma recorded_valid:
  assumes "policy_ok crc B" and "recorded s b"
  shows "valid_state crc s" and "is_valid_state B s"
  using assms get_valid
  by (auto simp: recorded_def fetch_state_def policy_ok_def split: option.splits if_splits)

lemma recorded_exists:
  assumes "policy_ok crc B" and "jinv (board_journal B b)"
  shows "\<exists>s. recorded s b"
  using assms
  by (cases "journal_get (board_journal B b)") (auto simp: recorded_def fetch_state_def policy_ok_def)

lemma recorded_check_and_boot:
  "check_and_boot B sl b = (r, b') \<Longrightarrow> recorded s b' \<longleftrightarrow> recorded s b"
  using check_and_boot_journal [of sl b r b'] by (simp add: recorded_def fetch_state_def)

lemma set_status_Ok:
  assumes pol: "policy_ok crc B" and rec: "recorded s b"
    and run: "set_status crc ops N B st s b = (Ok s', b')"
  shows "s' = with_status crc s st \<and> recorded s' b'"
proof -
  have j: "jinv (board_journal B b)" using rec by (simp add: recorded_def)
  note v = recorded_valid [OF pol rec]
  have "is_valid_state B (with_status crc s st)" using pol v by (simp add: policy_ok_def)
  then show ?thesis
    using run set_success [OF j valid_with_status [of crc s st]]
    by (auto simp: set_status_def recorded_def fetch_state_def journal_of_set Let_def
        split: prod.splits res.splits)
qed

lemma set_status_persisted:
  assumes j: "jinv (board_journal B b)" and run: "set_status crc ops N B st s b = (r, b')"
  shows "persisted (inner (board_journal B b')) = journal_get (board_journal B b) \<or>
    persisted (inner (board_journal B b')) = Some (with_status crc s st)"
  using run set_atomic [OF j valid_with_status [of crc s st]]
  by (auto simp: set_status_def journal_of_set Let_def split: prod.splits res.splits)

lemma set_status_reliable:
  assumes j: "jinv (board_journal B b)" "jreliable (board_journal B b)"
  shows "\<exists>b'. set_status crc ops N B st s b = (Ok (with_status crc s st), b') \<and>
    jreliable (board_journal B b')"
proof -
  obtain j' where "journal_set crc ops N (with_status crc s st) (board_journal B b) = (Ok (), j')"
    using set_reliable [OF j(1) valid_with_status j(2)] by blast
  with set_success [OF j(1) valid_with_status this] j(2) show ?thesis
    by (auto simp: set_status_def journal_of_set Let_def)
qed

lemma determine_intent_Ok:
  assumes "policy_ok crc B" and "recorded s b"
    and "determine_intent crc ops N B s b = (Ok (i, s'), b')"
  shows "s' = with_status crc s (fst (plan (state_status s))) \<and> i = snd (plan (state_status s)) \<and>
    recorded s' b'"
proof (cases "state_status s")
  case Failed
  with assms recorded_valid(1) [OF assms(1,2)] show ?thesis
    by (auto simp: determine_intent_def)
next
  case Confirmed
  with assms recorded_valid(1) [OF assms(1,2)] show ?thesis
    by (auto simp: determine_intent_def)
qed (use assms set_status_Ok [OF assms(1,2)] in \<open>auto simp: determine_intent_def outcome_iffs\<close>)

lemma mark_failed_Ok:
  assumes "policy_ok crc B" and "recorded s b" and "mark_failed crc ops N B s b = (Ok s', b')"
  shows "s' = with_status crc s Failed \<and> recorded s' b'"
  using assms set_status_Ok [OF assms(1,2)] recorded_valid(1) [OF assms(1,2)]
  by (auto simp: mark_failed_def split: if_splits)

lemma boot_backup_journal:
  "boot_backup B slot s b = (r, b') \<Longrightarrow> board_journal B b' = board_journal B b"
  using check_and_boot_journal [of "state_backup s" b]
  by (cases "check_and_boot B (state_backup s) b"; cases "fst (check_and_boot B (state_backup s) b)")
    (auto simp: boot_backup_def split: if_splits boot_outcome.split_asm)

lemma boot_backup_Ok:
  assumes "boot_backup B slot s b = (Ok res, b')"
  shows "(res = Started (state_backup s) \<or> res = Aborted) \<and> (\<forall>t. recorded t b' \<longleftrightarrow> recorded t b)"
proof
  show "\<forall>t. recorded t b' \<longleftrightarrow> recorded t b"
    using boot_backup_journal [OF assms] by (simp add: recorded_def fetch_state_def)
  show "res = Started (state_backup s) \<or> res = Aborted"
    using assms
    by (auto simp: boot_backup_def outcome_iffs split: if_splits boot_outcome.split_asm)
      (metis boot_outcome.exhaust)
qed

text \<open>
  Whenever the boot ends by starting an image or by giving up, the state it leaves behind is the
  planned one, or the backup was started or nothing was and the state is marked \<open>Failed\<close>.
\<close>

lemma start_board_Ok:
  assumes pol: "policy_ok crc B" and rec: "recorded s b"
    and run: "start_board crc ops N B b = (Ok res, b')"
  shows "(\<exists>st i. plan (state_status s) = (st, i) \<and> res = Started (intent_slot i s) \<and>
           recorded (with_status crc s st) b') \<or>
         (res = Started (state_backup s) \<or> res = Aborted) \<and> recorded (with_status crc s Failed) b'"
proof -
  have fetch: "fetch_state B b = Ok s" using rec by (simp add: recorded_def)
  with run obtain i s1 b1 o1 b2 where
    d: "determine_intent crc ops N B s b = (Ok (i, s1), b1)"
    and c: "check_and_boot B (intent_slot i s1) b1 = (Ok o1, b2)"
    and rest: "(case o1 of Booted \<Rightarrow> (Ok (Started (intent_slot i s1)), b2)
     | Returned error \<Rightarrow> and_then (mark_failed crc ops N B s1 b2) (boot_backup B (intent_slot i s1)))
       = (Ok res, b')"
    by (auto simp: start_board_def outcome_iffs Let_def)
  note D = determine_intent_Ok [OF pol rec d]
  have slot: "intent_slot i s1 = intent_slot i s" using D by (cases i) auto
  have rec2: "recorded s1 b2" using D recorded_check_and_boot [OF c] by blast
  show ?thesis
  proof (cases o1)
    case Booted
    with rest D rec2 slot show ?thesis by (cases "plan (state_status s)") auto
  next
    case (Returned e)
    with rest obtain s3 b3 where m: "mark_failed crc ops N B s1 b2 = (Ok s3, b3)"
      and rest2: "boot_backup B (intent_slot i s1) s3 b3 = (Ok res, b')"
      by (auto simp: outcome_iffs)
    from mark_failed_Ok [OF pol rec2 m] D have s3: "s3 = with_status crc s Failed" "recorded s3 b3"
      by auto
    with boot_backup_Ok [OF rest2] show ?thesis by auto
  qed
qed

text \<open>
  However the boot ends, also in a panic after a failed \<open>set\<close>, the storage holds the state from
  before, that state marked \<open>Attempting\<close> if it was \<open>Initial\<close>, or that state marked \<open>Failed\<close>.
\<close>

definition outcomes :: "state \<Rightarrow> 'b \<Rightarrow> state option set" where
  "outcomes s b = {journal_get (board_journal B b), Some (with_status crc s Failed)} \<union>
     (if state_status s = Initial then {Some (with_status crc s Attempting)} else {})"

lemma determine_intent_persisted:
  assumes "jinv (board_journal B b)" and "determine_intent crc ops N B s b = (r, b')"
  shows "persisted (inner (board_journal B b')) \<in> outcomes s b"
proof -
  have "set_status crc ops N B st s b = (r', b') \<Longrightarrow>
      persisted (inner (board_journal B b')) \<in> {journal_get (board_journal B b), Some (with_status crc s st)}"
    for st r' using set_status_persisted [OF assms(1)] by auto
  moreover have "persisted (inner (board_journal B b)) = journal_get (board_journal B b)"
    using get_persisted [OF assms(1)] by simp
  ultimately show ?thesis
    using assms(2)
    by (cases "state_status s"; cases "set_status crc ops N B Attempting s b";
        cases "set_status crc ops N B Failed s b";
        cases "fst (set_status crc ops N B Attempting s b)";
        cases "fst (set_status crc ops N B Failed s b)")
      (auto simp: determine_intent_def outcomes_def)
qed

lemma mark_failed_persisted:
  assumes "jinv (board_journal B b)" and "mark_failed crc ops N B s b = (r, b')"
  shows "persisted (inner (board_journal B b')) = journal_get (board_journal B b) \<or>
    persisted (inner (board_journal B b')) = Some (with_status crc s Failed)"
  using assms set_status_persisted [OF assms(1)] get_persisted [OF assms(1)]
  by (auto simp: mark_failed_def split: if_splits)

lemma start_board_persisted:
  assumes pol: "policy_ok crc B" and rec: "recorded s b" and run: "start_board crc ops N B b = (r, b')"
  shows "persisted (inner (board_journal B b')) \<in> outcomes s b"
proof -
  have j: "jinv (board_journal B b)" and fetch: "fetch_state B b = Ok s"
    using rec by (simp_all add: recorded_def)
  obtain r1 b1 where d: "determine_intent crc ops N B s b = (r1, b1)" by fastforce
  note P1 = determine_intent_persisted [OF j d]
  show ?thesis
  proof (cases r1)
    case (Ok x)
    obtain i s1 where x: "x = (i, s1)" by (cases x)
    note D = determine_intent_Ok [OF pol rec d [unfolded Ok x]]
    obtain r2 b2 where c: "check_and_boot B (intent_slot i s1) b1 = (r2, b2)" by fastforce
    have j2: "jinv (board_journal B b2)" and J2: "board_journal B b2 = board_journal B b1"
      using D check_and_boot_journal [OF c] by (simp_all add: recorded_def)
    obtain r3 b3 where m: "mark_failed crc ops N B s1 b2 = (r3, b3)" by fastforce
    have P3: "persisted (inner (board_journal B b3)) \<in> outcomes s b"
      using mark_failed_persisted [OF j2 m] P1 J2 j2 get_persisted [of "board_journal B b1"] D
      by (auto simp: outcomes_def)
    show ?thesis
    proof (cases "\<exists>e. r2 = Ok (Returned e)")
      case True
      with run fetch d Ok x c m P3 boot_backup_journal show ?thesis
        by (cases r3) (auto simp: start_board_def Let_def)
    next
      case False
      then have "r2 = Ok Booted \<or> r2 = Panic \<or> (\<exists>e. r2 = Err e)"
        by (cases r2) (auto intro: boot_outcome.exhaust)
      with run fetch d Ok x c P1 J2 show ?thesis by (auto simp: start_board_def Let_def)
    qed
  qed (use run fetch d P1 in \<open>auto simp: start_board_def\<close>)
qed

text \<open>
  On storage that does not fail, and with image checks whose verdict depends on the slot only, the
  boot is the abstract one. \<open>P\<close> is any property of the board, kept by the checks and by journal
  updates, on which the verdicts rest.
\<close>

lemma set_status_inv:
  assumes "set_status crc ops N B st s b = (r, b')" and "P b" and "\<And>j b. P b \<Longrightarrow> P (set_board_journal B j b)"
  shows "P b'"
  using assms by (auto simp: set_status_def Let_def split: prod.splits res.splits)

lemma determine_intent_inv:
  assumes "determine_intent crc ops N B s b = (Ok x, b')" and "P b" and "\<And>j b. P b \<Longrightarrow> P (set_board_journal B j b)"
  shows "P b'"
proof -
  have "P b1" if "set_status crc ops N B st s b = (r, b1)" for st r b1
    using that assms(2,3) by (rule set_status_inv)
  with assms(1,2) show ?thesis by (cases "state_status s") (auto simp: determine_intent_def outcome_iffs)
qed

lemma mark_failed_inv:
  assumes "mark_failed crc ops N B s b = (r, b')" and "P b" and "\<And>j b. P b \<Longrightarrow> P (set_board_journal B j b)"
  shows "P b'"
proof -
  have "P b1" if "set_status crc ops N B st s b = (r, b1)" for st r b1
    using that assms(2,3) by (rule set_status_inv)
  with assms(1,2) show ?thesis by (auto simp: mark_failed_def split: if_splits)
qed

lemma determine_intent_reliable:
  assumes "recorded s b" and "jreliable (board_journal B b)" and "valid_state crc s"
  shows "\<exists>b'. determine_intent crc ops N B s b =
      (Ok (snd (plan (state_status s)), with_status crc s (fst (plan (state_status s)))), b') \<and>
    jreliable (board_journal B b')"
  using assms set_status_reliable [of b Attempting s] set_status_reliable [of b Failed s]
  by (cases "state_status s") (auto simp: determine_intent_def recorded_def)

lemma mark_failed_reliable:
  assumes "recorded s b" and "jreliable (board_journal B b)" and "valid_state crc s"
  shows "\<exists>b'. mark_failed crc ops N B s b = (Ok (with_status crc s Failed), b') \<and>
    jreliable (board_journal B b')"
  using assms set_status_reliable [of b Failed s] by (auto simp: mark_failed_def recorded_def)

lemma start_board_refines:
  assumes pol: "policy_ok crc B" and rec: "recorded s b" and rel: "jreliable (board_journal B b)"
    and inv: "P b" and inv_set: "\<And>j b. P b \<Longrightarrow> P (set_board_journal B j b)"
    and boots: "\<And>sl b. P b \<Longrightarrow>
      \<exists>b' e. check_and_boot B sl b = (Ok (if bootable sl then Booted else Returned e), b') \<and> P b'"
    and abs: "abstract_boot bootable s = (res, st)"
  shows "\<exists>b'. start_board crc ops N B b = (Ok res, b') \<and> recorded (with_status crc s st) b' \<and>
    jreliable (board_journal B b')"
proof -
  note v = recorded_valid [OF pol rec]
  obtain st1 i where pl: "plan (state_status s) = (st1, i)" by fastforce
  obtain b1 where d: "determine_intent crc ops N B s b = (Ok (i, with_status crc s st1), b1)"
    and rel1: "jreliable (board_journal B b1)"
    using determine_intent_reliable [OF rec rel v(1)] pl by auto
  have inv1: "P b1"
    using d inv inv_set by (rule determine_intent_inv)
  have rec1: "recorded (with_status crc s st1) b1"
    using determine_intent_Ok [OF pol rec d] by blast
  have slot: "intent_slot i (with_status crc s st1) = intent_slot i s" by (cases i) auto
  obtain b2 e where c: "check_and_boot B (intent_slot i s) b1 =
      (Ok (if bootable (intent_slot i s) then Booted else Returned e), b2)" and inv2: "P b2"
    using boots [OF inv1] by blast
  have rel2: "jreliable (board_journal B b2)" using rel1 check_and_boot_journal [OF c] by simp
  note rec2 = recorded_check_and_boot [OF c, THEN iffD2, OF rec1]
  have fetch: "fetch_state B b = Ok s" using rec by (simp add: recorded_def)
  obtain b3 where m: "mark_failed crc ops N B (with_status crc s st1) b2 = (Ok (with_status crc s Failed), b3)"
    and rel3: "jreliable (board_journal B b3)"
    using mark_failed_reliable [OF rec2 rel2] by auto
  have inv3: "P b3"
    using m inv2 inv_set by (rule mark_failed_inv)
  have rec3: "recorded (with_status crc s Failed) b3" using mark_failed_Ok [OF pol rec2 m] by simp
  obtain b4 e' where c4: "check_and_boot B (state_backup s) b3 =
      (Ok (if bootable (state_backup s) then Booted else Returned e'), b4)"
    using boots [OF inv3] by blast
  note rec4 = recorded_check_and_boot [OF c4, THEN iffD2, OF rec3]
  have rel4: "jreliable (board_journal B b4)" using rel3 check_and_boot_journal [OF c4] by simp
  show ?thesis
    using abs fetch d slot c m c4 pl rec2 rel2 rec3 rel3 rec4 rel4
    by (auto simp: start_board_def boot_backup_def abstract_boot_def Let_def split: if_splits)
qed

end

end
