(* ===== verification/Mock_Flash.thy ===== *)
theory Mock_Flash
  imports Flash_Journal
begin

unbundle bit_operations_syntax

text \<open>
  \<open>libs/ec-slimloader-state/src/flash/mock.rs\<close>: the in-memory NOR flash behind the journal's unit
  tests and fuzz targets. The const generics are the fields of \<open>mock_geometry\<close>. The flash keeps one
  \<open>Writable\<close> flag per word and a countdown after which an operation is cut short in the middle,
  the repository's model of a power failure.
\<close>

datatype writable = Writable_O | Writable_N

datatype operation = Op_Write | Op_Erase

datatype mock_flash_error =
    OutOfBounds
  | NotAligned
  | NotWritable u32
  | EarlyShutoff u32 operation

record mock_geometry =
  PAGES :: nat
  BYTES_PER_WORD :: nat
  PAGE_WORDS :: nat

record mock_flash =
  mf_writable :: "writable list"
  mf_data :: "u8 list"
  bytes_until_shutoff :: "u32 option"
  alignment_check :: bool

definition CAPACITY_WORDS :: "mock_geometry \<Rightarrow> nat" where
  "CAPACITY_WORDS g = PAGES g * PAGE_WORDS g"

definition CAPACITY_BYTES :: "mock_geometry \<Rightarrow> nat" where
  "CAPACITY_BYTES g = CAPACITY_WORDS g * BYTES_PER_WORD g"

definition PAGE_BYTES :: "mock_geometry \<Rightarrow> nat" where
  "PAGE_BYTES g = PAGE_WORDS g * BYTES_PER_WORD g"

definition mock_new :: "mock_geometry \<Rightarrow> u32 option \<Rightarrow> bool \<Rightarrow> mock_flash" where
  "mock_new g shutoff align =
     \<lparr>mf_writable = replicate (CAPACITY_WORDS g) Writable_O,
      mf_data = replicate (CAPACITY_BYTES g) 0xff,
      bytes_until_shutoff = shutoff,
      alignment_check = align\<rparr>"

definition mock_default :: "mock_geometry \<Rightarrow> mock_flash" where
  "mock_default g = mock_new g None True"

definition mock_as_bytes :: "mock_flash \<Rightarrow> u8 list" where
  "mock_as_bytes f = mf_data f"

text \<open>\<open>as_bytes_mut\<close> hands out the data; the model takes what the caller does with it.\<close>

definition mock_as_bytes_mut :: "(u8 list \<Rightarrow> u8 list) \<Rightarrow> mock_flash \<Rightarrow> mock_flash" where
  "mock_as_bytes_mut edit f = f\<lparr>mf_data := edit (mf_data f)\<rparr>"

text \<open>The result is the range \<open>offset..offset + length\<close>, given by its two ends.\<close>

definition validate_operation :: "mock_geometry \<Rightarrow> u32 \<Rightarrow> nat \<Rightarrow> (nat \<times> nat, mock_flash_error) res" where
  "validate_operation g offset len =
     (let offset = unat offset in
      if offset mod BYTES_PER_WORD g \<noteq> 0 then Err NotAligned
      else if offset > CAPACITY_BYTES g \<or> offset + len > CAPACITY_BYTES g then Err OutOfBounds
      else Ok (offset, offset + len))"

definition check_shutoff :: "u32 \<Rightarrow> operation \<Rightarrow> mock_flash \<Rightarrow> (unit, mock_flash_error) res \<times> mock_flash" where
  "check_shutoff address op f =
     (case bytes_until_shutoff f of
        Some n \<Rightarrow>
          (if n \<noteq> 0 then (Ok (), f\<lparr>bytes_until_shutoff := Some (n - 1)\<rparr>)
           else (Err (EarlyShutoff address op), f\<lparr>bytes_until_shutoff := None\<rparr>))
      | None \<Rightarrow> (Ok (), f))"

definition remove_shutoff :: "mock_flash \<Rightarrow> mock_flash" where
  "remove_shutoff f = f\<lparr>bytes_until_shutoff := None\<rparr>"

definition mock_read ::
    "mock_geometry \<Rightarrow> u32 \<Rightarrow> nat \<Rightarrow> mock_flash \<Rightarrow> (u8 list, mock_flash_error) res \<times> mock_flash" where
  "mock_read g offset len f =
     (if len mod BYTES_PER_WORD g \<noteq> 0 then (Panic, f)
      else and_then (validate_operation g offset len, f)
        (\<lambda>(a, b) f. case slice a b (mf_data f) of Some bs \<Rightarrow> (Ok bs, f) | None \<Rightarrow> (Panic, f)))"

text \<open>One iteration of the loop of \<open>erase\<close>, then the loop over the indices of the range.\<close>

definition erase_byte :: "mock_geometry \<Rightarrow> nat \<Rightarrow> mock_flash \<Rightarrow> mock_flash" where
  "erase_byte g index f =
     (let f = f\<lparr>mf_data := (mf_data f)[index := 0xff]\<rparr> in
      if index mod BYTES_PER_WORD g = 0
      then f\<lparr>mf_writable := (mf_writable f)[index div BYTES_PER_WORD g := Writable_O]\<rparr>
      else f)"

fun mock_erase_loop ::
    "mock_geometry \<Rightarrow> nat list \<Rightarrow> mock_flash \<Rightarrow> (unit, mock_flash_error) res \<times> mock_flash" where
  "mock_erase_loop g [] f = (Ok (), f)"
| "mock_erase_loop g (index # rest) f =
     and_then (check_shutoff (of_nat index) Op_Erase f)
       (\<lambda>_ f. mock_erase_loop g rest (erase_byte g index f))"

definition mock_erase ::
    "mock_geometry \<Rightarrow> u32 \<Rightarrow> u32 \<Rightarrow> mock_flash \<Rightarrow> (unit, mock_flash_error) res \<times> mock_flash" where
  "mock_erase g from to f =
     (let from = unat from; to = unat to in
      if \<not> from \<le> to then (Panic, f)
      else if to > CAPACITY_BYTES g then (Err OutOfBounds, f)
      else if from mod PAGE_BYTES g \<noteq> 0 \<or> to mod PAGE_BYTES g \<noteq> 0 then (Err NotAligned, f)
      else mock_erase_loop g [from..<to] f)"

text \<open>
  The write loops: the inner one over the bytes of a word with their index, the outer one over the
  words of the buffer zipped with the addresses of the range.
\<close>

definition program_byte :: "nat \<Rightarrow> u8 \<Rightarrow> mock_flash \<Rightarrow> mock_flash" where
  "program_byte i byte f = f\<lparr>mf_data := (mf_data f)[i := mf_data f ! i AND byte]\<rparr>"

fun mock_write_word ::
    "mock_geometry \<Rightarrow> nat \<Rightarrow> nat \<Rightarrow> u8 list \<Rightarrow> mock_flash \<Rightarrow> (unit, mock_flash_error) res \<times> mock_flash" where
  "mock_write_word g address byte_index [] f = (Ok (), f)"
| "mock_write_word g address byte_index (byte # rest) f =
     and_then (check_shutoff (of_nat (address + byte_index)) Op_Write f) (\<lambda>_ f.
       if byte_index = 0 then
         (case mf_writable f ! (address div BYTES_PER_WORD g) of
            Writable_O \<Rightarrow>
              mock_write_word g address (Suc byte_index) rest
                (program_byte (address + byte_index) byte
                  (f\<lparr>mf_writable := (mf_writable f)[address div BYTES_PER_WORD g := Writable_N]\<rparr>))
          | Writable_N \<Rightarrow> (Err (NotWritable (of_nat address)), f))
       else mock_write_word g address (Suc byte_index) rest (program_byte (address + byte_index) byte f))"

fun mock_write_loop ::
    "mock_geometry \<Rightarrow> (u8 list \<times> nat) list \<Rightarrow> mock_flash \<Rightarrow> (unit, mock_flash_error) res \<times> mock_flash" where
  "mock_write_loop g [] f = (Ok (), f)"
| "mock_write_loop g ((source_word, address) # rest) f =
     and_then (mock_write_word g address 0 source_word f) (\<lambda>_ f. mock_write_loop g rest f)"

text \<open>
  \<open>ptr\<close> is the address of the caller's buffer, which the alignment check inspects; the range
  \<open>a..b\<close> stepped by the word size lists the word addresses.
\<close>

definition step_by :: "nat \<Rightarrow> nat \<Rightarrow> nat \<Rightarrow> nat list" where
  "step_by a b n = map (\<lambda>i. a + i * n) [0..<div_ceil (b - a) n]"

definition mock_write ::
    "mock_geometry \<Rightarrow> nat \<Rightarrow> u32 \<Rightarrow> u8 list \<Rightarrow> mock_flash \<Rightarrow> (unit, mock_flash_error) res \<times> mock_flash" where
  "mock_write g ptr offset bytes f =
     and_then (validate_operation g offset (length bytes), f) (\<lambda>(a, b) f.
       if alignment_check f \<and> ptr mod 4 \<noteq> 0 then (Panic, f)
       else if length bytes mod BYTES_PER_WORD g \<noteq> 0 then (Panic, f)
       else mock_write_loop g (zip (chunks_exact (BYTES_PER_WORD g) bytes) (step_by a b (BYTES_PER_WORD g))) f)"

definition mock_ops :: "mock_geometry \<Rightarrow> nat \<Rightarrow> (mock_flash, mock_flash_error) nor_flash" where
  "mock_ops g ptr =
     \<lparr>ERASE_SIZE = PAGE_BYTES g,
      capacity = (\<lambda>_. CAPACITY_BYTES g),
      flash_read = mock_read g,
      flash_erase = mock_erase g,
      flash_write = mock_write g ptr\<rparr>"

datatype nor_flash_error_kind = Kind_NotAligned | Kind_OutOfBounds | Kind_Other

fun mock_error_kind :: "mock_flash_error \<Rightarrow> nor_flash_error_kind" where
  "mock_error_kind OutOfBounds = Kind_OutOfBounds"
| "mock_error_kind NotAligned = Kind_NotAligned"
| "mock_error_kind (NotWritable _) = Kind_Other"
| "mock_error_kind (EarlyShutoff _ _) = Kind_Other"

section \<open>The mock flash satisfies the laws\<close>

text \<open>
  The representation invariant for two-byte words, the geometry of every instance in the
  repository: the vectors have the sizes of the geometry, and a word whose first byte is still
  \<open>0xff\<close> has not been written since its last erase.
\<close>

definition mock_inv :: "mock_geometry \<Rightarrow> mock_flash \<Rightarrow> bool" where
  "mock_inv g f \<longleftrightarrow>
     BYTES_PER_WORD g = 2 \<and> 0 < PAGE_WORDS g \<and> CAPACITY_BYTES g < 2 ^ 32 \<and>
     length (mf_data f) = CAPACITY_BYTES g \<and> length (mf_writable f) = CAPACITY_WORDS g \<and>
     \<not> alignment_check f \<and>
     (\<forall>w < CAPACITY_WORDS g. mf_data f ! (2 * w) = 0xff \<longrightarrow> mf_writable f ! w = Writable_O)"

definition mock_reliable :: "mock_flash \<Rightarrow> bool" where
  "mock_reliable f \<longleftrightarrow> bytes_until_shutoff f = None"

fun is_early_shutoff :: "mock_flash_error \<Rightarrow> bool" where
  "is_early_shutoff (EarlyShutoff _ _) \<longleftrightarrow> True"
| "is_early_shutoff _ \<longleftrightarrow> False"

lemma mock_inv_new:
  assumes "BYTES_PER_WORD g = 2" and "0 < PAGE_WORDS g" and "CAPACITY_BYTES g < 2 ^ 32"
  shows "mock_inv g (mock_new g shutoff False)"
  using assms by (simp add: mock_inv_def mock_new_def)

lemma mock_inv_shutoff [simp]: "mock_inv g (f\<lparr>bytes_until_shutoff := n\<rparr>) = mock_inv g f"
  by (simp add: mock_inv_def)

lemma remove_shutoff_simps [simp]:
  "mf_data (remove_shutoff f) = mf_data f" "mock_inv g (remove_shutoff f) = mock_inv g f"
  "mock_reliable (remove_shutoff f)"
  by (simp_all add: remove_shutoff_def mock_reliable_def)

lemma check_shutoff_effect:
  assumes "check_shutoff a op f = (r, f')"
  shows "(\<exists>n. f' = f\<lparr>bytes_until_shutoff := n\<rparr>)"
    and "r = Ok () \<or> (\<exists>e. r = Err e \<and> is_early_shutoff e)"
    and "mock_reliable f \<Longrightarrow> r = Ok () \<and> f' = f"
  using assms
  by (cases f; force simp: check_shutoff_def mock_reliable_def split: option.splits if_splits)+

lemma erase_byte_data [simp]:
  "mf_data (erase_byte g i f) = (mf_data f)[i := 0xff]"
  "bytes_until_shutoff (erase_byte g i f) = bytes_until_shutoff f"
  "mock_reliable (erase_byte g i f) = mock_reliable f"
  by (simp_all add: erase_byte_def mock_reliable_def Let_def)

lemma erase_byte_inv:
  assumes inv: "mock_inv g f" and i: "i < CAPACITY_BYTES g"
  shows "mock_inv g (erase_byte g i f)"
proof -
  have cap: "CAPACITY_BYTES g = 2 * CAPACITY_WORDS g"
    using inv by (simp add: mock_inv_def CAPACITY_BYTES_def mult.commute)
  show ?thesis
  proof (cases "even i")
    case True
    then obtain v where v: "i = 2 * v" by (auto elim: evenE)
    with inv cap i show ?thesis
      by (auto simp: mock_inv_def erase_byte_def Let_def nth_list_update)
  next
    case False
    then have "i \<noteq> 2 * w" for w by auto
    with False inv show ?thesis
      by (auto simp: mock_inv_def erase_byte_def Let_def odd_iff_mod_2_eq_one)
  qed
qed

lemma erase_range_Cons:
  assumes "a < k" and "k \<le> length d"
  shows "erase_range (Suc a) k (d[a := 0xff]) = erase_range a k d"
  using assms by (intro nth_equalityI) (auto simp: nth_erase_range nth_list_update)

lemma mock_erase_loop_effect:
  assumes "mock_inv g f" and "a \<le> b" and "b \<le> CAPACITY_BYTES g"
    and "mock_erase_loop g [a..<b] f = (r, f')"
  shows "mock_inv g f' \<and> fails_only is_early_shutoff r \<and>
    (\<exists>k. a \<le> k \<and> k \<le> b \<and> mf_data f' = erase_range a k (mf_data f)) \<and>
    (r = Ok () \<longrightarrow> mf_data f' = erase_range a b (mf_data f)) \<and>
    (mock_reliable f \<longrightarrow> mock_reliable f' \<and> r = Ok ())"
  using assms
proof (induction "b - a" arbitrary: a f)
  case 0
  then show ?case by auto
next
  case (Suc n)
  then have ab: "a < b" by simp
  obtain rc fc where c: "check_shutoff (of_nat a) Op_Erase f = (rc, fc)" by fastforce
  obtain m where fc: "fc = f\<lparr>bytes_until_shutoff := m\<rparr>"
    using check_shutoff_effect(1) [OF c] by blast
  show ?case
  proof (cases "rc = Ok ()")
    case False
    with check_shutoff_effect(2) [OF c] obtain e where "rc = Err e" "is_early_shutoff e" by blast
    with Suc.prems ab c have res: "r = Err e" "f' = fc" by (auto simp: upt_conv_Cons)
    with fc Suc.prems False check_shutoff_effect(3) [OF c] \<open>rc = Err e\<close> \<open>is_early_shutoff e\<close> show ?thesis
      by (auto intro: exI [of _ a])
  next
    case True
    let ?g = "erase_byte g a fc"
    have inv: "mock_inv g ?g" using Suc.prems ab fc by (simp add: erase_byte_inv)
    have len: "length (mf_data f) = CAPACITY_BYTES g" using Suc.prems by (simp add: mock_inv_def)
    have rel: "mock_reliable f \<Longrightarrow> mock_reliable fc" using check_shutoff_effect(3) [OF c] by simp
    have run: "mock_erase_loop g [Suc a..<b] ?g = (r, f')"
      using Suc.prems(4) ab c True by (simp add: upt_conv_Cons)
    have "n = b - Suc a" using Suc.hyps(2) by simp
    note IH = Suc.hyps(1) [OF this inv _ Suc.prems(3) run]
    have shift: "erase_range (Suc a) k ((mf_data fc)[a := 0xff]) = erase_range a k (mf_data f)"
      if "a < k" "k \<le> b" for k
      using that Suc.prems(3) len by (simp add: fc erase_range_Cons)
    note step = IH [OF Suc_leI [OF ab], unfolded erase_byte_data]
    then obtain k where "Suc a \<le> k" "k \<le> b" "mf_data f' = erase_range a k (mf_data f)"
      using shift by (auto simp: Suc_le_eq)
    moreover have "erase_range (Suc a) b ((mf_data fc)[a := 0xff]) = erase_range a b (mf_data f)"
      using shift [of b] ab by simp
    ultimately show ?thesis using step rel by (auto intro: exI [of _ k])
  qed
qed

lemma mock_erase_effect:
  assumes inv: "mock_inv g f" and "PAGE_BYTES g dvd a" and "PAGE_BYTES g dvd b"
    and ab: "a \<le> b" and b: "b \<le> CAPACITY_BYTES g"
    and "mock_erase g (of_nat a) (of_nat b) f = (r, f')"
  shows "mock_inv g f' \<and> fails_only is_early_shutoff r \<and>
    (\<exists>k. a \<le> k \<and> k \<le> b \<and> mf_data f' = erase_range a k (mf_data f)) \<and>
    (r = Ok () \<longrightarrow> mf_data f' = erase_range a b (mf_data f)) \<and>
    (mock_reliable f \<longrightarrow> mock_reliable f' \<and> r = Ok ())"
proof -
  have "CAPACITY_BYTES g < 2 ^ 32" using inv by (simp add: mock_inv_def)
  with ab b have "unat (of_nat a :: u32) = a" and "unat (of_nat b :: u32) = b" by simp_all
  with assms have "mock_erase_loop g [a..<b] f = (r, f')"
    by (simp add: mock_erase_def Let_def dvd_eq_mod_eq_0)
  then show ?thesis by (rule mock_erase_loop_effect [OF inv ab b])
qed

lemma mock_read_effect:
  assumes inv: "mock_inv g f" and "even off" and "even n" and le: "off + n \<le> CAPACITY_BYTES g"
  shows "mock_read g (of_nat off) n f = (Ok (take n (drop off (mf_data f))), f)"
proof -
  have "CAPACITY_BYTES g < 2 ^ 32" using inv by (simp add: mock_inv_def)
  with le have "unat (of_nat off :: u32) = off" by simp
  with assms show ?thesis
    by (simp add: mock_read_def validate_operation_def slice_def mock_inv_def)
qed

lemma mock_write_pair:
  assumes inv: "mock_inv g f" and "even a" and le: "Suc a < CAPACITY_BYTES g"
  shows "mock_write g ptr (of_nat a) [x, y] f = mock_write_word g a 0 [x, y] f"
proof -
  have "CAPACITY_BYTES g < 2 ^ 32" using inv by (simp add: mock_inv_def)
  with le have "unat (of_nat a :: u32) = a" by simp
  moreover have "chunks_exact 2 [x, y] = [[x, y]]"
    by (simp add: chunks_exact.simps [of 2 "[x, y]"] chunks_exact.simps [of 2 "[]"])
  ultimately show ?thesis
    using assms
    by (cases "mock_write_word g a 0 [x, y] f" rule: and_then.cases [of "(_, _)"])
      (auto simp: mock_write_def validate_operation_def mock_inv_def step_by_def div_ceil_def)
qed

lemma mock_inv_programmed:
  assumes "mock_inv g f" and "v < CAPACITY_WORDS g" and "x \<noteq> 0xff"
    and "mf_writable f' = (mf_writable f)[v := Writable_N]" "alignment_check f' = alignment_check f"
    and "mf_data f' = (mf_data f)[2 * v := x] \<or> mf_data f' = (mf_data f)[2 * v := x, Suc (2 * v) := y]"
  shows "mock_inv g f'"
proof -
  have "v < length (mf_writable f)" "2 * v < length (mf_data f)"
    using assms by (simp_all add: mock_inv_def CAPACITY_BYTES_def)
  moreover have "Suc (2 * v) \<noteq> 2 * w" for w by presburger
  ultimately show ?thesis using assms by (auto simp: mock_inv_def nth_list_update)
qed

lemma mock_write_effect:
  assumes inv: "mock_inv g f" and a: "even a" and le: "Suc a < CAPACITY_BYTES g"
    and blank: "mf_data f ! a = 0xff" "mf_data f ! Suc a = 0xff" and x: "x \<noteq> 0xff"
    and run: "mock_write g ptr (of_nat a) [x, y] f = (r, f')"
  shows "mock_inv g f' \<and> fails_only is_early_shutoff r \<and> mf_data f' \<in> torn_program2 a x y (mf_data f) \<and>
    (r = Ok () \<longrightarrow> mf_data f' = program2 a x y (mf_data f)) \<and>
    (mock_reliable f \<longrightarrow> mock_reliable f' \<and> r = Ok ())"
proof -
  obtain v where v: "a = 2 * v" using a by (auto elim: evenE)
  have vw: "v < CAPACITY_WORDS g" using inv le v by (simp add: mock_inv_def CAPACITY_BYTES_def)
  with inv blank v have O: "mf_writable f ! v = Writable_O" by (simp add: mock_inv_def)
  have half: "2 * v div BYTES_PER_WORD g = v" using inv by (simp add: mock_inv_def)
  have word: "mock_write_word g a 0 [x, y] f = (r, f')"
    using run mock_write_pair [OF inv a le] by simp
  have len: "Suc (2 * v) < length (mf_data f)" using inv le v by (simp add: mock_inv_def)
  note programmed = mock_inv_programmed [OF inv vw x, where y = y]
  show ?thesis
  proof (cases "bytes_until_shutoff f = Some 0")
    case True
    with word inv show ?thesis by (auto simp: check_shutoff_def torn_program2_def mock_reliable_def)
  next
    case False
    with word O half len blank v inv show ?thesis
      by (auto intro!: programmed split: option.splits if_splits
          simp: check_shutoff_def program_byte_def torn_program2_def program2_def mock_reliable_def)
  qed
qed

interpretation mock: nor_flash_laws "mock_ops g ptr" mf_data "mock_inv g" mock_reliable "\<lambda>_. True" is_early_shutoff
  for g ptr
proof unfold_locales
  fix f
  assume inv: "mock_inv g f"
  show "capacity (mock_ops g ptr) f = length (mf_data f)" "length (mf_data f) < 2 ^ 32"
    "even (ERASE_SIZE (mock_ops g ptr))" "0 < ERASE_SIZE (mock_ops g ptr)"
    "ERASE_SIZE (mock_ops g ptr) dvd length (mf_data f)"
    using inv by (auto simp: mock_ops_def mock_inv_def PAGE_BYTES_def CAPACITY_BYTES_def CAPACITY_WORDS_def)
next
  fix f
  assume "mock_reliable f"
  then show True by simp
next
  fix f off n rb f'
  assume "mock_inv g f" "even off" "even n" "off + n \<le> length (mf_data f)"
    "flash_read (mock_ops g ptr) (of_nat off) n f = (rb, f')"
  then show "mock_inv g f' \<and> mf_data f' = mf_data f \<and> fails_only is_early_shutoff rb \<and>
       (\<forall>bs. rb = Ok bs \<longrightarrow> bs = take n (drop off (mf_data f))) \<and>
       (mock_reliable f \<longrightarrow> mock_reliable f') \<and>
       (True \<longrightarrow> True \<and> (\<exists>bs. rb = Ok bs))"
    using mock_read_effect [of g f off n] by (auto simp: mock_ops_def mock_inv_def)
next
  fix f a x y r f'
  assume "mock_inv g f" "even a" "Suc a < length (mf_data f)" "mf_data f ! a = 0xff"
    "mf_data f ! Suc a = 0xff" "x \<noteq> 0xff" "flash_write (mock_ops g ptr) (of_nat a) [x, y] f = (r, f')"
  then show "mock_inv g f' \<and> fails_only is_early_shutoff r \<and> mf_data f' \<in> torn_program2 a x y (mf_data f) \<and>
       (r = Ok () \<longrightarrow> mf_data f' = program2 a x y (mf_data f)) \<and>
       (mock_reliable f \<longrightarrow> mock_reliable f' \<and> r = Ok ())"
    by (intro mock_write_effect) (simp_all add: mock_ops_def mock_inv_def)
next
  fix f a b r f'
  assume "mock_inv g f" "ERASE_SIZE (mock_ops g ptr) dvd a" "ERASE_SIZE (mock_ops g ptr) dvd b"
    "a \<le> b" "b \<le> length (mf_data f)" "flash_erase (mock_ops g ptr) (of_nat a) (of_nat b) f = (r, f')"
  then show "mock_inv g f' \<and> fails_only is_early_shutoff r \<and>
       (\<exists>k. a \<le> k \<and> k \<le> b \<and> mf_data f' = erase_range a k (mf_data f)) \<and>
       (r = Ok () \<longrightarrow> mf_data f' = erase_range a b (mf_data f)) \<and>
       (mock_reliable f \<longrightarrow> mock_reliable f' \<and> r = Ok ())"
    by (intro mock_erase_effect) (simp_all add: mock_ops_def mock_inv_def)
qed

text \<open>The journal over the mock flash keeps the contract of the journal.\<close>

abbreviation mock_journal_inv :: "crc8 \<Rightarrow> mock_geometry \<Rightarrow> nat \<Rightarrow> mock_flash flash_journal \<Rightarrow> bool" where
  "mock_journal_inv crc g ptr \<equiv> journal_inv crc (mock_ops g ptr) mf_data (mock_inv g)"

definition mock_journal_ok :: "crc8 \<Rightarrow> mock_geometry \<Rightarrow> nat \<Rightarrow> nat \<Rightarrow> mock_flash flash_journal \<Rightarrow> bool" where
  "mock_journal_ok crc g ptr N j \<longleftrightarrow> (even N \<and> 2 \<le> N) \<and> mock_journal_inv crc g ptr j"

interpretation mock_journal: journal_contract crc "mock_ops g ptr" N "mock_journal_ok crc g ptr N"
  "\<lambda>j. mock_reliable (inner j)" "\<lambda>f. latest_state crc (mf_data f)" for crc g ptr N
  unfolding mock_journal_ok_def
  by (intro journal_contract_guard nor_flash_journal_contract [OF mock.nor_flash_laws_axioms]) simp_all

text \<open>Opening the journal on a lawful mock flash of at least two pages.\<close>

lemma mock_page_count: "mock_inv g f \<Longrightarrow> page_count (mock_ops g ptr) f = PAGES g"
  by (simp add: page_count_def mock_ops_def mock_inv_def CAPACITY_BYTES_def CAPACITY_WORDS_def
      PAGE_BYTES_def mult.assoc)

lemma mock_journal_new:
  assumes "mock_inv g f" and "2 \<le> PAGES g" and "even B" and "2 \<le> B"
  shows "\<exists>j f'. journal_new crc (mock_ops g ptr) B f = (Ok j, f') \<and> mock_journal_inv crc g ptr j \<and>
    inner j = f' \<and> mf_data f' = mf_data f \<and> journal_get j = latest_state crc (mf_data f) \<and>
    (mock_reliable f \<longrightarrow> mock_reliable f')"
proof -
  obtain r f' where run: "journal_new crc (mock_ops g ptr) B f = (r, f')" by fastforce
  have "2 \<le> page_count (mock_ops g ptr) f" using assms by (simp add: mock_page_count)
  note eff = mock.journal_new_effect [OF assms(1,3,4) this run]
  then obtain j where "r = Ok j" by auto
  with eff run journal_inv_get [of crc "mock_ops g ptr" mf_data "mock_inv g" j] show ?thesis by auto
qed

text \<open>A reset: the journal opened again on the flash of a journal in order returns the same state.\<close>

lemma mock_journal_reopen:
  assumes "mock_journal_ok crc g ptr N j"
  shows "\<exists>j' f'. journal_new crc (mock_ops g ptr) N (inner j) = (Ok j', f') \<and>
    mock_journal_ok crc g ptr N j' \<and> journal_get j' = journal_get j \<and>
    (mock_reliable (inner j) \<longrightarrow> mock_reliable (inner j'))"
proof -
  have inv: "mock_journal_inv crc g ptr j" and N: "even N" "2 \<le> N"
    using assms by (simp_all add: mock_journal_ok_def)
  have "mock_inv g (inner j)" "2 \<le> PAGES g"
    using inv mock_page_count [of g "inner j" ptr] by (simp_all add: journal_inv_def)
  from mock_journal_new [OF this N, of crc ptr] N journal_inv_get [OF inv] show ?thesis
    by (auto simp: mock_journal_ok_def)
qed

end
