(* ===== verification/Mbi_Header.thy ===== *)
theory Mbi_Header
  imports Nor_Flash
begin

text \<open>
  \<open>libs/ec-slimloader-imxrt/src/mbi.rs\<close>: the two headers the bootloader reads from a master boot
  image, the interrupt vector table with NXP's fields in its reserved words (\<open>Ivt\<close>) and the header
  of the certificate block. \<open>usize\<close> is 32 bits wide on the target, so lengths and pointers are
  \<open>u32\<close> here.
\<close>

section \<open>The interrupt vector table\<close>

record ivt =
  image_len :: u32
  image_type :: u32
  header_offset :: u32
  target_ptr :: u32

datatype buffer_too_small = BufferTooSmall

text \<open>\<open>u32::from_le_bytes(data[a..a + 4])\<close> for an offset the caller has checked.\<close>

definition u32_at :: "nat \<Rightarrow> u8 list \<Rightarrow> u32" where
  "u32_at a data = u32_from_le_bytes (take 4 (drop a data))"

definition u16_at :: "nat \<Rightarrow> u8 list \<Rightarrow> u16" where
  "u16_at a data = u16_from_le_bytes (take 2 (drop a data))"

definition ivt_read_from_slice :: "u8 list \<Rightarrow> (ivt, buffer_too_small) res" where
  "ivt_read_from_slice data =
     (if length data < 64 then Err BufferTooSmall
      else Ok \<lparr>image_len = u32_at 0x20 data, image_type = u32_at 0x24 data,
               header_offset = u32_at 0x28 data, target_ptr = u32_at 0x34 data\<rparr>)"

definition ivt_read :: "('p, 'e) nor_flash \<Rightarrow> 'p \<Rightarrow> (ivt, 'e) res \<times> 'p" where
  "ivt_read ops slot =
     and_then (flash_read ops 0 64 slot) (\<lambda>buf slot.
     (Ok (unwrap_unchecked (ok (ivt_read_from_slice buf))), slot))"

text \<open>\<open>usize::checked_add\<close>.\<close>

definition checked_add :: "u32 \<Rightarrow> u32 \<Rightarrow> u32 option" where
  "checked_add a b = (if unat a + unat b < 2 ^ 32 then Some (a + b) else None)"

definition target_end_ptr :: "ivt \<Rightarrow> u32 option" where
  "target_end_ptr i = checked_add (target_ptr i) (image_len i)"

section \<open>The certificate block header\<close>

record certificate_block_header =
  signature :: u32
  header_major_version :: u16
  header_minor_version :: u16
  header_length :: u32
  flags :: u32
  build_number :: u32
  total_image_length :: u32
  certificate_count :: u32
  certificate_table_length :: u32

text \<open>The \<open>repr(C)\<close> struct has no padding: eight words, two of the fields share the second.\<close>

definition cert_header_size :: nat where
  "cert_header_size = 32"

definition cert_header_read_from_slice :: "u8 list \<Rightarrow> certificate_block_header option" where
  "cert_header_read_from_slice data =
     (if length data < cert_header_size then None
      else Some \<lparr>signature = u32_at 0 data, header_major_version = u16_at 4 data,
                 header_minor_version = u16_at 6 data, header_length = u32_at 8 data,
                 flags = u32_at 12 data, build_number = u32_at 16 data,
                 total_image_length = u32_at 20 data, certificate_count = u32_at 24 data,
                 certificate_table_length = u32_at 28 data\<rparr>)"

section \<open>Lemmas\<close>

lemma checked_add_Some:
  "checked_add a b = Some c \<longleftrightarrow> unat a + unat b < 2 ^ 32 \<and> c = a + b \<and> unat c = unat a + unat b"
  by (auto simp: checked_add_def unat_word_ariths(1) take_bit_nat_eq_self)

lemma u32_at_append_left: "a + 4 \<le> length xs \<Longrightarrow> u32_at a (xs @ ys) = u32_at a xs"
  by (simp add: u32_at_def)

lemma u32_at_append_right: "length xs \<le> a \<Longrightarrow> u32_at a (xs @ ys) = u32_at (a - length xs) ys"
  by (simp add: u32_at_def)

lemma u32_at_take: "a + 4 \<le> n \<Longrightarrow> u32_at a (take n xs) = u32_at a xs"
  by (simp add: u32_at_def drop_take min_def)

lemma u32_at_drop [simp]: "u32_at a (drop b xs) = u32_at (b + a) xs"
  by (simp add: u32_at_def add.commute)

lemma u32_at_le_bytes: "a = length xs \<Longrightarrow> u32_at a (xs @ u32_to_le_bytes w @ ys) = w"
  by (simp add: u32_at_def)

text \<open>The table that \<open>read\<close> finds on a slot is the one \<open>read_from_slice\<close> finds in a copy of it.\<close>

lemma ivt_read_from_slice_take:
  "64 \<le> n \<Longrightarrow> n \<le> length xs \<Longrightarrow> ivt_read_from_slice (take n xs) = ivt_read_from_slice xs"
  by (simp add: ivt_read_from_slice_def u32_at_take)

lemma ivt_read_from_slice_not_Panic [simp]: "ivt_read_from_slice xs \<noteq> Panic"
  by (simp add: ivt_read_from_slice_def)

end
