(* ===== verification/Rom_Api.thy ===== *)
theory Rom_Api
  imports Slim_Prelude
begin

unbundle bit_operations_syntax

text \<open>
  \<open>libs/imxrt-rom\<close>: the chip's ROM API (\<open>api.rs\<close>), image authentication (\<open>skboot.rs\<close>), the OTP
  driver (\<open>otp.rs\<close>) and the fuse and shadow registers (\<open>registers.rs\<close>, \<open>registers.json\<close>).

  The ROM is not part of the repository: \<open>rom_api\<close> is the dictionary of its functions, and the
  definitions take it as an argument. \<open>hw\<close> is the part of the machine the code touches directly:
  the RAM, the shadow registers by address, and the flag \<open>INITIALIZED\<close> of the OTP driver; \<open>'x\<close> is
  whatever state the ROM keeps besides (fuses, sessions, the hash engine). A ROM function may change
  all of it.
\<close>

section \<open>The ROM API\<close>

record 'x hw =
  ram :: "u32 \<Rightarrow> u8"
  shadow_mem :: "u32 \<Rightarrow> u32"
  otp_initialized :: bool
  rom_state :: 'x

datatype kb_operation = AuthenticateImage | LoadImage

record kb_authenticate =
  profile :: u32
  min_build_number :: u32
  max_image_length :: u32
  user_rhk :: u32

record kb_options =
  kb_version :: u32
  kb_buffer :: u32
  kb_buffer_length :: u32
  kb_op :: kb_operation
  kb_settings :: kb_authenticate

datatype kb_status =
  KbSuccess | KbFail | KbReadOnly | KbOutOfRange | KbInvalidArgument | KbTimeout | KbNoTransferInProgress
| KbUnknownInsufficientMemory | KbSignature | KbDataUnderrun | KbRollbackBlocked | KbUnknown

fun kb_status_as_u32 :: "kb_status \<Rightarrow> u32" where
  "kb_status_as_u32 KbSuccess = 0"
| "kb_status_as_u32 KbFail = 1"
| "kb_status_as_u32 KbReadOnly = 2"
| "kb_status_as_u32 KbOutOfRange = 3"
| "kb_status_as_u32 KbInvalidArgument = 4"
| "kb_status_as_u32 KbTimeout = 5"
| "kb_status_as_u32 KbNoTransferInProgress = 6"
| "kb_status_as_u32 KbUnknownInsufficientMemory = 10"
| "kb_status_as_u32 KbSignature = 10101"
| "kb_status_as_u32 KbDataUnderrun = 10109"
| "kb_status_as_u32 KbRollbackBlocked = 10115"
| "kb_status_as_u32 KbUnknown = 10116"

text \<open>
  The functions of the API table that the crate calls. An out-parameter is part of the result: the
  session pointer of \<open>iap_init\<close>, the flag of \<open>rom_authenticate\<close> (which gets its old value too) and
  the four bytes of \<open>fuse_read\<close>. \<open>mask_hashcrypt\<close> is the NVIC write after authentication and
  \<open>sha256\<close> the hash peripheral of the HAL.
\<close>

record 'x rom_api =
  iap_init :: "kb_options \<Rightarrow> 'x hw \<Rightarrow> (u32 \<times> u32) \<times> 'x hw"
  iap_deinit :: "u32 \<Rightarrow> 'x hw \<Rightarrow> u32 \<times> 'x hw"
  rom_authenticate :: "u32 \<Rightarrow> u32 \<Rightarrow> 'x hw \<Rightarrow> (u32 \<times> u32) \<times> 'x hw"
  mask_hashcrypt :: "'x hw \<Rightarrow> 'x hw"
  otp_driver_init :: "u32 \<Rightarrow> 'x hw \<Rightarrow> u32 \<times> 'x hw"
  otp_driver_deinit :: "'x hw \<Rightarrow> u32 \<times> 'x hw"
  fuse_read :: "u32 \<Rightarrow> 'x hw \<Rightarrow> (u32 \<times> u8 list) \<times> 'x hw"
  fuse_program :: "u32 \<Rightarrow> u32 \<Rightarrow> bool \<Rightarrow> 'x hw \<Rightarrow> u32 \<times> 'x hw"
  otp_reload :: "'x hw \<Rightarrow> u32 \<times> 'x hw"
  sha256 :: "u8 list \<Rightarrow> 'x hw \<Rightarrow> (u8 list, unit) res \<times> 'x hw"

datatype boot_status =
  BootSuccess | BootFail | BootInvalidArgument | BootKeyStoreMarkerInvalid
| HashcryptFinishedWithStatusSuccess | HashcryptFinishedWithStatusFail

definition boot_status_try_from :: "u32 \<Rightarrow> (boot_status, unit) res" where
  "boot_status_try_from v =
     (if v = 0x5ac3c35a then Ok BootSuccess
      else if v = 0xc35ac35a then Ok BootFail
      else if v = 0xc35a5ac3 then Ok BootInvalidArgument
      else if v = 0xc3c35a5a then Ok BootKeyStoreMarkerInvalid
      else if v = 0xc15a5ac3 then Ok HashcryptFinishedWithStatusSuccess
      else if v = 0xc15a5acb then Ok HashcryptFinishedWithStatusFail
      else Err ())"

datatype secure_bool =
  SecureTrue | SecureFalse | CallProtectSecurityFlags | CallProtectIsAppReady | TrackerVerified

definition secure_bool_try_from :: "u32 \<Rightarrow> (secure_bool, unit) res" where
  "secure_bool_try_from v =
     (if v = 0xc33cc33c then Ok SecureTrue
      else if v = 0x5aa55aa5 then Ok SecureFalse
      else if v = 0xc33c5aa5 then Ok CallProtectSecurityFlags
      else if v = 0x5aa5c33c then Ok CallProtectIsAppReady
      else if v = 0x55aacc33 then Ok TrackerVerified
      else Err ())"

section \<open>Authentication\<close>

datatype authenticate_error =
  SignUnverified | SignUnknown | AuthFail | UnexpectedValueInImage | KeyStoreMarkerInvalid
| BootStatusUnknown | IsSignVerifiedUnknown

text \<open>The two \<open>match\<close>es on what the ROM reported.\<close>

definition authenticate_verdict :: "u32 \<Rightarrow> u32 \<Rightarrow> (unit, authenticate_error) res" where
  "authenticate_verdict result is_sign_verified =
     res_bind (map_err (\<lambda>_. BootStatusUnknown) (boot_status_try_from result)) (\<lambda>status.
     let is_sign_verified = map_err (\<lambda>_. IsSignVerifiedUnknown) (secure_bool_try_from is_sign_verified) in
     case status of
       BootSuccess \<Rightarrow>
         (case is_sign_verified of
            Ok TrackerVerified \<Rightarrow> Ok ()
          | Ok SecureFalse \<Rightarrow> Err SignUnverified
          | _ \<Rightarrow> Err SignUnknown)
     | BootFail \<Rightarrow> Err AuthFail
     | BootInvalidArgument \<Rightarrow> Err UnexpectedValueInImage
     | BootKeyStoreMarkerInvalid \<Rightarrow> Err KeyStoreMarkerInvalid
     | _ \<Rightarrow> Err BootStatusUnknown)"

text \<open>
  \<open>buf_ptr\<close> is the address of the stack buffer \<open>user_buf\<close>; \<open>rhk_ptr\<close> is where the closure's copy of
  \<open>rhk\<close> was, which is what the code passes when a hash is given.
\<close>

definition skboot_authenticate ::
    "'x rom_api \<Rightarrow> u32 \<Rightarrow> u32 \<Rightarrow> u32 \<Rightarrow> u32 \<Rightarrow> u8 list option \<Rightarrow> 'x hw \<Rightarrow> (unit, authenticate_error) res \<times> 'x hw" where
  "skboot_authenticate rom buf_ptr rhk_ptr start max_len rhk h =
     (let user_rhk = (case rhk of Some _ \<Rightarrow> rhk_ptr | None \<Rightarrow> 0);
          options = \<lparr>kb_version = 1, kb_buffer = buf_ptr, kb_buffer_length = 1024 * 4,
                     kb_op = AuthenticateImage,
                     kb_settings = \<lparr>profile = 0, min_build_number = 0, max_image_length = max_len,
                                    user_rhk = user_rhk\<rparr>\<rparr>;
          ((status, session_ref), h) = iap_init rom options h
      in if status \<noteq> kb_status_as_u32 KbSuccess then (Err AuthFail, h)
         else
           (let ((result, is_sign_verified), h) = rom_authenticate rom start 0xffffffff h;
                h = mask_hashcrypt rom h;
                (status, h) = iap_deinit rom session_ref h
            in if status \<noteq> kb_status_as_u32 KbSuccess then (Err AuthFail, h)
               else (authenticate_verdict result is_sign_verified, h)))"

section \<open>The OTP driver\<close>

text \<open>\<open>otp::Error\<close> carries the status word.\<close>

definition otp_init :: "'x rom_api \<Rightarrow> u32 \<Rightarrow> 'x hw \<Rightarrow> (unit, u32) res \<times> 'x hw" where
  "otp_init rom clock h =
     (if otp_initialized h then (Panic, h)
      else (let h = h\<lparr>otp_initialized := True\<rparr>; (_, h) = otp_driver_init rom clock h in (Ok (), h)))"

definition read_fuse :: "'x rom_api \<Rightarrow> u32 \<Rightarrow> 'x hw \<Rightarrow> (u32, u32) res \<times> 'x hw" where
  "read_fuse rom addr h =
     (let ((status, result), h) = fuse_read rom addr h in
      if status = kb_status_as_u32 KbSuccess then (Ok (u32_from_le_bytes result), h) else (Err status, h))"

definition write_fuse :: "'x rom_api \<Rightarrow> u32 \<Rightarrow> u32 \<Rightarrow> bool \<Rightarrow> 'x hw \<Rightarrow> (unit, u32) res \<times> 'x hw" where
  "write_fuse rom addr data lock h =
     (let (status, h) = fuse_program rom addr data lock h in
      if status = kb_status_as_u32 KbSuccess then (Ok (), h) else (Err status, h))"

definition reload_shadow :: "'x rom_api \<Rightarrow> 'x hw \<Rightarrow> (unit, u32) res \<times> 'x hw" where
  "reload_shadow rom h =
     (let (status, h) = otp_reload rom h in
      if status = kb_status_as_u32 KbSuccess then (Ok (), h) else (Err status, h))"

definition otp_drop :: "'x rom_api \<Rightarrow> 'x hw \<Rightarrow> 'x hw" where
  "otp_drop rom h = (snd (otp_driver_deinit rom h))\<lparr>otp_initialized := False\<rparr>"

section \<open>Fuse and shadow registers\<close>

datatype not_shadow_register = NotShadowRegister

definition otp_to_shadow_offset :: "u32 \<Rightarrow> (u32, not_shadow_register) res" where
  "otp_to_shadow_offset i =
     (if 8 \<le> i \<and> i \<le> 9 then Ok ((i - 8) * 4 + 0x020)
      else if 95 \<le> i \<and> i \<le> 104 then Ok ((i - 95) * 4 + 0x17C)
      else if 106 \<le> i \<and> i \<le> 127 then Ok ((i - 106) * 4 + 0x1A8)
      else if 492 \<le> i \<and> i \<le> 495 then Ok ((i - 492) * 4 + 0x7B0)
      else Err NotShadowRegister)"

definition otp_to_shadow_addr :: "u32 \<Rightarrow> (u32, not_shadow_register) res" where
  "otp_to_shadow_addr i = res_bind (otp_to_shadow_offset i) (\<lambda>offset. Ok (0x40130000 + offset))"

text \<open>The body of the \<open>map\<close> closure, then the enumerated chunks.\<close>

definition chunk_to_word :: "u8 list \<Rightarrow> u32" where
  "chunk_to_word chunk =
     (if length chunk < 4 then u32_from_le_bytes (copy_from_slice 0 chunk (replicate 4 0))
      else u32_from_le_bytes chunk)"

definition data_to_otp_words :: "u32 \<Rightarrow> u8 list \<Rightarrow> (u32 \<times> u32) list" where
  "data_to_otp_words i data =
     map (\<lambda>(chunk_i, chunk). (i + of_nat chunk_i, chunk_to_word chunk)) (enumerate 0 (chunks 4 data))"

text \<open>
  \<open>otp_words_to_data\<close> fills the caller's buffer; the model returns the filled buffer. The closure
  \<open>f\<close> may change the machine.
\<close>

fun words_loop ::
    "(u32 \<Rightarrow> 's \<Rightarrow> (u32, 'e) res \<times> 's) \<Rightarrow> u32 \<Rightarrow> nat \<Rightarrow> u8 list list \<Rightarrow> 's \<Rightarrow> (u8 list, 'e) res \<times> 's" where
  "words_loop f i chunk_i [] s = (Ok [], s)"
| "words_loop f i chunk_i (chunk # rest) s =
     and_then (f (i + of_nat chunk_i) s) (\<lambda>word s.
     and_then (words_loop f i (Suc chunk_i) rest s) (\<lambda>filled s.
     (Ok (take (length chunk) (u32_to_le_bytes word) @ filled), s)))"

definition otp_words_to_data ::
    "u32 \<Rightarrow> u8 list \<Rightarrow> (u32 \<Rightarrow> 's \<Rightarrow> (u32, 'e) res \<times> 's) \<Rightarrow> 's \<Rightarrow> (u8 list, 'e) res \<times> 's" where
  "otp_words_to_data i data f s = words_loop f i 0 (chunks 4 data) s"

text \<open>\<open>ShadowInterface\<close>.\<close>

fun shadow_write_words :: "(u32 \<times> u32) list \<Rightarrow> 'x hw \<Rightarrow> (unit, not_shadow_register) res \<times> 'x hw" where
  "shadow_write_words [] h = (Ok (), h)"
| "shadow_write_words ((i, word) # rest) h =
     and_then (otp_to_shadow_addr i, h) (\<lambda>addr h.
     shadow_write_words rest (h\<lparr>shadow_mem := (shadow_mem h)(addr := word)\<rparr>))"

definition shadow_write_register :: "u32 \<Rightarrow> u8 list \<Rightarrow> 'x hw \<Rightarrow> (unit, not_shadow_register) res \<times> 'x hw" where
  "shadow_write_register i data h = shadow_write_words (data_to_otp_words i data) h"

definition shadow_read_register :: "u32 \<Rightarrow> u8 list \<Rightarrow> 'x hw \<Rightarrow> (u8 list, not_shadow_register) res \<times> 'x hw" where
  "shadow_read_register i data h =
     otp_words_to_data i data (\<lambda>i h. and_then (otp_to_shadow_addr i, h) (\<lambda>addr h. (Ok (shadow_mem h addr), h))) h"

text \<open>\<open>OtpInterface\<close>.\<close>

datatype otp_error = WriteNotAllowed | OtpInner u32

record otp_interface =
  allow_write :: bool
  mode_locked :: bool

definition fuses_readonly :: otp_interface where
  "fuses_readonly = \<lparr>allow_write = False, mode_locked = False\<rparr>"

definition fuses_writable :: "bool \<Rightarrow> otp_interface" where
  "fuses_writable locked = \<lparr>allow_write = True, mode_locked = locked\<rparr>"

fun fuse_write_words :: "'x rom_api \<Rightarrow> bool \<Rightarrow> (u32 \<times> u32) list \<Rightarrow> 'x hw \<Rightarrow> (unit, otp_error) res \<times> 'x hw" where
  "fuse_write_words rom locked [] h = (Ok (), h)"
| "fuse_write_words rom locked ((i, word) # rest) h =
     (case write_fuse rom i word locked h of
        (Ok _, h) \<Rightarrow> fuse_write_words rom locked rest h
      | (Err e, h) \<Rightarrow> (Err (OtpInner e), h)
      | (Panic, h) \<Rightarrow> (Panic, h))"

definition otp_write_register ::
    "'x rom_api \<Rightarrow> otp_interface \<Rightarrow> u32 \<Rightarrow> u8 list \<Rightarrow> 'x hw \<Rightarrow> (unit, otp_error) res \<times> 'x hw" where
  "otp_write_register rom otp i data h =
     (if \<not> allow_write otp then (Err WriteNotAllowed, h)
      else fuse_write_words rom (mode_locked otp) (data_to_otp_words i data) h)"

definition otp_read_register ::
    "'x rom_api \<Rightarrow> otp_interface \<Rightarrow> u32 \<Rightarrow> u8 list \<Rightarrow> 'x hw \<Rightarrow> (u8 list, otp_error) res \<times> 'x hw" where
  "otp_read_register rom otp i data h =
     (case otp_words_to_data i data (read_fuse rom) h of (r, h) \<Rightarrow> (map_err OtpInner r, h))"

section \<open>Lemmas\<close>

lemma otp_to_shadow_offset_linear: "otp_to_shadow_offset i = Ok off \<Longrightarrow> off = 4 * i \<and> i \<le> 495"
proof -
  assume "otp_to_shadow_offset i = Ok off"
  then consider "i \<le> 9" "off = (i - 8) * 4 + 0x020" | "i \<le> 104" "off = (i - 95) * 4 + 0x17C"
    | "i \<le> 127" "off = (i - 106) * 4 + 0x1A8" | "i \<le> 495" "off = (i - 492) * 4 + 0x7B0"
    by (auto simp: otp_to_shadow_offset_def split: if_splits)
  moreover have "w \<le> 495" if "w \<le> 9 \<or> w \<le> 104 \<or> w \<le> 127" for w :: u32
    using that by (auto elim: order_trans)
  ultimately show ?thesis by cases (simp_all add: algebra_simps)
qed

lemma otp_to_shadow_addr_Ok:
  "otp_to_shadow_addr i = Ok a \<Longrightarrow> a = 0x40130000 + 4 * i \<and> i \<le> 495"
  by (auto simp: otp_to_shadow_addr_def outcome_iffs dest: otp_to_shadow_offset_linear)

lemma otp_to_shadow_addr_not_Panic [simp]: "otp_to_shadow_addr i \<noteq> Panic"
  by (simp add: otp_to_shadow_addr_def otp_to_shadow_offset_def outcome_iffs)

text \<open>Different fuse words have different shadow registers.\<close>

lemma otp_to_shadow_addr_inj:
  assumes "otp_to_shadow_addr i = Ok a" and "otp_to_shadow_addr j = Ok a"
  shows "i = j"
proof -
  have "4 * i = 4 * j" "i \<le> 495" "j \<le> 495"
    using otp_to_shadow_addr_Ok [OF assms(1)] otp_to_shadow_addr_Ok [OF assms(2)] by auto
  moreover have "unat (4 * w) = 4 * unat w" if "w \<le> 495" for w :: u32
  proof -
    have "unat w \<le> 495" using that by (simp add: word_le_nat_alt)
    then show ?thesis by (simp add: unat_word_ariths(2))
  qed
  ultimately have "4 * unat i = 4 * unat j" by metis
  then show ?thesis by (simp add: word_unat_eq_iff)
qed

lemma chunk_round_trip:
  assumes "length c \<le> 4"
  shows "take (length c) (u32_to_le_bytes (chunk_to_word c)) = c"
proof (cases "length c < 4")
  case True
  have "length (copy_from_slice 0 c (replicate 4 0)) = 4" using True by simp
  with True show ?thesis
    by (simp add: chunk_to_word_def u32_to_from_le_bytes_length) (simp add: copy_from_slice_def)
next
  case False
  with assms have "length c = 4" by simp
  then show ?thesis by (simp add: chunk_to_word_def u32_to_from_le_bytes_length)
qed

text \<open>Reading words that do not change the machine.\<close>

lemma words_loop_pure:
  assumes "\<And>k. k < length cs \<Longrightarrow> f (i + of_nat (m + k)) s = (Ok (w k), s)"
  shows "words_loop f i m cs s = (Ok (concat (map (\<lambda>k. take (length (cs ! k)) (u32_to_le_bytes (w k))) [0..<length cs])), s)"
  using assms
proof (induction cs arbitrary: m w)
  case (Cons c cs)
  have "words_loop f i (Suc m) cs s =
      (Ok (concat (map (\<lambda>k. take (length (cs ! k)) (u32_to_le_bytes (w (Suc k)))) [0..<length cs])), s)"
    using Cons.prems [of "Suc _"] by (intro Cons.IH) (simp add: add.assoc [symmetric])
  with Cons.prems [of 0] show ?case
    by (simp add: upt_conv_Cons map_Suc_upt [symmetric] comp_def del: upt_Suc)
qed simp

lemma of_nat_u32_inj: "j < 2 ^ 32 \<Longrightarrow> k < 2 ^ 32 \<Longrightarrow> (of_nat j :: u32) = of_nat k \<Longrightarrow> j = k"
  using unat_of_nat_u32 by metis

lemma shadow_write_words_effect:
  assumes "shadow_write_words (map (\<lambda>(k, c). (i + of_nat k, chunk_to_word c)) (enumerate m cs)) h = (Ok (), h')"
    and "m + length cs \<le> 2 ^ 32"
  shows "(\<forall>k < length cs. \<exists>a. otp_to_shadow_addr (i + of_nat (m + k)) = Ok a \<and>
            shadow_mem h' a = chunk_to_word (cs ! k)) \<and>
         (\<forall>a. (\<forall>k < length cs. otp_to_shadow_addr (i + of_nat (m + k)) \<noteq> Ok a) \<longrightarrow>
            shadow_mem h' a = shadow_mem h a) \<and>
         h' = h\<lparr>shadow_mem := shadow_mem h'\<rparr>"
  using assms
proof (induction cs arbitrary: m h)
  case (Cons c cs)
  from Cons.prems obtain a0 where a0: "otp_to_shadow_addr (i + of_nat m) = Ok a0"
    by (auto simp: outcome_iffs)
  let ?h = "h\<lparr>shadow_mem := (shadow_mem h)(a0 := chunk_to_word c)\<rparr>"
  from Cons.prems a0 have run:
    "shadow_write_words (map (\<lambda>(k, c). (i + of_nat k, chunk_to_word c)) (enumerate (Suc m) cs)) ?h = (Ok (), h')"
    by simp
  have le: "Suc m + length cs \<le> 2 ^ 32" using Cons.prems(2) by simp
  note IH = Cons.IH [OF run le]
  have "otp_to_shadow_addr (i + of_nat (Suc m + k)) \<noteq> Ok a0" if "k < length cs" for k
  proof
    assume "otp_to_shadow_addr (i + of_nat (Suc m + k)) = Ok a0"
    with a0 have "i + of_nat (Suc m + k) = i + of_nat m" by (rule otp_to_shadow_addr_inj [rotated])
    then have "(of_nat (Suc m + k) :: u32) = of_nat m" by (simp only: add_left_cancel)
    with that le have "Suc m + k = m" by (intro of_nat_u32_inj) auto
    then show False by simp
  qed
  then have first: "shadow_mem h' a0 = chunk_to_word c" using IH by simp
  show ?case
  proof (intro conjI allI impI)
    fix k
    assume "k < length (c # cs)"
    then show "\<exists>a. otp_to_shadow_addr (i + of_nat (m + k)) = Ok a \<and> shadow_mem h' a = chunk_to_word ((c # cs) ! k)"
      using IH a0 first by (cases k) auto
  next
    fix a
    assume other: "\<forall>k < length (c # cs). otp_to_shadow_addr (i + of_nat (m + k)) \<noteq> Ok a"
    then have "a \<noteq> a0" using a0 by auto
    moreover have "\<forall>k < length cs. otp_to_shadow_addr (i + of_nat (Suc m + k)) \<noteq> Ok a"
      using other by (metis add_Suc_shift length_Cons Suc_less_eq)
    ultimately show "shadow_mem h' a = shadow_mem h a" using IH by simp
  next
    show "h' = h\<lparr>shadow_mem := shadow_mem h'\<rparr>"
      using IH by (metis hw.surjective hw.update_convs(2))
  qed
qed simp

text \<open>The words of a register, and reading them from the shadow registers.\<close>

lemma shadow_read_words:
  assumes "\<And>k. k < length (chunks 4 data) \<Longrightarrow>
      \<exists>a. otp_to_shadow_addr (i + of_nat k) = Ok a \<and> shadow_mem h a = w k"
  shows "shadow_read_register i data h =
    (Ok (concat (map (\<lambda>k. take (length (chunks 4 data ! k)) (u32_to_le_bytes (w k))) [0..<length (chunks 4 data)])), h)"
  unfolding shadow_read_register_def otp_words_to_data_def
  by (rule words_loop_pure) (use assms in fastforce)

text \<open>Register accesses succeed when every word of the register has a shadow.\<close>

lemma shadow_write_words_total:
  "\<forall>(i, w) \<in> set ws. \<exists>a. otp_to_shadow_addr i = Ok a \<Longrightarrow> \<exists>h'. shadow_write_words ws h = (Ok (), h')"
  by (induction ws arbitrary: h) auto

lemma shadow_write_register_total:
  assumes "\<And>k. k < length (chunks 4 data) \<Longrightarrow> \<exists>a. otp_to_shadow_addr (i + of_nat k) = Ok a"
  shows "\<exists>h'. shadow_write_register i data h = (Ok (), h')"
  unfolding shadow_write_register_def data_to_otp_words_def
  by (rule shadow_write_words_total) (use assms in \<open>auto simp: in_set_enumerate_eq\<close>)

lemma shadow_read_register_total:
  assumes "\<And>k. k < length (chunks 4 data) \<Longrightarrow> \<exists>a. otp_to_shadow_addr (i + of_nat k) = Ok a"
  shows "\<exists>bs. shadow_read_register i data h = (Ok bs, h)"
proof -
  define w where "w k = (case otp_to_shadow_addr (i + of_nat k) of Ok a \<Rightarrow> shadow_mem h a)" for k
  have "\<exists>a. otp_to_shadow_addr (i + of_nat k) = Ok a \<and> shadow_mem h a = w k" if "k < length (chunks 4 data)" for k
    using assms [OF that] by (auto simp: w_def)
  from shadow_read_words [OF this] show ?thesis by blast
qed

text \<open>The registers the bootloader uses: \<open>BOOT_CFG0\<close>, \<open>BOOT_CFG1\<close> and the eight words of \<open>RKTH\<close>.\<close>

lemma shadow_words_96_97: "\<exists>a. otp_to_shadow_addr 96 = Ok a" "\<exists>a. otp_to_shadow_addr 97 = Ok a"
  by (simp_all add: otp_to_shadow_addr_def otp_to_shadow_offset_def)

lemma shadow_words_rkth: "k < 8 \<Longrightarrow> \<exists>a. otp_to_shadow_addr (120 + of_nat k) = Ok a"
proof -
  assume "k < 8"
  then consider "k = 0" | "k = 1" | "k = 2" | "k = 3" | "k = 4" | "k = 5" | "k = 6" | "k = 7" by linarith
  then show ?thesis by cases (simp_all add: otp_to_shadow_addr_def otp_to_shadow_offset_def)
qed

lemma authenticate_verdict_Ok:
  "authenticate_verdict result verified = Ok () \<longleftrightarrow> result = 0x5ac3c35a \<and> verified = 0x55aacc33"
  by (auto simp: authenticate_verdict_def boot_status_try_from_def secure_bool_try_from_def Let_def)

lemma authenticate_verdict_not_Panic [simp]: "authenticate_verdict result verified \<noteq> Panic"
  by (auto simp: authenticate_verdict_def boot_status_try_from_def secure_bool_try_from_def Let_def
      split: res.splits secure_bool.splits)

lemma skboot_authenticate_not_Panic [simp]: "skboot_authenticate rom bp rp start len rhk h \<noteq> (Panic, h')"
  by (simp add: skboot_authenticate_def Let_def split: prod.splits)

text \<open>What was written is what is read, however many words the register has.\<close>

lemma shadow_write_read:
  assumes wr: "shadow_write_register i data h = (Ok (), h')"
    and "length data < 2 ^ 32" and buf: "length buf = length data"
  shows "shadow_read_register i buf h' = (Ok data, h') \<and> h' = h\<lparr>shadow_mem := shadow_mem h'\<rparr>"
proof -
  let ?cs = "chunks 4 data" and ?bs = "chunks 4 buf"
  have lens: "map length ?bs = map length ?cs" using buf by (rule chunks_lengths [rotated]) simp
  then have len: "length ?bs = length ?cs" by (metis length_map)
  have each: "length (?bs ! k) = length (?cs ! k)" if "k < length ?cs" for k
    using that lens len by (metis nth_map)
  have bound: "length (?cs ! k) \<le> 4" if "k < length ?cs" for k
    using that chunks_bounded [of 4 "?cs ! k" data] by simp
  have "0 + length ?cs \<le> 2 ^ 32" using assms(2) by (simp add: length_chunks)
  note eff = shadow_write_words_effect [OF wr [unfolded shadow_write_register_def data_to_otp_words_def] this]
  have "shadow_read_register i buf h' =
      (Ok (concat (map (\<lambda>k. take (length (?bs ! k)) (u32_to_le_bytes (chunk_to_word (?cs ! k)))) [0..<length ?bs])), h')"
    by (rule shadow_read_words) (use eff len in simp)
  also have "map (\<lambda>k. take (length (?bs ! k)) (u32_to_le_bytes (chunk_to_word (?cs ! k)))) [0..<length ?bs] = ?cs"
    by (rule nth_equalityI) (use len each bound in \<open>auto simp: chunk_round_trip\<close>)
  finally have "shadow_read_register i buf h' = (Ok data, h')" by simp
  with eff show ?thesis by simp
qed

section \<open>Properties\<close>

definition blank_hw :: "unit hw" where
  "blank_hw = \<lparr>ram = (\<lambda>_. 0), shadow_mem = (\<lambda>_. 0), otp_initialized = False, rom_state = ()\<rparr>"

text \<open>
  C19. An image counts as authenticated exactly when the ROM session could be opened and closed, the
  ROM returned its success word and it set the verification flag to \<open>TrackerVerified\<close>: no other
  combination of the words the ROM can produce is accepted, and the call never panics.
\<close>

theorem skboot_authenticate_sound:
  "fst (skboot_authenticate rom bp rp start len rhk h) = Ok () \<longleftrightarrow>
     (let options = \<lparr>kb_version = 1, kb_buffer = bp, kb_buffer_length = 4096, kb_op = AuthenticateImage,
                     kb_settings = \<lparr>profile = 0, min_build_number = 0, max_image_length = len,
                                    user_rhk = (if rhk = None then 0 else rp)\<rparr>\<rparr>;
          ((opened, session), h1) = iap_init rom options h;
          ((result, verified), h2) = rom_authenticate rom start 0xffffffff h1;
          (closed, h3) = iap_deinit rom session (mask_hashcrypt rom h2)
      in opened = 0 \<and> result = 0x5ac3c35a \<and> verified = 0x55aacc33 \<and> closed = 0)"
  by (cases rhk) (auto simp: skboot_authenticate_def Let_def authenticate_verdict_Ok split: prod.splits)

end
