(* ===== verification/Otp_Registers.thy ===== *)
theory Otp_Registers
  imports Rom_Api
begin

unbundle bit_operations_syntax

text \<open>
  The register device of \<open>libs/imxrt-rom\<close>: \<open>registers.rs\<close> creates it from the manifest
  \<open>registers.json\<close>, and both the shadow registers and the fuses are accessed through it. A register
  has the index of its first fuse word, a size in bits and its fields; a field set is the register's
  bytes in little-endian order. Reading a register fills a zeroed field set, writing one starts from
  zero, and modifying one reads it first.

  \<open>register_interface\<close> is the trait \<open>RegisterInterface\<close> with the laws a memory-like implementation
  obeys; it is interpreted on the shadow registers. The fuses do not obey it, since programming only
  sets bits: what it does is in \<open>Example_App\<close>.

  The accessors themselves (\<open>new_zero\<close>, \<open>set_field\<close>, \<open>field_set\<close>, \<open>field_get\<close>, \<open>register_read\<close>,
  \<open>register_write\<close>, \<open>register_modify\<close>) are generated by the crate \<open>device_driver\<close> from that manifest
  and are not part of the repository. Their definitions here are the meaning the crate documents for a
  manifest with little-endian registers and bit ranges; no property is about them alone, and the property of
  this theory is about the interface below them, which the repository implements.
\<close>

section \<open>The manifest\<close>

record reg_field =
  field_name :: string
  start_bit :: nat
  end_bit :: nat

record reg =
  reg_name :: string
  reg_address :: u32
  reg_bits :: nat
  reg_fields :: "reg_field list"

definition primary_boot_src :: reg_field where
  "primary_boot_src = \<lparr>field_name = ''primary_boot_src'', start_bit = 0, end_bit = 4\<rparr>"

definition default_isp_mode :: reg_field where
  "default_isp_mode = \<lparr>field_name = ''default_isp_mode'', start_bit = 4, end_bit = 7\<rparr>"

definition tzm_image_type :: reg_field where
  "tzm_image_type = \<lparr>field_name = ''tzm_image_type'', start_bit = 13, end_bit = 15\<rparr>"

definition secure_boot_en :: reg_field where
  "secure_boot_en = \<lparr>field_name = ''secure_boot_en'', start_bit = 20, end_bit = 22\<rparr>"

definition dice_skip :: reg_field where
  "dice_skip = \<lparr>field_name = ''dice_skip'', start_bit = 23, end_bit = 24\<rparr>"

definition boot_fail_pin_port :: reg_field where
  "boot_fail_pin_port = \<lparr>field_name = ''boot_fail_pin_port'', start_bit = 24, end_bit = 27\<rparr>"

definition boot_fail_pin_num :: reg_field where
  "boot_fail_pin_num = \<lparr>field_name = ''boot_fail_pin_num'', start_bit = 27, end_bit = 32\<rparr>"

definition BOOT_CFG0 :: reg where
  "BOOT_CFG0 =
     \<lparr>reg_name = ''BOOT_CFG0'', reg_address = 96, reg_bits = 32,
      reg_fields =
        [primary_boot_src,
         default_isp_mode,
         \<lparr>field_name = ''boot_clk_speed'', start_bit = 7, end_bit = 8\<rparr>,
         \<lparr>field_name = ''rsa4k_en'', start_bit = 8, end_bit = 9\<rparr>,
         tzm_image_type,
         \<lparr>field_name = ''psa_bstate_skip'', start_bit = 15, end_bit = 16\<rparr>,
         \<lparr>field_name = ''psa_bstate_inc_keys'', start_bit = 16, end_bit = 17\<rparr>,
         \<lparr>field_name = ''redundant_spi_port'', start_bit = 17, end_bit = 20\<rparr>,
         secure_boot_en,
         \<lparr>field_name = ''dice_inc_otp'', start_bit = 22, end_bit = 23\<rparr>,
         dice_skip,
         boot_fail_pin_port,
         boot_fail_pin_num]\<rparr>"

definition qspi_reset_pin_enable :: reg_field where
  "qspi_reset_pin_enable = \<lparr>field_name = ''qspi_reset_pin_enable'', start_bit = 14, end_bit = 15\<rparr>"

definition qspi_reset_pin_port :: reg_field where
  "qspi_reset_pin_port = \<lparr>field_name = ''qspi_reset_pin_port'', start_bit = 15, end_bit = 18\<rparr>"

definition qspi_reset_pin_num :: reg_field where
  "qspi_reset_pin_num = \<lparr>field_name = ''qspi_reset_pin_num'', start_bit = 18, end_bit = 23\<rparr>"

definition BOOT_CFG1 :: reg where
  "BOOT_CFG1 =
     \<lparr>reg_name = ''BOOT_CFG1'', reg_address = 97, reg_bits = 32,
      reg_fields = [qspi_reset_pin_enable, qspi_reset_pin_port, qspi_reset_pin_num]\<rparr>"

definition SEC_BOOT_CFG5 :: reg where
  "SEC_BOOT_CFG5 =
     \<lparr>reg_name = ''SEC_BOOT_CFG5'', reg_address = 101, reg_bits = 16,
      reg_fields =
        [\<lparr>field_name = ''revoke_rootkey'', start_bit = 0, end_bit = 4\<rparr>,
         \<lparr>field_name = ''fa_mode_en'', start_bit = 4, end_bit = 5\<rparr>,
         \<lparr>field_name = ''enable_crc_check'', start_bit = 5, end_bit = 7\<rparr>,
         \<lparr>field_name = ''use_puf'', start_bit = 7, end_bit = 8\<rparr>,
         \<lparr>field_name = ''puf_block_enroll'', start_bit = 8, end_bit = 9\<rparr>,
         \<lparr>field_name = ''puf_block_set_key'', start_bit = 9, end_bit = 10\<rparr>]\<rparr>"

definition RKTH :: reg where
  "RKTH = \<lparr>reg_name = ''RKTH'', reg_address = 120, reg_bits = 256, reg_fields = []\<rparr>"

definition device_registers :: "reg list" where
  "device_registers = [BOOT_CFG0, BOOT_CFG1, SEC_BOOT_CFG5, RKTH]"

text \<open>
  The enumerations of the fields the code sets and tests, with their discriminants. \<open>Enabled\<close> is the
  manifest's default variant: it stands for every value but 0 and is written as 1.
\<close>

datatype boot_src =
  IspPinBoot | QpsiABoot | Sdhc0Boot | Sdhc1Boot | SpiSlvBoot | QspiBBoot | UartBoot | SpiFcBoot
| IspMode | QspiBRecBoot | QspiARecBoot | Sdhc0RecBoot | Sdhc1RecBoot

fun boot_src_as_u32 :: "boot_src \<Rightarrow> u32" where
  "boot_src_as_u32 IspPinBoot = 0"
| "boot_src_as_u32 QpsiABoot = 1"
| "boot_src_as_u32 Sdhc0Boot = 2"
| "boot_src_as_u32 Sdhc1Boot = 3"
| "boot_src_as_u32 SpiSlvBoot = 4"
| "boot_src_as_u32 QspiBBoot = 5"
| "boot_src_as_u32 UartBoot = 6"
| "boot_src_as_u32 SpiFcBoot = 7"
| "boot_src_as_u32 IspMode = 9"
| "boot_src_as_u32 QspiBRecBoot = 11"
| "boot_src_as_u32 QspiARecBoot = 12"
| "boot_src_as_u32 Sdhc0RecBoot = 13"
| "boot_src_as_u32 Sdhc1RecBoot = 15"

datatype isp_mode = AutoIsp | UsbHidIsp | UartIsp | SpiIsp | I2cIsp | DisableIsp

fun isp_mode_as_u32 :: "isp_mode \<Rightarrow> u32" where
  "isp_mode_as_u32 AutoIsp = 0"
| "isp_mode_as_u32 UsbHidIsp = 1"
| "isp_mode_as_u32 UartIsp = 2"
| "isp_mode_as_u32 SpiIsp = 3"
| "isp_mode_as_u32 I2cIsp = 4"
| "isp_mode_as_u32 DisableIsp = 7"

datatype tzm_type = TzmNormal | TzmDisable | TzmEnable | TzmPreset

fun tzm_type_as_u32 :: "tzm_type \<Rightarrow> u32" where
  "tzm_type_as_u32 TzmNormal = 0"
| "tzm_type_as_u32 TzmDisable = 1"
| "tzm_type_as_u32 TzmEnable = 2"
| "tzm_type_as_u32 TzmPreset = 3"

datatype secure_boot = SecureBootDisabled | SecureBootEnabled

fun secure_boot_as_u32 :: "secure_boot \<Rightarrow> u32" where
  "secure_boot_as_u32 SecureBootDisabled = 0"
| "secure_boot_as_u32 SecureBootEnabled = 1"

definition secure_boot_from :: "u32 \<Rightarrow> secure_boot" where
  "secure_boot_from v = (if v = 0 then SecureBootDisabled else SecureBootEnabled)"

section \<open>Field sets\<close>

text \<open>A field set of at most 32 bits is handled through its little-endian value.\<close>

definition new_zero :: "reg \<Rightarrow> u8 list" where
  "new_zero r = replicate (reg_bits r div 8) 0"

definition set_field :: "nat \<Rightarrow> nat \<Rightarrow> u32 \<Rightarrow> u32 \<Rightarrow> u32" where
  "set_field first past v w = (w AND NOT (push_bit first (mask (past - first)))) OR push_bit first v"

definition field_set :: "reg_field \<Rightarrow> u32 \<Rightarrow> u8 list \<Rightarrow> u8 list" where
  "field_set f v data =
     take (length data) (u32_to_le_bytes (set_field (start_bit f) (end_bit f) v (chunk_to_word data)))"

definition field_get :: "reg_field \<Rightarrow> u8 list \<Rightarrow> u32" where
  "field_get f data = take_bit (end_bit f - start_bit f) (drop_bit (start_bit f) (chunk_to_word data))"

text \<open>\<open>Display\<close> of the field set \<open>Rkth\<close>: two lower-case digits per byte.\<close>

definition hex_char_lower :: "nat \<Rightarrow> u8" where
  "hex_char_lower d = of_nat (if d < 10 then 0x30 + d else 0x57 + d)"

definition rkth_display :: "u8 list \<Rightarrow> u8 list" where
  "rkth_display buf = concat (map (\<lambda>b. [hex_char_lower (unat b div 16), hex_char_lower (unat b mod 16)]) buf)"

section \<open>The device\<close>

text \<open>
  The operations of a register over an interface, given by its two functions; an error of the
  interface is the error of the operation.
\<close>

definition register_read ::
    "(u32 \<Rightarrow> u8 list \<Rightarrow> 's \<Rightarrow> (u8 list, 'e) res \<times> 's) \<Rightarrow> reg \<Rightarrow> 's \<Rightarrow> (u8 list, 'e) res \<times> 's" where
  "register_read read_reg r s = read_reg (reg_address r) (new_zero r) s"

definition register_write ::
    "(u32 \<Rightarrow> u8 list \<Rightarrow> 's \<Rightarrow> (unit, 'e) res \<times> 's) \<Rightarrow> reg \<Rightarrow> (u8 list \<Rightarrow> u8 list) \<Rightarrow> 's \<Rightarrow> (unit, 'e) res \<times> 's" where
  "register_write write_reg r f s = write_reg (reg_address r) (f (new_zero r)) s"

definition register_modify ::
    "(u32 \<Rightarrow> u8 list \<Rightarrow> 's \<Rightarrow> (u8 list, 'e) res \<times> 's) \<Rightarrow> (u32 \<Rightarrow> u8 list \<Rightarrow> 's \<Rightarrow> (unit, 'e) res \<times> 's) \<Rightarrow>
     reg \<Rightarrow> (u8 list \<Rightarrow> u8 list) \<Rightarrow> 's \<Rightarrow> (unit, 'e) res \<times> 's" where
  "register_modify read_reg write_reg r f s =
     and_then (register_read read_reg r s) (\<lambda>data s. write_reg (reg_address r) (f data) s)"

text \<open>\<open>ShadowRegisters\<close> is the device over \<open>ShadowInterface\<close>; \<open>OtpFuses\<close> the one over \<open>OtpInterface\<close>.\<close>

definition shadow_register :: "reg \<Rightarrow> 'x hw \<Rightarrow> (u8 list, not_shadow_register) res \<times> 'x hw" where
  "shadow_register = register_read shadow_read_register"

definition shadow_register_write ::
    "reg \<Rightarrow> (u8 list \<Rightarrow> u8 list) \<Rightarrow> 'x hw \<Rightarrow> (unit, not_shadow_register) res \<times> 'x hw" where
  "shadow_register_write = register_write shadow_write_register"

definition shadow_register_modify ::
    "reg \<Rightarrow> (u8 list \<Rightarrow> u8 list) \<Rightarrow> 'x hw \<Rightarrow> (unit, not_shadow_register) res \<times> 'x hw" where
  "shadow_register_modify = register_modify shadow_read_register shadow_write_register"

definition fuse_register ::
    "'x rom_api \<Rightarrow> otp_interface \<Rightarrow> reg \<Rightarrow> 'x hw \<Rightarrow> (u8 list, otp_error) res \<times> 'x hw" where
  "fuse_register rom otp = register_read (otp_read_register rom otp)"

definition fuse_register_write ::
    "'x rom_api \<Rightarrow> otp_interface \<Rightarrow> reg \<Rightarrow> (u8 list \<Rightarrow> u8 list) \<Rightarrow> 'x hw \<Rightarrow> (unit, otp_error) res \<times> 'x hw" where
  "fuse_register_write rom otp = register_write (otp_write_register rom otp)"

section \<open>Lemmas on field sets\<close>

lemma chunk_to_word_4 [simp]: "chunk_to_word (u32_to_le_bytes w) = w"
  by (simp add: chunk_to_word_def)

lemma field_set_word [simp]:
  "field_set f v (u32_to_le_bytes w) = u32_to_le_bytes (set_field (start_bit f) (end_bit f) v w)"
  by (simp add: field_set_def)

section \<open>The interface\<close>

text \<open>The fuse words of \<open>n\<close> bytes from index \<open>i\<close> on.\<close>

definition reg_words :: "u32 \<Rightarrow> nat \<Rightarrow> u32 list" where
  "reg_words i n = map (\<lambda>k. i + of_nat k) [0..<div_ceil n 4]"

text \<open>
  \<open>accessible i n\<close>: the interface has the words of a register of \<open>n\<close> bytes. \<open>only\<close> relates the state
  before a write with a state that differs in the registers at most.
\<close>

locale register_interface =
  fixes read_reg :: "u32 \<Rightarrow> u8 list \<Rightarrow> 's \<Rightarrow> (u8 list, 'e) res \<times> 's"
    and write_reg :: "u32 \<Rightarrow> u8 list \<Rightarrow> 's \<Rightarrow> (unit, 'e) res \<times> 's"
    and accessible :: "u32 \<Rightarrow> nat \<Rightarrow> bool"
    and only :: "'s \<Rightarrow> 's \<Rightarrow> bool"
  assumes read_total: "accessible i n \<Longrightarrow> \<exists>data. read_reg i (replicate n 0) s = (Ok data, s) \<and> length data = n"
    and write_total: "accessible i (length data) \<Longrightarrow> \<exists>s'. write_reg i data s = (Ok (), s') \<and> only s s'"
    and read_written: "accessible i (length data) \<Longrightarrow> write_reg i data s = (Ok (), s') \<Longrightarrow>
      read_reg i (replicate (length data) 0) s' = (Ok data, s')"
    and read_other: "accessible i (length data) \<Longrightarrow> accessible j m \<Longrightarrow>
      set (reg_words i (length data)) \<inter> set (reg_words j m) = {} \<Longrightarrow> write_reg i data s = (Ok (), s') \<Longrightarrow>
      read_reg j (replicate m 0) s' = (fst (read_reg j (replicate m 0) s), s')"
begin

lemma register_read_total:
  assumes "accessible (reg_address r) (reg_bits r div 8)"
  obtains data where "register_read read_reg r s = (Ok data, s)" "length data = reg_bits r div 8"
  using read_total [OF assms, of s] by (auto simp: register_read_def new_zero_def)

text \<open>A write to a register of the interface is read back and leaves every register apart from it.\<close>

lemma register_store:
  assumes "accessible i (length data)"
  obtains s' where "write_reg i data s = (Ok (), s')" "only s s'" "read_reg i (replicate (length data) 0) s' = (Ok data, s')"
    "\<And>j m. accessible j m \<Longrightarrow> set (reg_words i (length data)) \<inter> set (reg_words j m) = {} \<Longrightarrow>
       read_reg j (replicate m 0) s' = (fst (read_reg j (replicate m 0) s), s')"
  using write_total [OF assms] read_written [OF assms] read_other [OF assms] by metis

end

text \<open>The shadow registers.\<close>

definition shadow_accessible :: "u32 \<Rightarrow> nat \<Rightarrow> bool" where
  "shadow_accessible i n \<longleftrightarrow>
     n < 2 ^ 32 \<and> list_all (\<lambda>i. ok (otp_to_shadow_addr i) \<noteq> None) (reg_words i n)"

definition shadow_only :: "'x hw \<Rightarrow> 'x hw \<Rightarrow> bool" where
  "shadow_only h h' \<longleftrightarrow> h' = h\<lparr>shadow_mem := shadow_mem h'\<rparr>"

lemma length_chunks_4: "length (chunks 4 xs) = div_ceil (length xs) 4"
  by (simp add: length_chunks div_ceil_def) presburger

lemma shadow_accessible_addr:
  assumes "shadow_accessible i n" and "k < div_ceil n 4"
  shows "\<exists>a. otp_to_shadow_addr (i + of_nat k) = Ok a"
  using assms by (force simp: shadow_accessible_def list_all_iff reg_words_def)

text \<open>A read fills the buffer it was given.\<close>

lemma words_loop_length:
  "words_loop f i m cs s = (Ok data, s') \<Longrightarrow> \<forall>c \<in> set cs. length c \<le> 4 \<Longrightarrow> length data = length (concat cs)"
  by (induction f i m cs s arbitrary: data rule: words_loop.induct) (auto simp: outcome_iffs)

lemma shadow_read_length:
  assumes "shadow_read_register i buf h = (Ok data, h')"
  shows "length data = length buf"
proof -
  have "length data = length (concat (chunks 4 buf))"
    using assms chunks_bounded [of 4 _ buf]
    by (intro words_loop_length) (auto simp: shadow_read_register_def otp_words_to_data_def)
  then show ?thesis by simp
qed

text \<open>What a register write leaves of the words it does not cover.\<close>

lemma shadow_write_frame:
  assumes wr: "shadow_write_register i data h = (Ok (), h')" and len: "length data < 2 ^ 32"
    and j: "j \<notin> set (reg_words i (length data))" and a: "otp_to_shadow_addr j = Ok a"
  shows "shadow_mem h' a = shadow_mem h a"
proof -
  have "0 + length (chunks 4 data) \<le> 2 ^ 32" using len by (simp add: length_chunks)
  from shadow_write_words_effect [OF wr [unfolded shadow_write_register_def data_to_otp_words_def] this]
  have frame: "(\<forall>k < length (chunks 4 data). otp_to_shadow_addr (i + of_nat k) \<noteq> Ok a) \<longrightarrow> shadow_mem h' a = shadow_mem h a"
    by simp
  have "otp_to_shadow_addr (i + of_nat k) \<noteq> Ok a" if "k < length (chunks 4 data)" for k
    using otp_to_shadow_addr_inj [OF a, of "i + of_nat k"] j that by (auto simp: reg_words_def length_chunks_4)
  with frame show ?thesis by blast
qed

lemma shadow_read_cong:
  fixes h h' :: "'x hw"
  assumes acc: "shadow_accessible j m"
    and same: "\<And>i a. i \<in> set (reg_words j m) \<Longrightarrow> otp_to_shadow_addr i = Ok a \<Longrightarrow> shadow_mem h' a = shadow_mem h a"
  shows "shadow_read_register j (replicate m 0) h' = (fst (shadow_read_register j (replicate m 0) h), h')"
proof -
  define w where "w k = (case otp_to_shadow_addr (j + of_nat k) of Ok a \<Rightarrow> shadow_mem h a)" for k
  have "\<exists>a. otp_to_shadow_addr (j + of_nat k) = Ok a \<and> shadow_mem h a = w k \<and> shadow_mem h' a = w k"
    if "k < length (chunks 4 (replicate m (0 :: u8)))" for k
    using shadow_accessible_addr [OF acc, of k] same [of "j + of_nat k"] that
    by (auto simp: w_def length_chunks_4 reg_words_def)
  then have "shadow_read_register j (replicate m 0) g =
      (Ok (concat (map (\<lambda>k. take (length (chunks 4 (replicate m (0 :: u8)) ! k)) (u32_to_le_bytes (w k)))
         [0..<length (chunks 4 (replicate m (0 :: u8)))])), g)" if "g = h \<or> g = h'" for g
    using that by (intro shadow_read_words) blast
  then show ?thesis by simp
qed

interpretation shadow: register_interface shadow_read_register shadow_write_register shadow_accessible shadow_only
proof
  fix i n and s :: "'a hw"
  assume "shadow_accessible i n"
  then have "\<exists>a. otp_to_shadow_addr (i + of_nat k) = Ok a" if "k < length (chunks 4 (replicate n (0 :: u8)))" for k
    using shadow_accessible_addr that by (simp add: length_chunks_4)
  then obtain data where d: "shadow_read_register i (replicate n 0) s = (Ok data, s)"
    using shadow_read_register_total by blast
  show "\<exists>data. shadow_read_register i (replicate n 0) s = (Ok data, s) \<and> length data = n"
    using d shadow_read_length [OF d] by simp
next
  fix i and data :: "u8 list" and s :: "'a hw"
  assume acc: "shadow_accessible i (length data)"
  then obtain s' where w: "shadow_write_register i data s = (Ok (), s')"
    using shadow_write_register_total [of data i s] shadow_accessible_addr by (auto simp: length_chunks_4)
  moreover have "length data < 2 ^ 32" using acc by (simp add: shadow_accessible_def)
  ultimately show "\<exists>s'. shadow_write_register i data s = (Ok (), s') \<and> shadow_only s s'"
    using shadow_write_read [OF w, of data] by (auto simp: shadow_only_def)
next
  fix i data and s s' :: "'a hw"
  assume "shadow_accessible i (length data)" "shadow_write_register i data s = (Ok (), s')"
  then show "shadow_read_register i (replicate (length data) 0) s' = (Ok data, s')"
    using shadow_write_read [of i data s s' "replicate (length data) 0"] by (simp add: shadow_accessible_def)
next
  fix i data j m and s s' :: "'a hw"
  assume "shadow_accessible i (length data)" "shadow_accessible j m"
    "set (reg_words i (length data)) \<inter> set (reg_words j m) = {}" "shadow_write_register i data s = (Ok (), s')"
  then show "shadow_read_register j (replicate m 0) s' = (fst (shadow_read_register j (replicate m 0) s), s')"
    by (intro shadow_read_cong) (auto intro: shadow_write_frame simp: shadow_accessible_def)
qed

section \<open>The registers of the device\<close>

lemmas manifest_defs =
  BOOT_CFG0_def BOOT_CFG1_def SEC_BOOT_CFG5_def RKTH_def primary_boot_src_def default_isp_mode_def tzm_image_type_def
  secure_boot_en_def dice_skip_def boot_fail_pin_port_def boot_fail_pin_num_def qspi_reset_pin_enable_def
  qspi_reset_pin_port_def qspi_reset_pin_num_def

lemma device_reg_words:
  "reg_words (reg_address BOOT_CFG0) (reg_bits BOOT_CFG0 div 8) = [96]"
  "reg_words (reg_address BOOT_CFG1) (reg_bits BOOT_CFG1 div 8) = [97]"
  "reg_words (reg_address SEC_BOOT_CFG5) (reg_bits SEC_BOOT_CFG5 div 8) = [101]"
  "reg_words (reg_address RKTH) (reg_bits RKTH div 8) = [120, 121, 122, 123, 124, 125, 126, 127]"
  by (simp_all add: manifest_defs reg_words_def div_ceil_def upt_rec)

lemma device_regs_accessible: "list_all (\<lambda>r. shadow_accessible (reg_address r) (reg_bits r div 8)) device_registers"
  by (simp add: device_registers_def shadow_accessible_def device_reg_words otp_to_shadow_addr_def otp_to_shadow_offset_def)
    (simp add: manifest_defs)

lemma shadow_register_accessible:
  "r \<in> set device_registers \<Longrightarrow> shadow_accessible (reg_address r) (reg_bits r div 8)"
  using device_regs_accessible by (auto simp: list_all_iff)

lemma shadow_register_total:
  assumes "r \<in> set device_registers"
  shows "\<exists>data. shadow_register r h = (Ok data, h) \<and> length data = reg_bits r div 8"
  using shadow.register_read_total [OF shadow_register_accessible [OF assms], of h] by (auto simp: shadow_register_def)

text \<open>The device's operations on its registers, over the interface functions.\<close>

lemma register_ops_eqs:
  "register_read rd BOOT_CFG0 = rd 96 (replicate 4 0)" "register_read rd BOOT_CFG1 = rd 97 (replicate 4 0)"
  "register_read rd RKTH = rd 120 (replicate 32 0)" "register_write wr BOOT_CFG0 f = wr 96 (f (replicate 4 0))"
  "register_write wr RKTH f = wr 120 (f (replicate 32 0))"
  by (simp_all add: fun_eq_iff register_read_def register_write_def new_zero_def manifest_defs)

lemma new_zero_simps [simp]: "new_zero BOOT_CFG0 = replicate 4 0" "new_zero RKTH = replicate 32 0"
  by (simp_all add: new_zero_def manifest_defs)

lemma zero_word_bytes: "replicate 4 0 = u32_to_le_bytes 0"
  by (simp add: u32_to_le_bytes_def numeral_eq_Suc)

section \<open>The words of the shadow block\<close>

text \<open>The fuse words that have a shadow register, after the fuse map.\<close>

definition shadow_word :: "nat \<Rightarrow> bool" where
  "shadow_word n \<longleftrightarrow> 8 \<le> n \<and> n \<le> 9 \<or> 95 \<le> n \<and> n \<le> 104 \<or> 106 \<le> n \<and> n \<le> 127 \<or> 492 \<le> n \<and> n \<le> 495"

lemma shadow_addr_cases:
  "otp_to_shadow_addr i = (if shadow_word (unat i) then Ok (0x40130000 + 4 * i) else Err NotShadowRegister)"
proof (cases "otp_to_shadow_addr i")
  case (Ok a)
  moreover from this have "shadow_word (unat i)"
    by (auto simp: shadow_word_def otp_to_shadow_addr_def otp_to_shadow_offset_def word_le_nat_alt outcome_iffs split: if_splits)
  ultimately show ?thesis by (simp add: otp_to_shadow_addr_Ok)
next
  case (Err e)
  moreover from this have "\<not> shadow_word (unat i)"
    by (auto simp: shadow_word_def otp_to_shadow_addr_def otp_to_shadow_offset_def word_le_nat_alt outcome_iffs split: if_splits)
  ultimately show ?thesis by (cases e) simp
qed simp

lemma shadow_accessible_iff:
  assumes "unat i + n < 2 ^ 32"
  shows "shadow_accessible i n \<longleftrightarrow> (\<forall>k < div_ceil n 4. shadow_word (unat i + k))"
proof -
  have "unat (i + of_nat k) = unat i + k" if "k < div_ceil n 4" for k
    using assms that by (simp add: unat_word_ariths(1) unat_of_nat take_bit_nat_eq_self div_ceil_def split: if_splits)
  then show ?thesis using assms
    by (auto simp: shadow_accessible_def list_all_iff reg_words_def shadow_addr_cases)
qed

lemma shadow_write_words_outcome:
  "fst (shadow_write_words ws h) = (if \<forall>(i, w) \<in> set ws. shadow_word (unat i) then Ok () else Err NotShadowRegister)"
  by (induction ws arbitrary: h) (auto simp: shadow_addr_cases)

lemma words_loop_shadow_outcome:
  "\<not> (\<forall>k < length cs. shadow_word (unat (i + of_nat (m + k)))) \<Longrightarrow>
   words_loop (\<lambda>i h. and_then (otp_to_shadow_addr i, h) (\<lambda>addr h. (Ok (shadow_mem h addr), h))) i m cs h =
     (Err NotShadowRegister, h)"
proof (induction cs arbitrary: m)
  case (Cons c cs)
  show ?case
  proof (cases "shadow_word (unat (i + of_nat m))")
    case True
    with Cons.prems have "\<not> (\<forall>k < length cs. shadow_word (unat (i + of_nat (Suc m + k))))"
      by (auto simp: less_Suc_eq_0_disj add.left_commute)
    from Cons.IH [OF this] True show ?thesis by (simp add: shadow_addr_cases)
  qed (simp add: shadow_addr_cases)
qed simp

lemma shadow_register_refused:
  assumes "\<not> shadow_accessible i (length data)" and "length data < 2 ^ 32"
  shows "fst (shadow_write_register i data h) = Err NotShadowRegister"
    and "shadow_read_register i data h = (Err NotShadowRegister, h)"
proof -
  obtain k where k: "k < length (chunks 4 data)" "\<not> shadow_word (unat (i + of_nat k))"
    using assms by (auto simp: shadow_accessible_def list_all_iff reg_words_def shadow_addr_cases length_chunks_4 split: if_splits)
  then have "(i + of_nat k, chunk_to_word (chunks 4 data ! k)) \<in> set (data_to_otp_words i data)"
    by (force simp: data_to_otp_words_def in_set_enumerate_eq)
  with k(2) show "fst (shadow_write_register i data h) = Err NotShadowRegister"
    by (auto simp: shadow_write_register_def shadow_write_words_outcome)
  from k show "shadow_read_register i data h = (Err NotShadowRegister, h)"
    unfolding shadow_read_register_def otp_words_to_data_def by (intro words_loop_shadow_outcome) auto
qed

lemma nth_chunks: "k < length (chunks 4 data) \<Longrightarrow> chunks 4 data ! k = take 4 (drop (4 * k) data)"
proof (induction k arbitrary: data)
  case 0
  then show ?case by (cases "data = []") (simp_all add: chunks_step)
next
  case (Suc k)
  then show ?case by (cases "data = []") (simp_all add: chunks_step add.commute)
qed

lemma chunk_bytes:
  assumes "xs \<noteq> []"
  shows "u32_to_le_bytes (chunk_to_word (take 4 xs)) = take 4 (xs @ [0, 0, 0])"
proof (cases "length xs < 4")
  case True
  then consider "length xs = 1" | "length xs = 2" | "length xs = 3" using assms by (cases "length xs") (auto, linarith)
  then have "copy_from_slice 0 xs (replicate 4 0) = take 4 (xs @ [0, 0, 0])"
    by cases (simp_all add: copy_from_slice_def eval_nat_numeral)
  moreover have "length (copy_from_slice 0 xs (replicate 4 (0 :: u8))) = 4" using True by simp
  ultimately show ?thesis using True by (simp add: chunk_to_word_def u32_to_from_le_bytes_length)
qed (simp add: chunk_to_word_def u32_to_from_le_bytes_length)

lemma shadow_write_memory:
  assumes wr: "shadow_write_register i data h = (Ok (), h')" and len: "length data < 2 ^ 32"
  shows "k < div_ceil (length data) 4 \<Longrightarrow>
      u32_to_le_bytes (shadow_mem h' (0x40130000 + 4 * (i + of_nat k))) = take 4 (drop (4 * k) data @ [0, 0, 0])"
    and "(\<And>k. k < div_ceil (length data) 4 \<Longrightarrow> a \<noteq> 0x40130000 + 4 * (i + of_nat k)) \<Longrightarrow> shadow_mem h' a = shadow_mem h a"
proof -
  have "0 + length (chunks 4 data) \<le> 2 ^ 32" using len by (simp add: length_chunks)
  note eff = shadow_write_words_effect [OF wr [unfolded shadow_write_register_def data_to_otp_words_def] this,
      unfolded length_chunks_4]
  show "u32_to_le_bytes (shadow_mem h' (0x40130000 + 4 * (i + of_nat k))) = take 4 (drop (4 * k) data @ [0, 0, 0])"
    if k: "k < div_ceil (length data) 4"
  proof -
    from eff k obtain a where a: "otp_to_shadow_addr (i + of_nat k) = Ok a" "shadow_mem h' a = chunk_to_word (chunks 4 data ! k)"
      by auto
    have "drop (4 * k) data \<noteq> []" using k by (auto simp: div_ceil_def split: if_splits; presburger)
    from chunk_bytes [OF this] show ?thesis
      using k a(2) otp_to_shadow_addr_Ok [OF a(1)] by (simp only: nth_chunks length_chunks_4)
  qed
  show "shadow_mem h' a = shadow_mem h a" if "\<And>k. k < div_ceil (length data) 4 \<Longrightarrow> a \<noteq> 0x40130000 + 4 * (i + of_nat k)"
    using eff that otp_to_shadow_addr_Ok by (metis add_0)
qed

section \<open>Properties\<close>

text \<open>
  C21. Shadow registers round trip, for every register of up to 2^32 bytes at every index: when each
  fuse word it covers has a shadow (8 to 9, 95 to 104, 106 to 127 and 492 to 495 do), writing succeeds,
  stores word \<open>k\<close> in little-endian order, padded with zeros, at the address \<open>0x40130000 + 4 * (i + k)\<close>,
  changes nothing else of the machine, and reading returns exactly the bytes written. When one of the
  words has no shadow, both the write and the read are refused with \<open>NotShadowRegister\<close>.
\<close>

theorem shadow_register_round_trip:
  fixes h :: "'x hw"
  assumes "unat i + length data < 2 ^ 32"
  shows "if \<forall>k < div_ceil (length data) 4. shadow_word (unat i + k)
    then \<exists>h'. shadow_write_register i data h = (Ok (), h') \<and>
      shadow_read_register i (replicate (length data) 0) h' = (Ok data, h') \<and>
      (\<forall>k < div_ceil (length data) 4.
         u32_to_le_bytes (shadow_mem h' (0x40130000 + 4 * (i + of_nat k))) = take 4 (drop (4 * k) data @ [0, 0, 0])) \<and>
      (\<forall>a. (\<forall>k < div_ceil (length data) 4. a \<noteq> 0x40130000 + 4 * (i + of_nat k)) \<longrightarrow> shadow_mem h' a = shadow_mem h a) \<and>
      h' = h\<lparr>shadow_mem := shadow_mem h'\<rparr>
    else fst (shadow_write_register i data h) = Err NotShadowRegister \<and>
      shadow_read_register i data h = (Err NotShadowRegister, h)"
proof (cases "shadow_accessible i (length data)")
  case True
  obtain h' :: "'x hw" where h': "shadow_write_register i data h = (Ok (), h')" "shadow_only h h'"
      "shadow_read_register i (replicate (length data) 0) h' = (Ok data, h')"
    by (rule shadow.register_store [OF True, where s = h])
  with True assms show ?thesis
    using shadow_write_memory [OF h'(1)] by (auto simp: shadow_accessible_iff shadow_only_def)
next
  case False
  with assms have "\<not> (\<forall>k < div_ceil (length data) 4. shadow_word (unat i + k))" by (simp add: shadow_accessible_iff)
  with assms show ?thesis
    using shadow_register_refused [OF False, of h] by (simp only: if_False)
qed

text \<open>Six bytes from word 103 on, in two words; from word 104 on the second word, 105, has no shadow.\<close>

theorem shadow_register_round_trip_witness:
  "\<exists>h'. shadow_write_register 103 [1, 2, 3, 4, 5, 6] blank_hw = (Ok (), h') \<and>
     shadow_read_register 103 (replicate 6 0) h' = (Ok [1, 2, 3, 4, 5, 6], h') \<and>
     u32_to_le_bytes (shadow_mem h' 0x401301A0) = [5, 6, 0, 0] \<and>
     fst (shadow_write_register 104 [1, 2, 3, 4, 5, 6] blank_hw) = Err NotShadowRegister"
proof -
  let ?data = "[1, 2, 3, 4, 5, 6] :: u8 list"
  have six: "length ?data = 6" "div_ceil 6 4 = 2" by (simp_all add: div_ceil_def)
  have small: "unat (103 :: u32) + length ?data < 2 ^ 32" "unat (104 :: u32) + length ?data < 2 ^ 32" by simp_all
  have yes: "\<forall>k < 2. shadow_word (unat (103 :: u32) + k)" by (auto simp: shadow_word_def less_2_cases_iff)
  have "\<not> shadow_word (unat (104 :: u32) + 1)" by (simp add: shadow_word_def)
  then have no: "\<not> (\<forall>k < 2. shadow_word (unat (104 :: u32) + k))" by (meson one_less_numeral_iff semiring_norm(76))
  from shadow_register_round_trip [OF small(1), of blank_hw, unfolded six if_P [OF yes]] obtain h' where
    h': "shadow_write_register 103 ?data blank_hw = (Ok (), h')" "shadow_read_register 103 (replicate 6 0) h' = (Ok ?data, h')"
      "\<forall>k < 2. u32_to_le_bytes (shadow_mem h' (0x40130000 + 4 * (103 + of_nat k))) = take 4 (drop (4 * k) ?data @ [0, 0, 0])"
    by blast
  from h'(3) [rule_format, of 1] have "u32_to_le_bytes (shadow_mem h' 0x401301A0) = [5, 6, 0, 0]" by simp
  with h'(1,2) shadow_register_round_trip [OF small(2), of blank_hw, unfolded six if_not_P [OF no]] show ?thesis by blast
qed

end
