(* ===== verification/Imxrt_Board.thy ===== *)
theory Imxrt_Board
  imports Slimloader Mock_Flash Mbi_Header Otp_Registers
begin

unbundle bit_operations_syntax

text \<open>
  \<open>libs/ec-slimloader-imxrt\<close>: the \<open>Board\<close> implementation for the i.MX RT (\<open>lib.rs\<close>), its image check
  (\<open>verification.rs\<close>) and the jump into the image (\<open>bootload.rs\<close>).

  Parameters stand for code outside the repository: the ROM (\<open>rom\<close>), the storage behind the image
  slots (\<open>pops\<close>, the \<open>ReadNorFlash\<close> items of a partition) and behind the journal (\<open>jops\<close>). The HAL
  initialisation in \<open>init\<close> (clocks, FlexSPI, partition manager) hands over the storages
  (\<open>imxrt_power_up\<close>, with the HAL as a parameter); \<open>imxrt_init\<close> starts from them and the machine. A read that fails leaves the RAM as it was. The register
  arguments of log messages are evaluated, as they are with \<open>defmt\<close>. Additions on \<open>usize\<close> wrap, as
  they do in a release build.

  The theory ends with the interpretation of \<open>board_contract\<close> on this board.
\<close>

section \<open>Configuration and state\<close>

definition IMAGE_TYPE_TZ_XIP_SIGNED :: u32 where
  "IMAGE_TYPE_TZ_XIP_SIGNED = 0x0004"

definition SYSTEM_CORE_CLOCK_HZ :: u32 where
  "SYSTEM_CORE_CLOCK_HZ = 2500000"

text \<open>
  \<open>ImxrtConfig\<close> and the \<open>BootStatePolicy\<close> of the same type; the two cargo features; the address of
  the ROM session's work buffer. Ranges are half open.
\<close>

record imxrt_config =
  SLOT_SIZE_RANGE :: "nat \<times> nat"
  LOAD_RANGE :: "u32 \<times> u32"
  cfg_default_state :: "(state, unit) res"
  cfg_is_valid_state :: "state \<Rightarrow> bool"
  feature_non_secure :: bool
  feature_mimxrt685s_evk :: bool
  user_buf_addr :: u32

fun range_contains :: "'a::linorder \<times> 'a \<Rightarrow> 'a \<Rightarrow> bool" where
  "range_contains (a, b) x \<longleftrightarrow> a \<le> x \<and> x < b"

record cpu =
  interrupts_enabled :: bool
  nvic_enabled :: "u32 list"
  nvic_pending :: "u32 list"
  nvic_priority :: "u8 list"
  vtor :: u32
  msp :: u32
  pc :: u32

record ('f, 'p, 'x) imxrt =
  im_journal :: "'f flash_journal"
  im_slots :: "'p list"
  im_hw :: "'x hw"
  im_cpu :: cpu

definition ram_slice :: "u32 \<Rightarrow> u32 \<Rightarrow> 'x hw \<Rightarrow> u8 list" where
  "ram_slice ptr len h = map (\<lambda>i. ram h (ptr + of_nat i)) [0..<unat len]"

definition write_ram :: "u32 \<Rightarrow> u8 list \<Rightarrow> 'x hw \<Rightarrow> 'x hw" where
  "write_ram ptr bs h =
     h\<lparr>ram := (\<lambda>a. if unat (a - ptr) < length bs then bs ! unat (a - ptr) else ram h a)\<rparr>"

section \<open>Checking the image\<close>

text \<open>\<open>Rkh::read_all_from_slice\<close>: four hashes of 32 bytes, here still in one piece.\<close>

definition read_all_from_slice :: "u8 list \<Rightarrow> u8 list list option" where
  "read_all_from_slice data =
     (if length data < 128 then None
      else Some [take 32 data, take 32 (drop 32 data), take 32 (drop 64 data), take 32 (drop 96 data)])"

definition to_rkth :: "'x rom_api \<Rightarrow> u8 list list \<Rightarrow> 'x hw \<Rightarrow> (u8 list, boot_error) res \<times> 'x hw" where
  "to_rkth rom rkhs h = (case sha256 rom (concat rkhs) h of (r, h) \<Rightarrow> (map_err (\<lambda>_. Hash) r, h))"

definition image_rkth :: "'x rom_api \<Rightarrow> ivt \<Rightarrow> 'x hw \<Rightarrow> (u8 list, boot_error) res \<times> 'x hw" where
  "image_rkth rom ram_ivt h =
     (let ram_image_slice = ram_slice (target_ptr ram_ivt) (image_len ram_ivt) h;
          cert_block_header_offset = header_offset ram_ivt
      in case slice_from (unat cert_block_header_offset) ram_image_slice of
           None \<Rightarrow> (Panic, h)
         | Some data \<Rightarrow>
             (case cert_header_read_from_slice data of
                None \<Rightarrow> (Err TooLarge, h)
              | Some cert_block_header \<Rightarrow>
                  (let rkhs_offset = cert_block_header_offset + header_length cert_block_header
                                       + certificate_table_length cert_block_header
                   in case slice_from (unat rkhs_offset) ram_image_slice of
                        None \<Rightarrow> (Panic, h)
                      | Some data \<Rightarrow>
                          (case read_all_from_slice data of
                             None \<Rightarrow> (Err TooLarge, h)
                           | Some rkhs \<Rightarrow> to_rkth rom rkhs h))))"

text \<open>\<open>shadow.boot_cfg_0().read()\<close> and its likes.\<close>

definition shadow_boot_cfg_0 :: "'x hw \<Rightarrow> (u8 list, not_shadow_register) res \<times> 'x hw" where
  "shadow_boot_cfg_0 = shadow_register BOOT_CFG0"

definition shadow_boot_cfg_1 :: "'x hw \<Rightarrow> (u8 list, not_shadow_register) res \<times> 'x hw" where
  "shadow_boot_cfg_1 = shadow_register BOOT_CFG1"

definition shadow_rkth :: "'x hw \<Rightarrow> (u8 list, not_shadow_register) res \<times> 'x hw" where
  "shadow_rkth = shadow_register RKTH"

definition secure_boot_disabled :: "u8 list \<Rightarrow> bool" where
  "secure_boot_disabled boot_cfg_0 \<longleftrightarrow> secure_boot_from (field_get secure_boot_en boot_cfg_0) = SecureBootDisabled"

text \<open>The three log lines on the shadow registers, before and after the reload.\<close>

definition log_shadow :: "'x hw \<Rightarrow> (unit, boot_error) res \<times> 'x hw" where
  "log_shadow h =
     and_then (unwrap_ok (shadow_boot_cfg_0 h)) (\<lambda>_ h.
     and_then (unwrap_ok (shadow_boot_cfg_1 h)) (\<lambda>_ h.
     and_then (unwrap_ok (shadow_rkth h)) (\<lambda>_ h. (Ok (), h))))"

definition reload_from_fuses :: "'x rom_api \<Rightarrow> 'x hw \<Rightarrow> (unit, boot_error) res \<times> 'x hw" where
  "reload_from_fuses rom h =
     and_then (unwrap_ok (otp_init rom SYSTEM_CORE_CLOCK_HZ h)) (\<lambda>_ h.
     and_then (unwrap_ok (fuse_register rom fuses_readonly BOOT_CFG0 h)) (\<lambda>_ h.
     and_then (unwrap_ok (fuse_register rom fuses_readonly BOOT_CFG1 h)) (\<lambda>_ h.
     and_then (unwrap_ok (fuse_register rom fuses_readonly RKTH h)) (\<lambda>_ h.
     and_then (unwrap_ok (reload_shadow rom h)) (\<lambda>_ h. (Ok (), otp_drop rom h))))))"

definition evk_fix :: "'x hw \<Rightarrow> (unit, boot_error) res \<times> 'x hw" where
  "evk_fix h =
     unwrap_ok (shadow_register_modify BOOT_CFG1
       (\<lambda>w. let w = field_set qspi_reset_pin_enable 1 w;
                w = field_set qspi_reset_pin_port 2 w;
                w = field_set qspi_reset_pin_num 12 w
            in w) h)"

definition select_rkth :: "u8 list \<Rightarrow> 'x hw \<Rightarrow> (unit, boot_error) res \<times> 'x hw" where
  "select_rkth rkth_of_image h =
     and_then (unwrap_ok (shadow_boot_cfg_0 h)) (\<lambda>boot_cfg_0 h.
     let dev_mode = secure_boot_disabled boot_cfg_0 in
     and_then (unwrap_ok (shadow_rkth h)) (\<lambda>rkth h.
     if rkth_of_image \<noteq> rkth then
       if dev_mode then unwrap_ok (shadow_register_write RKTH (\<lambda>w. rkth_of_image) h) else (Ok (), h)
     else (Ok (), h)))"

definition authenticate_image :: "imxrt_config \<Rightarrow> 'x rom_api \<Rightarrow> ivt \<Rightarrow> 'x hw \<Rightarrow> (unit, boot_error) res \<times> 'x hw" where
  "authenticate_image cfg rom ram_ivt h =
     (case skboot_authenticate rom (user_buf_addr cfg) 0 (target_ptr ram_ivt) (image_len ram_ivt) None h of
        (Ok _, h) \<Rightarrow> (Ok (), h)
      | (Err _, h) \<Rightarrow> (Err Authenticate, h)
      | (Panic, h) \<Rightarrow> (Panic, h))"

text \<open>With the feature \<open>non-secure\<close> another implementation of the trait \<open>CheckImage\<close> is compiled.\<close>

definition check_image_non_secure :: "ivt \<Rightarrow> 'x hw \<Rightarrow> (unit, boot_error) res \<times> 'x hw" where
  [simp]: "check_image_non_secure ram_ivt h = (Ok (), h)"

definition check_image :: "imxrt_config \<Rightarrow> 'x rom_api \<Rightarrow> ivt \<Rightarrow> 'x hw \<Rightarrow> (unit, boot_error) res \<times> 'x hw" where
  "check_image cfg rom ram_ivt h =
     (if feature_non_secure cfg then check_image_non_secure ram_ivt h
      else
        and_then (image_rkth rom ram_ivt h) (\<lambda>rkth_of_image h.
        and_then (log_shadow h) (\<lambda>_ h.
        and_then (reload_from_fuses rom h) (\<lambda>_ h.
        and_then (if feature_mimxrt685s_evk cfg then evk_fix h else (Ok (), h)) (\<lambda>_ h.
        and_then (log_shadow h) (\<lambda>_ h.
        and_then (select_rkth rkth_of_image h) (\<lambda>_ h.
        authenticate_image cfg rom ram_ivt h)))))))"

section \<open>Loading and starting the image\<close>

text \<open>The block of \<open>check_and_boot\<close> that copies the image from its slot to RAM.\<close>

definition load_image ::
    "imxrt_config \<Rightarrow> ('p, 'e) nor_flash \<Rightarrow> 'p \<Rightarrow> 'x hw \<Rightarrow> (ivt, boot_error) res \<times> 'p \<times> 'x hw" where
  "load_image cfg pops p h =
     (let slot_size = capacity pops p in
      if slot_size \<ge> snd (SLOT_SIZE_RANGE cfg) then (Err TooLarge, p, h)
      else
        (case ivt_read pops p of
           (Panic, p) \<Rightarrow> (Panic, p, h)
         | (Err _, p) \<Rightarrow> (Err IO, p, h)
         | (Ok ivt, p) \<Rightarrow>
             if image_type ivt \<noteq> IMAGE_TYPE_TZ_XIP_SIGNED then (Err Markers, p, h)
             else if unat (image_len ivt) > slot_size then (Err TooLarge, p, h)
             else if unat (image_len ivt) < fst (SLOT_SIZE_RANGE cfg) then (Err TooSmall, p, h)
             else
               (case target_end_ptr ivt of
                  None \<Rightarrow> (Err TooLarge, p, h)
                | Some image_target_end_ptr \<Rightarrow>
                    if \<not> range_contains (LOAD_RANGE cfg) (target_ptr ivt)
                        \<or> \<not> range_contains (LOAD_RANGE cfg) image_target_end_ptr
                    then (Err MemoryRegion, p, h)
                    else
                      (case flash_read pops 0 (unat (image_len ivt)) p of
                         (Panic, p) \<Rightarrow> (Panic, p, h)
                       | (Err _, p) \<Rightarrow> (Err IO, p, h)
                       | (Ok bytes, p) \<Rightarrow>
                           (let h = write_ram (target_ptr ivt) bytes h in
                            case ivt_read_from_slice (ram_slice (target_ptr ivt) (image_len ivt) h) of
                              Ok ram_ivt \<Rightarrow>
                                if ivt \<noteq> ram_ivt then (Err ChangeAfterRead, p, h) else (Ok ram_ivt, p, h)
                            | _ \<Rightarrow> (Err TooSmall, p, h))))))"

text \<open>
  \<open>boot_application\<close>: a write of ones to the clear-enable and clear-pending words, zero priorities,
  the vector table moved, and \<open>cortex_m::asm::bootload\<close>, which loads the stack pointer and the
  program counter from the first two words of the image.
\<close>

definition boot_application :: "u32 \<Rightarrow> 'x hw \<Rightarrow> cpu \<Rightarrow> cpu" where
  "boot_application boot_address h c =
     (let c = c\<lparr>interrupts_enabled := False\<rparr>;
          c = c\<lparr>nvic_enabled := map (\<lambda>w. w AND NOT 0xffffffff) (nvic_enabled c)\<rparr>;
          c = c\<lparr>nvic_pending := map (\<lambda>w. w AND NOT 0xffffffff) (nvic_pending c)\<rparr>;
          c = c\<lparr>nvic_priority := map (\<lambda>_. 0) (nvic_priority c)\<rparr>;
          c = c\<lparr>interrupts_enabled := True\<rparr>;
          c = c\<lparr>vtor := boot_address\<rparr>;
          vectors = ram_slice boot_address 8 h
      in c\<lparr>msp := u32_at 0 vectors, pc := u32_at 4 vectors\<rparr>)"

definition imxrt_check_and_boot ::
    "imxrt_config \<Rightarrow> 'x rom_api \<Rightarrow> ('p, 'e) nor_flash \<Rightarrow> slot \<Rightarrow> ('f, 'p, 'x) imxrt \<Rightarrow>
     (boot_outcome, unit) res \<times> ('f, 'p, 'x) imxrt" where
  "imxrt_check_and_boot cfg rom pops slot b =
     (let i = unat (slot_as_u8 slot) in
      if \<not> i < length (im_slots b) then (Ok (Returned SlotUnknown), b)
      else
        (case load_image cfg pops (im_slots b ! i) (im_hw b) of
           (r, p, h) \<Rightarrow>
             (let b = b\<lparr>im_slots := (im_slots b)[i := p], im_hw := h\<rparr> in
              case r of
                Panic \<Rightarrow> (Panic, b)
              | Err e \<Rightarrow> (Ok (Returned e), b)
              | Ok ram_ivt \<Rightarrow>
                  (case check_image cfg rom ram_ivt (im_hw b) of
                     (Panic, h) \<Rightarrow> (Panic, b\<lparr>im_hw := h\<rparr>)
                   | (Err e, h) \<Rightarrow> (Ok (Returned e), b\<lparr>im_hw := h\<rparr>)
                   | (Ok _, h) \<Rightarrow>
                       (Ok Booted, b\<lparr>im_hw := h,
                          im_cpu := boot_application (target_ptr ram_ivt) h (im_cpu b)\<rparr>)))))"

text \<open>
  The start of \<open>init\<close>, shared with the application: the HAL sets the clocks, probes the flash chip and
  wraps it in a storage; \<open>storage_hal\<close> are its functions, and \<open>None\<close> stands for its default clocks. A
  failure of either of the last two is a panic.
\<close>

datatype main_clk_src = PllMain

record hal_clocks =
  main_clk_src :: main_clk_src
  main_clk_div_int :: u32
  main_pll_pfd0 :: u8

record ('h, 'q, 's) storage_hal =
  hal_init :: "hal_clocks option \<Rightarrow> 'h"
  with_probed_config :: "'h \<Rightarrow> u32 \<Rightarrow> u32 \<Rightarrow> ('q, unit) res"
  nor_storage_new :: "u32 \<Rightarrow> u32 \<Rightarrow> u32 \<Rightarrow> 'q \<Rightarrow> ('s, unit) res"

definition READ_ALIGNMENT :: u32 where
  "READ_ALIGNMENT = 2"

definition WRITE_ALIGNMENT :: u32 where
  "WRITE_ALIGNMENT = 2"

definition STORAGE_ERASE_SIZE :: u32 where
  "STORAGE_ERASE_SIZE = 4096"

definition open_storage ::
    "('h, 'q, 's) storage_hal \<Rightarrow> hal_clocks option \<Rightarrow> u32 \<Rightarrow> u32 \<Rightarrow> u32 \<Rightarrow> ('s, unit) res" where
  "open_storage hal clocks rd wr er =
     (case with_probed_config hal (hal_init hal clocks) rd wr of
        Ok ext_flash \<Rightarrow> (case nor_storage_new hal rd wr er ext_flash of Ok storage \<Rightarrow> Ok storage | _ \<Rightarrow> Panic)
      | _ \<Rightarrow> Panic)"

definition imxrt_init ::
    "crc8 \<Rightarrow> ('f, 'e) nor_flash \<Rightarrow> nat \<Rightarrow> 'f \<times> 'p list \<times> 'x hw \<times> cpu \<Rightarrow> (('f, 'p, 'x) imxrt, unit) res" where
  "imxrt_init crc jops N partitions =
     (case partitions of (state, slots, h, c) \<Rightarrow>
        (case journal_new crc jops N state of
           (Ok j, _) \<Rightarrow> Ok \<lparr>im_journal = j, im_slots = slots, im_hw = h, im_cpu = c\<rparr>
         | (_, _) \<Rightarrow> Panic))"

definition imxrt_power_up ::
    "crc8 \<Rightarrow> ('f, 'e) nor_flash \<Rightarrow> nat \<Rightarrow> ('h, 'q, 's) storage_hal \<Rightarrow> ('s \<Rightarrow> 'f \<times> 'p list) \<Rightarrow> 'x hw \<Rightarrow> cpu \<Rightarrow>
     (('f, 'p, 'x) imxrt, unit) res" where
  "imxrt_power_up crc jops N hal partitions h c =
     (let clocks = \<lparr>main_clk_src = PllMain, main_clk_div_int = 4, main_pll_pfd0 = 20\<rparr> in
      res_bind (open_storage hal (Some clocks) READ_ALIGNMENT WRITE_ALIGNMENT STORAGE_ERASE_SIZE) (\<lambda>ext_flash.
      let (state, slots) = partitions ext_flash in imxrt_init crc jops N (state, slots, h, c)))"

definition imxrt_board ::
    "crc8 \<Rightarrow> ('f, 'd) nor_flash \<Rightarrow> imxrt_config \<Rightarrow> 'x rom_api \<Rightarrow> ('p, 'e) nor_flash \<Rightarrow>
     ('f \<times> 'p list \<times> 'x hw \<times> cpu, ('f, 'p, 'x) imxrt, 'f) board" where
  "imxrt_board crc jops cfg rom pops =
     \<lparr>default_state = cfg_default_state cfg,
      is_valid_state = cfg_is_valid_state cfg,
      board_init = imxrt_init crc jops,
      board_journal = im_journal,
      set_board_journal = (\<lambda>j b. b\<lparr>im_journal := j\<rparr>),
      check_and_boot = imxrt_check_and_boot cfg rom pops\<rparr>"

section \<open>The board keeps the contract\<close>

lemma imxrt_check_and_boot_journal:
  "imxrt_check_and_boot cfg rom pops sl b = (r, b') \<Longrightarrow> im_journal b' = im_journal b"
  by (auto simp: imxrt_check_and_boot_def Let_def split: if_splits prod.splits res.splits)

interpretation imxrt: board_contract crc "mock_ops g ptr" N "mock_journal_ok crc g ptr N"
  "\<lambda>j. mock_reliable (inner j)" "\<lambda>f. latest_state crc (mf_data f)"
  "imxrt_board crc (mock_ops g ptr) cfg rom pops" for crc g ptr N cfg rom pops
  by unfold_locales (auto simp: imxrt_board_def dest: imxrt_check_and_boot_journal)

section \<open>Memory\<close>

text \<open>A read that succeeds has filled its buffer: what the type of the buffer says in Rust.\<close>

definition reads_fill :: "('p, 'e) nor_flash \<Rightarrow> bool" where
  "reads_fill pops \<longleftrightarrow> (\<forall>off n p bs p'. flash_read pops off n p = (Ok bs, p') \<longrightarrow> length bs = n)"

lemma reads_fillD: "reads_fill pops \<Longrightarrow> flash_read pops off n p = (Ok bs, p') \<Longrightarrow> length bs = n"
  unfolding reads_fill_def by blast

lemma length_ram_slice [simp]: "length (ram_slice ptr len h) = unat len"
  by (simp add: ram_slice_def)

lemma unat_less_u32: "unat (w :: u32) < 4294967296"
proof -
  have "unat w < 2 ^ LENGTH(32)" by (rule unsigned_less)
  then show ?thesis by simp
qed

lemma ram_slice_write_ram:
  assumes "length bs = unat len"
  shows "ram_slice ptr len (write_ram ptr bs h) = bs"
proof (rule nth_equalityI)
  fix i
  assume "i < length (ram_slice ptr len (write_ram ptr bs h))"
  then have i: "i < unat len" by simp
  then have "i < 2 ^ 32" using unat_less_u32 [of len] by simp
  then have "unat (of_nat i :: u32) = i" by (rule unat_of_nat_u32)
  with i assms show "ram_slice ptr len (write_ram ptr bs h) ! i = bs ! i"
    by (simp add: ram_slice_def write_ram_def)
qed (use assms in simp)

text \<open>Nothing outside the written range changes, when the range does not wrap around.\<close>

lemma write_ram_outside:
  assumes "unat ptr + length bs < 2 ^ 32" and "unat a < unat ptr \<or> unat ptr + length bs \<le> unat a"
  shows "ram (write_ram ptr bs h) a = ram h a"
proof -
  have "length bs \<le> unat (a - ptr)"
    using assms unat_less_u32 [of ptr] unat_less_u32 [of a]
    by (auto simp: unat_sub_if')
  then show ?thesis by (simp add: write_ram_def)
qed

lemma write_ram_same [simp]: "h\<lparr>ram := ram (write_ram ptr bs h)\<rparr> = write_ram ptr bs h"
  by (simp add: write_ram_def)

text \<open>Either nothing was copied, or all the checks before the copy were passed.\<close>

lemma load_image_cases:
  assumes "load_image cfg pops p h = (r, p', h')"
  obtains (rejected) "h' = h" "\<And>i. r \<noteq> Ok i"
  | (copied) i p1 bytes e where
      "ivt_read pops p = (Ok i, p1)" "image_type i = IMAGE_TYPE_TZ_XIP_SIGNED"
      "capacity pops p < snd (SLOT_SIZE_RANGE cfg)"
      "unat (image_len i) \<le> capacity pops p" "fst (SLOT_SIZE_RANGE cfg) \<le> unat (image_len i)"
      "target_end_ptr i = Some e"
      "range_contains (LOAD_RANGE cfg) (target_ptr i)" "range_contains (LOAD_RANGE cfg) e"
      "flash_read pops 0 (unat (image_len i)) p1 = (Ok bytes, p')"
      "h' = write_ram (target_ptr i) bytes h"
      "\<And>j. r = Ok j \<Longrightarrow> j = i \<and> ivt_read_from_slice (ram_slice (target_ptr i) (image_len i) h') = Ok i"
  using assms
  by (auto simp: load_image_def Let_def not_le not_less
      split: if_splits prod.splits res.splits option.splits)

lemma target_end_ptr_Some:
  "target_end_ptr i = Some e \<longleftrightarrow>
     unat (target_ptr i) + unat (image_len i) < 2 ^ 32 \<and> unat e = unat (target_ptr i) + unat (image_len i)"
  by (auto simp: target_end_ptr_def checked_add_Some checked_add_def unat_word_ariths(1) take_bit_nat_eq_self
      word_unat_eq_iff)

lemma load_image_frame:
  assumes fill: "reads_fill pops" and run: "load_image cfg pops p h = (r, p', h')"
    and a: "\<not> range_contains (LOAD_RANGE cfg) a"
  shows "ram h' a = ram h a"
  using run
proof (cases rule: load_image_cases)
  case (copied i p1 bytes e)
  have len: "length bytes = unat (image_len i)" using reads_fillD [OF fill copied(9)] .
  from copied(6) have e: "unat (target_ptr i) + length bytes < 2 ^ 32" "unat e = unat (target_ptr i) + length bytes"
    by (simp_all add: target_end_ptr_Some len)
  obtain lo hi where "LOAD_RANGE cfg = (lo, hi)" by fastforce
  with a copied(7,8) e have "unat a < unat (target_ptr i) \<or> unat (target_ptr i) + length bytes \<le> unat a"
    by (simp add: word_le_nat_alt word_less_nat_alt) linarith
  from write_ram_outside [OF e(1) this] copied(10) show ?thesis by simp
qed simp

text \<open>The other way round: a slot that starts with an image whose header passes the checks is copied.\<close>

lemma stored_image_loads:
  assumes i: "ivt_read_from_slice out = Ok i" "unat (image_len i) = length out" "image_type i = IMAGE_TYPE_TZ_XIP_SIGNED"
    and slot: "capacity pops p = length (out @ padding)"
      "\<And>m. m \<le> length (out @ padding) \<Longrightarrow> flash_read pops 0 m p = (Ok (take m (out @ padding)), p)"
    and size: "length (out @ padding) < snd (SLOT_SIZE_RANGE cfg)" "fst (SLOT_SIZE_RANGE cfg) \<le> length out"
    and range: "unat (target_ptr i) + length out < 2 ^ 32" "range_contains (LOAD_RANGE cfg) (target_ptr i)"
      "range_contains (LOAD_RANGE cfg) (target_ptr i + image_len i)"
  shows "load_image cfg pops p h = (Ok i, p, write_ram (target_ptr i) out h)"
    and "ram_slice (target_ptr i) (image_len i) (write_ram (target_ptr i) out h) = out"
proof -
  have long: "64 \<le> length out" using i by (auto simp: ivt_read_from_slice_def split: if_splits)
  have "ivt_read_from_slice (take 64 (out @ padding)) = Ok i"
    using i long ivt_read_from_slice_take [of 64 out] by simp
  then have read: "ivt_read pops p = (Ok i, p)" using slot(2) [of 64] long by (simp add: ivt_read_def)
  have copy: "flash_read pops 0 (length out) p = (Ok out, p)" using slot(2) [of "length out"] by simp
  have ends: "target_end_ptr i = Some (target_ptr i + image_len i)"
    using range(1) i(2) by (simp add: target_end_ptr_def checked_add_def)
  show ram: "ram_slice (target_ptr i) (image_len i) (write_ram (target_ptr i) out h) = out"
    using i(2) by (intro ram_slice_write_ram) simp
  show "load_image cfg pops p h = (Ok i, p, write_ram (target_ptr i) out h)"
    using read ends copy ram i slot(1) size range by (simp add: load_image_def)
qed

section \<open>Shadow registers during the check\<close>

lemmas shadow_registers_eqs =
  shadow_boot_cfg_0_def shadow_boot_cfg_1_def shadow_rkth_def shadow_register_def shadow_register_write_def register_ops_eqs


lemma shadow_boot_cfg_total:
  "\<exists>bs. shadow_boot_cfg_0 h = (Ok bs, h)" "\<exists>bs. shadow_boot_cfg_1 h = (Ok bs, h)"
  using shadow_register_total [of BOOT_CFG0 h] shadow_register_total [of BOOT_CFG1 h]
  by (auto simp: shadow_boot_cfg_0_def shadow_boot_cfg_1_def device_registers_def)

lemma shadow_rkth_total: "\<exists>bs. shadow_rkth h = (Ok bs, h)"
  using shadow_register_total [of RKTH h] by (auto simp: shadow_rkth_def device_registers_def)

lemma authenticate_image_Ok [outcome_iffs]:
  "authenticate_image cfg rom i h = (Ok u, h') \<longleftrightarrow>
     skboot_authenticate rom (user_buf_addr cfg) 0 (target_ptr i) (image_len i) None h = (Ok u, h')"
  by (simp add: authenticate_image_def split: prod.splits res.splits)

lemma log_shadow_Ok [simp]: "log_shadow h = (Ok (), h)"
  using shadow_boot_cfg_total [of h] shadow_rkth_total [of h] by (auto simp: log_shadow_def)

lemma write_rkth:
  assumes "length rkth = 32"
  shows "\<exists>h'. shadow_register_write RKTH (\<lambda>w. rkth) h = (Ok (), h') \<and> shadow_rkth h' = (Ok rkth, h') \<and>
    h' = h\<lparr>shadow_mem := shadow_mem h'\<rparr>"
proof -
  have "shadow_accessible (reg_address RKTH) (reg_bits RKTH div 8)"
    by (rule shadow_register_accessible) (simp add: device_registers_def)
  then have acc: "shadow_accessible 120 (length rkth)" using assms by (simp add: RKTH_def)
  from shadow.write_total [OF this, of h] obtain h' where
    h': "shadow_write_register 120 rkth h = (Ok (), h')" "shadow_only h h'" by blast
  with shadow.read_written [OF acc h'(1)] assms show ?thesis by (auto simp: shadow_registers_eqs shadow_only_def)
qed

lemma select_rkth_effect:
  assumes "length img = 32"
  shows "\<exists>cfg0 h'. shadow_boot_cfg_0 h = (Ok cfg0, h) \<and> select_rkth img h = (Ok (), h') \<and>
    (if secure_boot_disabled cfg0
     then shadow_rkth h' = (Ok img, h') \<and> h' = h\<lparr>shadow_mem := shadow_mem h'\<rparr> else h' = h)"
proof -
  obtain cfg0 rkth where "shadow_boot_cfg_0 h = (Ok cfg0, h)" "shadow_rkth h = (Ok rkth, h)"
    using shadow_boot_cfg_total(1) [of h] shadow_rkth_total [of h] by auto
  with write_rkth [OF assms, of h] show ?thesis by (auto simp: select_rkth_def)
qed

end
