(* ===== verification/Demo_Device.thy ===== *)
theory Demo_Device
  imports Imxrt_Board
begin

text \<open>
  A concrete device for the witnesses: image slots in plain memory, a ROM that opens its sessions,
  reads zero fuses and accepts every image, the address ranges of the example bootloader, and one
  signed image of 224 bytes (vector table, certificate block header without certificates, four root
  key hashes).
\<close>

definition slot_ops :: "(u8 list, unit) nor_flash" where
  "slot_ops =
     \<lparr>ERASE_SIZE = 4096,
      capacity = length,
      flash_read = (\<lambda>off n p.
        if unat off + n \<le> length p then (Ok (take n (drop (unat off) p)), p) else (Err (), p)),
      flash_erase = (\<lambda>a b p. (Err (), p)),
      flash_write = (\<lambda>a bs p. (Err (), p))\<rparr>"

definition demo_rom :: "unit rom_api" where
  "demo_rom =
     \<lparr>iap_init = (\<lambda>_ h. ((0, 0), h)),
      iap_deinit = (\<lambda>_ h. (0, h)),
      rom_authenticate = (\<lambda>_ _ h. ((0x5ac3c35a, 0x55aacc33), h)),
      mask_hashcrypt = (\<lambda>h. h),
      otp_driver_init = (\<lambda>_ h. (0, h)),
      otp_driver_deinit = (\<lambda>h. (0, h)),
      fuse_read = (\<lambda>_ h. ((0, [0, 0, 0, 0]), h)),
      fuse_program = (\<lambda>_ _ _ h. (0, h)),
      otp_reload = (\<lambda>h. (0, h)),
      sha256 = (\<lambda>_ h. (Ok (replicate 32 0), h))\<rparr>"

definition demo_config :: imxrt_config where
  "demo_config =
     \<lparr>SLOT_SIZE_RANGE = (64, 1024 * 1024),
      LOAD_RANGE = (0x10020000, 0x10180000),
      cfg_default_state = policy_default_state crc8_opensafety,
      cfg_is_valid_state = policy_is_valid_state,
      feature_non_secure = False,
      feature_mimxrt685s_evk = False,
      user_buf_addr = 0x30176000\<rparr>"

definition demo_image_at :: "u32 \<Rightarrow> u8 list" where
  "demo_image_at off =
     replicate 32 0 @ u32_to_le_bytes 224 @ u32_to_le_bytes 4 @ u32_to_le_bytes off @
     replicate 8 0 @ u32_to_le_bytes 0x10020000 @ replicate 8 0 @
     (replicate 8 0 @ u32_to_le_bytes 32 @ replicate 20 0) @ replicate 128 0"

abbreviation demo_image :: "u8 list" where
  "demo_image \<equiv> demo_image_at 64"

definition demo_cpu :: cpu where
  "demo_cpu =
     \<lparr>interrupts_enabled = True, nvic_enabled = [1], nvic_pending = [2], nvic_priority = [3],
      vtor = 0, msp = 0, pc = 0\<rparr>"

definition demo_ivt_at :: "u32 \<Rightarrow> ivt" where
  "demo_ivt_at off = \<lparr>image_len = 224, image_type = 4, header_offset = off, target_ptr = 0x10020000\<rparr>"

abbreviation demo_ivt :: ivt where
  "demo_ivt \<equiv> demo_ivt_at 64"

lemma length_demo_image [simp]: "length (demo_image_at off) = 224"
  by (simp add: demo_image_at_def)

lemma demo_image_ivt: "ivt_read_from_slice (demo_image_at off) = Ok (demo_ivt_at off)"
proof -
  have "u32_at 0x20 (demo_image_at off) = 224" "u32_at 0x24 (demo_image_at off) = 4"
    "u32_at 0x28 (demo_image_at off) = off" "u32_at 0x34 (demo_image_at off) = 0x10020000"
    by (simp_all add: demo_image_at_def u32_at_def)
  then show ?thesis by (simp add: ivt_read_from_slice_def demo_ivt_at_def)
qed

lemma slot_ops_read: "unat off + n \<le> length p \<Longrightarrow>
    flash_read slot_ops off n p = (Ok (take n (drop (unat off) p)), p)"
  by (simp add: slot_ops_def)

lemma slot_ops_fill: "reads_fill slot_ops"
  unfolding reads_fill_def slot_ops_def by (auto split: if_splits)

lemma demo_ivt_read: "ivt_read slot_ops (demo_image_at off) = (Ok (demo_ivt_at off), demo_image_at off)"
  using demo_image_ivt ivt_read_from_slice_take [of 64 "demo_image_at off"]
  by (simp add: ivt_read_def slot_ops_read)

lemma demo_load:
  assumes "SLOT_SIZE_RANGE cfg = SLOT_SIZE_RANGE demo_config" and "LOAD_RANGE cfg = LOAD_RANGE demo_config"
  shows "load_image cfg slot_ops (demo_image_at off) h =
    (Ok (demo_ivt_at off), demo_image_at off, write_ram 0x10020000 (demo_image_at off) h)"
proof -
  have "target_end_ptr (demo_ivt_at off) = Some 0x100200E0"
    by (simp add: target_end_ptr_def checked_add_def demo_ivt_at_def)
  moreover have "ram_slice 0x10020000 224 (write_ram 0x10020000 (demo_image_at off) h) = demo_image_at off"
    by (rule ram_slice_write_ram) simp
  ultimately show ?thesis
    using assms demo_ivt_read demo_image_ivt
    by (simp add: load_image_def slot_ops_read)
      (simp add: slot_ops_def demo_config_def demo_ivt_at_def IMAGE_TYPE_TZ_XIP_SIGNED_def)
qed

lemma demo_fuses: "\<exists>bs. otp_read_register demo_rom otp i data h = (Ok bs, h)"
proof -
  have "read_fuse demo_rom j h = (Ok 0, h)" for j
    by (simp add: read_fuse_def demo_rom_def u32_from_le_bytes_def)
  then have "words_loop (read_fuse demo_rom) i 0 (chunks 4 data) h =
      (Ok (concat (map (\<lambda>k. take (length (chunks 4 data ! k)) (u32_to_le_bytes 0)) [0..<length (chunks 4 data)])), h)"
    by (intro words_loop_pure) simp
  then show ?thesis by (simp add: otp_read_register_def otp_words_to_data_def)
qed

lemma demo_reload:
  assumes "\<not> otp_initialized h"
  shows "reload_from_fuses demo_rom h = (Ok (), h)"
proof -
  let ?h = "h\<lparr>otp_initialized := True\<rparr>"
  obtain x y z where
    "otp_read_register demo_rom fuses_readonly 96 (replicate 4 0) ?h = (Ok x, ?h)"
    "otp_read_register demo_rom fuses_readonly 97 (replicate 4 0) ?h = (Ok y, ?h)"
    "otp_read_register demo_rom fuses_readonly 120 (replicate 32 0) ?h = (Ok z, ?h)"
    using demo_fuses by metis
  moreover have "otp_init demo_rom SYSTEM_CORE_CLOCK_HZ h = (Ok (), ?h)"
    using assms by (simp add: otp_init_def demo_rom_def)
  moreover have "reload_shadow demo_rom ?h = (Ok (), ?h)"
    by (simp add: reload_shadow_def demo_rom_def)
  moreover have "otp_drop demo_rom ?h = h"
    using assms by (cases h) (simp add: otp_drop_def demo_rom_def)
  ultimately show ?thesis by (simp only: reload_from_fuses_def fuse_register_def register_ops_eqs and_then.simps unwrap_ok.simps)
qed

lemma demo_image_rkth:
  assumes "ram_slice 0x10020000 224 h = demo_image"
  shows "image_rkth demo_rom demo_ivt h = (Ok (replicate 32 0), h)"
proof -
  have hdr: "cert_header_read_from_slice (drop 64 demo_image) =
      Some \<lparr>signature = 0, header_major_version = 0, header_minor_version = 0, header_length = 32,
        flags = 0, build_number = 0, total_image_length = 0, certificate_count = 0, certificate_table_length = 0\<rparr>"
    by (simp add: cert_header_read_from_slice_def cert_header_size_def)
      (simp add: demo_image_at_def u32_at_def u16_at_def u32_to_le_bytes_def u32_from_le_bytes_def
        u16_from_le_bytes_def)
  show ?thesis
    using assms hdr
    by (simp add: image_rkth_def slice_from_def read_all_from_slice_def demo_ivt_at_def to_rkth_def Let_def)
      (simp add: demo_rom_def)
qed

lemma demo_check_image:
  assumes "ram_slice 0x10020000 224 h = demo_image" and "\<not> otp_initialized h"
  shows "\<exists>h'. check_image demo_config demo_rom demo_ivt h = (Ok (), h') \<and> \<not> otp_initialized h'"
proof -
  have "length (replicate 32 (0 :: u8)) = 32" by simp
  from select_rkth_effect [OF this, of h] obtain h' where
    "select_rkth (replicate 32 0) h = (Ok (), h')" "h' = h \<or> h' = h\<lparr>shadow_mem := shadow_mem h'\<rparr>"
    by (auto split: if_splits)
  moreover from this(2) assms(2) have "\<not> otp_initialized h'"
    by (auto dest: arg_cong [of _ _ otp_initialized])
  moreover have "skboot_authenticate demo_rom bp rp start len None h' = (Ok (), h')" for bp rp start len
    by (simp add: skboot_authenticate_def demo_rom_def Let_def authenticate_verdict_Ok)
  ultimately show ?thesis
    using demo_image_rkth [OF assms(1)] demo_reload [OF assms(2)]
    by (simp add: check_image_def authenticate_image_def) (simp add: demo_config_def)
qed

text \<open>The image of a slot that holds it boots.\<close>

lemma demo_boots:
  assumes "unat (slot_as_u8 sl) < length (im_slots b)" and "im_slots b ! unat (slot_as_u8 sl) = demo_image"
    and "\<not> otp_initialized (im_hw b)"
  shows "\<exists>b'. imxrt_check_and_boot demo_config demo_rom slot_ops sl b = (Ok Booted, b') \<and>
    im_slots b' = im_slots b \<and> \<not> otp_initialized (im_hw b')"
proof -
  let ?h = "write_ram 0x10020000 demo_image (im_hw b)"
  have "ram_slice 0x10020000 224 ?h = demo_image" by (rule ram_slice_write_ram) simp
  moreover have "\<not> otp_initialized ?h" using assms(3) by (simp add: write_ram_def)
  ultimately obtain h' where "check_image demo_config demo_rom demo_ivt ?h = (Ok (), h')" "\<not> otp_initialized h'"
    using demo_check_image by blast
  moreover have "(im_slots b)[unat (slot_as_u8 sl) := demo_image] = im_slots b"
    using assms(1,2) by (metis list_update_id)
  ultimately show ?thesis
    using assms demo_load [of demo_config 64 "im_hw b"] by (simp add: imxrt_check_and_boot_def)
qed

end
