(* ===== verification/Journal_Tests.thy ===== *)
theory Journal_Tests
  imports Mock_Flash
begin

text \<open>
  The journal over the mock flash: the guarantees of \<open>Flash_Journal\<close> instantiated by the
  interpretation of \<open>Mock_Flash\<close>, and the two fuzz targets of
  \<open>libs/ec-slimloader-state/fuzz/fuzz_targets\<close> as functions of their input. A fuzz target passes on
  an input when it returns without panicking (a failed \<open>assert\<close> or \<open>unwrap\<close> is a panic); the
  theorems say that both pass on every input.
\<close>

section \<open>The fuzz targets\<close>

definition fuzz_geometry :: mock_geometry where
  "fuzz_geometry = \<lparr>PAGES = 4, BYTES_PER_WORD = 2, PAGE_WORDS = 16\<rparr>"

text \<open>
  \<open>interrupted.rs\<close>: the \<open>while let Some(new_state) = states.peek()\<close> loop. The loop may look at the
  same state twice (\<open>continue\<close>), so it runs on fuel; \<open>None\<close> is running out of it.
\<close>

fun interrupted_loop ::
    "crc8 \<Rightarrow> nat \<Rightarrow> nat \<Rightarrow> state list \<Rightarrow> state option \<Rightarrow> mock_flash flash_journal \<Rightarrow> (unit, unit) res option" where
  "interrupted_loop crc ptr 0 states prev_state journal = None"
| "interrupted_loop crc ptr (Suc fuel) [] prev_state journal = Some (Ok ())"
| "interrupted_loop crc ptr (Suc fuel) (new_state # rest) prev_state journal =
     (case journal_set crc (mock_ops fuzz_geometry ptr) 4 new_state journal of
        (Ok _, journal) \<Rightarrow>
          if journal_get journal = Some new_state
          then interrupted_loop crc ptr fuel rest (Some new_state) journal
          else Some Panic
      | (Err (Other (EarlyShutoff _ _)), journal) \<Rightarrow>
          (case journal_new crc (mock_ops fuzz_geometry ptr) 4 (remove_shutoff (inner journal)) of
             (Ok journal, _) \<Rightarrow>
               let old_state = journal_get journal in
               if old_state = prev_state then interrupted_loop crc ptr fuel (new_state # rest) prev_state journal
               else if old_state = Some new_state then Some (Ok ())
               else Some Panic
           | (_, _) \<Rightarrow> Some Panic)
      | (_, _) \<Rightarrow> Some Panic)"

definition fuzz_interrupted :: "crc8 \<Rightarrow> nat \<Rightarrow> nat \<Rightarrow> state list \<Rightarrow> nat \<Rightarrow> (unit, unit) res option" where
  "fuzz_interrupted crc ptr fuel states fail_at =
     (let flash = mock_new fuzz_geometry (Some (of_nat fail_at)) False in
      case journal_new crc (mock_ops fuzz_geometry ptr) 4 flash of
        (Ok journal, _) \<Rightarrow> interrupted_loop crc ptr fuel states None journal
      | (_, _) \<Rightarrow> Some Panic)"

text \<open>\<open>random-flash.rs\<close>: any bytes at the start of the flash, then one \<open>set\<close>.\<close>

definition random_geometry :: mock_geometry where
  "random_geometry = \<lparr>PAGES = 4, BYTES_PER_WORD = 2, PAGE_WORDS = 16\<rparr>"

definition fuzz_random_flash :: "crc8 \<Rightarrow> nat \<Rightarrow> u8 list \<Rightarrow> state \<Rightarrow> (unit, unit) res" where
  "fuzz_random_flash crc ptr random_data new_state =
     (let flash = mock_new random_geometry None False;
          len = min (length random_data) (length (mock_as_bytes flash));
          flash = mock_as_bytes_mut (copy_from_slice 0 (take len random_data)) flash
      in case journal_new crc (mock_ops random_geometry ptr) 4 flash of
           (Ok journal, _) \<Rightarrow>
             (case journal_set crc (mock_ops random_geometry ptr) 4 new_state journal of
                (Ok _, journal) \<Rightarrow> if journal_get journal = Some new_state then Ok () else Panic
              | (_, _) \<Rightarrow> Panic)
         | (_, _) \<Rightarrow> Panic)"

lemma random_geometry_eq: "random_geometry = fuzz_geometry"
  by (simp add: random_geometry_def fuzz_geometry_def)

section \<open>The journal of the fuzz targets\<close>

lemmas mock_journal_set = mock.journal_set_effect

lemma fuzz_mock_inv: "mock_inv fuzz_geometry (mock_new fuzz_geometry shutoff False)"
  by (rule mock_inv_new)
    (simp_all add: fuzz_geometry_def CAPACITY_BYTES_def CAPACITY_WORDS_def)

lemma latest_fresh: "latest_state crc (replicate n 0xff) = None"
proof -
  have "set (words (replicate n 0xff)) \<subseteq> {(0xff, 0xff)}"
  proof (induction n rule: nat_less_induct)
    case (1 n)
    then show ?case
      by (cases n; cases "n - 1") auto
  qed
  then show ?thesis by (auto simp: latest_state_def latest_None_iff)
qed

lemma interrupted_loop_reliable:
  assumes "mock_journal_inv crc fuzz_geometry ptr j" and "mock_reliable (inner j)"
    and "\<forall>s \<in> set states. valid_state crc s" and "length states < fuel"
  shows "interrupted_loop crc ptr fuel states prev j = Some (Ok ())"
  using assms
proof (induction states arbitrary: fuel prev j)
  case Nil
  then show ?case by (cases fuel) auto
next
  case (Cons s rest)
  then obtain n where n: "fuel = Suc n" "length rest < n" by (cases fuel) auto
  obtain r j' where run: "journal_set crc (mock_ops fuzz_geometry ptr) 4 s j = (r, j')" by fastforce
  have "valid_state crc s" "even (4 :: nat)" "2 \<le> (4 :: nat)" using Cons.prems by auto
  note eff = mock_journal_set [OF Cons.prems(1) this run]
  with Cons.IH [of j' n "Some s"] Cons.prems n run show ?case by auto
qed

lemma interrupted_loop_passes:
  assumes "mock_journal_inv crc fuzz_geometry ptr j" and "journal_get j = prev"
    and "\<forall>s \<in> set states. valid_state crc s" and "Suc (length states) < fuel"
  shows "interrupted_loop crc ptr fuel states prev j = Some (Ok ())"
  using assms
proof (induction states arbitrary: fuel prev j)
  case Nil
  then show ?case by (cases fuel) auto
next
  case (Cons s rest)
  let ?ops = "mock_ops fuzz_geometry ptr"
  obtain n where n: "fuel = Suc n" "Suc (length rest) < n" using Cons.prems by (cases fuel) auto
  obtain r j' where run: "journal_set crc ?ops 4 s j = (r, j')" by fastforce
  have s: "valid_state crc s" "even (4 :: nat)" "2 \<le> (4 :: nat)" using Cons.prems by auto
  note eff = mock_journal_set [OF Cons.prems(1) s run]
  note prev = Cons.prems(2) [symmetric, unfolded journal_inv_get [OF Cons.prems(1)]]
  show ?case
  proof (cases r)
    case (Ok u)
    with eff run n Cons.IH [of j' "Some s" n] Cons.prems show ?thesis by simp
  next
    case (Err e)
    with eff obtain a op where e: "e = Other (EarlyShutoff a op)"
      by (cases e; auto elim: is_early_shutoff.elims)
    let ?f = "remove_shutoff (inner j')"
    have "mock_inv fuzz_geometry ?f" "2 \<le> PAGES fuzz_geometry"
      using eff by (simp_all add: fuzz_geometry_def)
    from mock_journal_new [OF this s(2,3), of crc ptr] obtain j2 f2 where
      new: "journal_new crc ?ops 4 ?f = (Ok j2, f2)" "mock_journal_inv crc fuzz_geometry ptr j2"
        "inner j2 = f2" "journal_get j2 = latest_state crc (mf_data (inner j'))" "mock_reliable f2"
      by auto
    have "length (s # rest) < n" using n by simp
    note retry = interrupted_loop_reliable [OF new(2) _ Cons.prems(3) this, of prev]
    from Err e eff run n new retry prev show ?thesis by (auto simp: Let_def)
  next
    case Panic
    with eff show ?thesis by simp
  qed
qed

lemma fuzz_interrupted_run:
  "fuzz_interrupted crc ptr (length inputs + 2) (map (\<lambda>(st, a, b). state_new crc st a b) inputs) fail_at
     = Some (Ok ())"
proof -
  let ?f = "mock_new fuzz_geometry (Some (of_nat fail_at)) False"
  let ?states = "map (\<lambda>(st, a, b). state_new crc st a b) inputs"
  have "2 \<le> PAGES fuzz_geometry" "even (4 :: nat)" "2 \<le> (4 :: nat)"
    by (simp_all add: fuzz_geometry_def)
  from mock_journal_new [OF fuzz_mock_inv this] obtain j f' where
    new: "journal_new crc (mock_ops fuzz_geometry ptr) 4 ?f = (Ok j, f')"
      "mock_journal_inv crc fuzz_geometry ptr j" "journal_get j = latest_state crc (mf_data ?f)"
    by blast
  have "journal_get j = None" using new(3) by (simp add: mock_new_def latest_fresh)
  then have "interrupted_loop crc ptr (length inputs + 2) ?states None j = Some (Ok ())"
    by (intro interrupted_loop_passes [OF new(2)]) auto
  with new(1) show ?thesis by (simp add: fuzz_interrupted_def Let_def)
qed

lemma fuzz_random_flash_run:
  "fuzz_random_flash crc ptr random_data (state_new crc st a b) = Ok ()"
proof -
  let ?f0 = "mock_new fuzz_geometry None False"
  let ?len = "min (length random_data) (length (mf_data ?f0))"
  let ?f = "?f0\<lparr>mf_data := copy_from_slice 0 (take ?len random_data) (mf_data ?f0)\<rparr>"
  have "mock_inv fuzz_geometry ?f"
    using fuzz_mock_inv [of None] by (simp add: mock_inv_def mock_new_def)
  moreover have B: "2 \<le> PAGES fuzz_geometry" "even (4 :: nat)" "2 \<le> (4 :: nat)"
    by (simp_all add: fuzz_geometry_def)
  ultimately obtain j f' where new: "journal_new crc (mock_ops fuzz_geometry ptr) 4 ?f = (Ok j, f')"
      "mock_journal_inv crc fuzz_geometry ptr j" "inner j = f'" "mock_reliable ?f \<longrightarrow> mock_reliable f'"
    using mock_journal_new by blast
  have rel: "mock_reliable (inner j)" using new by (simp add: mock_reliable_def mock_new_def)
  obtain r j' where run: "journal_set crc (mock_ops fuzz_geometry ptr) 4 (state_new crc st a b) j = (r, j')"
    by fastforce
  note eff = mock_journal_set [OF new(2) valid_state_new B(2,3) run]
  from eff rel new(1) run show ?thesis by (simp add: fuzz_random_flash_def random_geometry_eq mock_as_bytes_def mock_as_bytes_mut_def Let_def)
qed

section \<open>Properties\<close>

text \<open>
  A small flash for the witnesses below: two pages of one word, erased, with the journal that
  \<open>new\<close> opens on it.
\<close>

definition tiny_geometry :: mock_geometry where
  "tiny_geometry = \<lparr>PAGES = 2, BYTES_PER_WORD = 2, PAGE_WORDS = 1\<rparr>"

definition tiny_journal :: "u32 option \<Rightarrow> mock_flash flash_journal" where
  "tiny_journal shutoff =
     \<lparr>inner = mock_new tiny_geometry shutoff False,
      cache = \<lparr>last_valid_state = None, first_empty_slot = Some 0\<rparr>\<rparr>"

lemma tiny_mock_inv: "mock_inv tiny_geometry (mock_new tiny_geometry shutoff False)"
  by (rule mock_inv_new) (simp_all add: tiny_geometry_def CAPACITY_BYTES_def CAPACITY_WORDS_def)

lemma tiny_scan:
  "scan crc 0 (words (mf_data (mock_new tiny_geometry shutoff False))) default_cache =
    \<lparr>last_valid_state = None, first_empty_slot = Some 0\<rparr>"
proof -
  have "mf_data (mock_new tiny_geometry shutoff False) = [0xff, 0xff, 0xff, 0xff]"
    by (simp add: mock_new_def tiny_geometry_def CAPACITY_BYTES_def CAPACITY_WORDS_def numeral_eq_Suc)
  then show ?thesis by (simp add: scan_chunk_def default_cache_def)
qed

lemma tiny_journal_inv: "mock_journal_inv crc tiny_geometry ptr (tiny_journal shutoff)"
proof -
  have "2 \<le> page_count (mock_ops tiny_geometry ptr) (mock_new tiny_geometry shutoff False)"
    by (simp add: mock_page_count [OF tiny_mock_inv]) (simp add: tiny_geometry_def)
  then show ?thesis
    by (simp add: journal_inv_def tiny_journal_def tiny_mock_inv tiny_scan)
qed

text \<open>
  C14. The cache is correct for every block size: on any flash contents, scanning with a buffer of any
  even size of at least two bytes yields the last valid entry with its address and the first blank
  word behind it, and leaves the contents alone.
\<close>

theorem compute_cache_correct:
  assumes "mock_inv g f" and "even B" and "2 \<le> B"
  shows "\<exists>c f'. compute_cache crc (mock_ops g ptr) B f = (Ok c, f') \<and> mf_data f' = mf_data f \<and>
    c = scan crc 0 (words (mf_data f)) default_cache \<and>
    last_spec crc (words (mf_data f)) (last_valid_state c) \<and>
    free_spec crc (words (mf_data f)) (first_empty_slot c)"
proof -
  obtain r f' where run: "compute_cache crc (mock_ops g ptr) B f = (r, f')" by fastforce
  from mock.compute_cache_effect [OF assms run] run scan_spec [of crc "words (mf_data f)"]
  show ?thesis by auto
qed

theorem compute_cache_correct_witness:
  "\<exists>c f'. compute_cache crc8_opensafety (mock_ops tiny_geometry 0) 4 (mock_new tiny_geometry None False) = (Ok c, f') \<and>
    first_empty_slot c = Some 0"
proof -
  have "even (4 :: nat)" "2 \<le> (4 :: nat)" by simp_all
  from compute_cache_correct [OF tiny_mock_inv [of None] this, of crc8_opensafety 0] show ?thesis
    by (auto simp: tiny_scan)
qed

text \<open>
  C13. \<open>set\<close> stores the state: on a flash that does not fail, every \<open>set\<close> of a valid state succeeds,
  \<open>get\<close> then returns it, a journal opened afresh on the flash returns it too, and the journal is in
  order for the next call, whichever of the four write paths is taken.
\<close>

theorem journal_set_persists:
  assumes "mock_journal_inv crc g ptr j" and "valid_state crc s" and "even B" and "2 \<le> B"
    and "mock_reliable (inner j)"
  shows "\<exists>j'. journal_set crc (mock_ops g ptr) B s j = (Ok (), j') \<and> journal_get j' = Some s \<and>
    latest_state crc (mf_data (inner j')) = Some s \<and>
    mock_journal_inv crc g ptr j' \<and> mock_reliable (inner j')"
proof -
  obtain r j' where run: "journal_set crc (mock_ops g ptr) B s j = (r, j')" by fastforce
  note eff = mock_journal_set [OF assms(1-4) run]
  then have "mock_journal_inv crc g ptr j'" "journal_get j' = Some s" using assms(5) by auto
  with eff assms(5) run journal_inv_get [OF this(1)] show ?thesis by auto
qed

theorem journal_set_persists_witness:
  "\<exists>j'. journal_set crc8_opensafety (mock_ops tiny_geometry 0) 4
       (state_new crc8_opensafety Initial S1 S0) (tiny_journal None) = (Ok (), j') \<and>
     journal_get j' = Some (state_new crc8_opensafety Initial S1 S0)"
proof -
  have "even (4 :: nat)" "2 \<le> (4 :: nat)" "mock_reliable (inner (tiny_journal None))"
    by (simp_all add: mock_reliable_def tiny_journal_def mock_new_def)
  from journal_set_persists [OF tiny_journal_inv [of crc8_opensafety 0 None]
      valid_state_new [of crc8_opensafety Initial S1 S0] this]
  show ?thesis by blast
qed

text \<open>
  C12. \<open>set\<close> is atomic under power failure: cut short at any byte of any of its writes and erases, it
  reports nothing but the storage's own early-shutoff error, and a journal opened afresh on what is
  left of the flash works and holds either the state from before the call or the new one.
\<close>

theorem journal_set_crash_safe:
  assumes "mock_journal_inv crc g ptr j" and "valid_state crc s" and "even B" and "2 \<le> B"
    and "journal_set crc (mock_ops g ptr) B s j = (r, j')"
  shows "fails_only (storage_failure is_early_shutoff) r \<and>
    (\<exists>j2 f2. journal_new crc (mock_ops g ptr) B (remove_shutoff (inner j')) = (Ok j2, f2) \<and>
       mock_journal_inv crc g ptr j2 \<and> mock_reliable (inner j2) \<and>
       (journal_get j2 = journal_get j \<or> journal_get j2 = Some s) \<and>
       (r = Ok () \<longrightarrow> journal_get j2 = Some s))"
proof -
  note eff = mock_journal_set [OF assms]
  have "2 \<le> PAGES g" using assms(1) mock_page_count [of g "inner j" ptr] by (simp add: journal_inv_def)
  with eff mock_journal_new [of g "remove_shutoff (inner j')" B crc ptr] assms(3,4) obtain j2 f2 where
    "journal_new crc (mock_ops g ptr) B (remove_shutoff (inner j')) = (Ok j2, f2)"
    "mock_journal_inv crc g ptr j2" "inner j2 = f2" "mock_reliable f2"
    "journal_get j2 = latest_state crc (mf_data (inner j'))"
    by auto
  with eff journal_inv_get [OF assms(1)] journal_inv_get [of crc "mock_ops g ptr" mf_data "mock_inv g" j']
  show ?thesis by auto
qed

theorem journal_set_crash_safe_witness:
  "\<exists>r j'. journal_set crc8_opensafety (mock_ops tiny_geometry 0) 4
       (state_new crc8_opensafety Initial S1 S0) (tiny_journal (Some 1)) = (r, j') \<and>
     fails_only (storage_failure is_early_shutoff) r"
proof -
  obtain r j' where run: "journal_set crc8_opensafety (mock_ops tiny_geometry 0) 4
      (state_new crc8_opensafety Initial S1 S0) (tiny_journal (Some 1)) = (r, j')" by fastforce
  have "even (4 :: nat)" "2 \<le> (4 :: nat)" by simp_all
  from journal_set_crash_safe [OF tiny_journal_inv valid_state_new this run] run show ?thesis by blast
qed

end
