(* ===== verification/Boot_Properties.thy ===== *)
theory Boot_Properties
  imports Demo_Device Journal_Tests
begin

text \<open>
  The guarantees of the bootloader as a whole: the boot decision of \<open>Slimloader\<close> on the i.MX RT board
  of \<open>Imxrt_Board\<close>, with the journal on the mock flash. They are instances of the lemmas of
  \<open>board_contract\<close>, through the interpretation \<open>imxrt\<close>, and of the lemmas on loading and checking an
  image. The configuration, the ROM and the storage of the image slots stay parameters.
\<close>

abbreviation mock_board ::
    "crc8 \<Rightarrow> mock_geometry \<Rightarrow> nat \<Rightarrow> imxrt_config \<Rightarrow> 'x rom_api \<Rightarrow> ('p, 'e) nor_flash \<Rightarrow>
     (mock_flash \<times> 'p list \<times> 'x hw \<times> cpu, (mock_flash, 'p, 'x) imxrt, mock_flash) board" where
  "mock_board crc g ptr cfg rom pops \<equiv> imxrt_board crc (mock_ops g ptr) cfg rom pops"

lemma imxrt_board_simps [simp]:
  "board_journal (imxrt_board crc jops cfg rom pops) = im_journal"
  "default_state (imxrt_board crc jops cfg rom pops) = cfg_default_state cfg"
  "is_valid_state (imxrt_board crc jops cfg rom pops) = cfg_is_valid_state cfg"
  "check_and_boot (imxrt_board crc jops cfg rom pops) = imxrt_check_and_boot cfg rom pops"
  "board_init (imxrt_board crc jops cfg rom pops) = imxrt_init crc jops"
  by (simp_all add: imxrt_board_def)

text \<open>The trait's own policy is one the bootloader can work with.\<close>

lemma policy_ok_default:
  assumes "cfg_default_state cfg = policy_default_state crc" and "cfg_is_valid_state cfg = policy_is_valid_state"
  shows "policy_ok crc (imxrt_board crc jops cfg rom pops)"
  using assms by (simp add: policy_ok_def policy_is_valid_state_def)

section \<open>Boards on the mock flash\<close>

abbreviation device_records where
  "device_records crc g ptr N cfg rom pops \<equiv>
     board_contract.recorded (mock_journal_ok crc g ptr N) (mock_board crc g ptr cfg rom pops)"

lemma recorded_iff:
  "device_records crc g ptr N cfg rom pops s b \<longleftrightarrow>
     mock_journal_ok crc g ptr N (im_journal b) \<and> fetch_state (mock_board crc g ptr cfg rom pops) b = Ok s"
  by (simp add: imxrt.recorded_def)

lemma journal_ok_fetch:
  assumes "policy_ok crc (mock_board crc g ptr cfg rom pops)" and "mock_journal_ok crc g ptr N (im_journal b)"
  obtains s where "device_records crc g ptr N cfg rom pops s b"
  using imxrt.recorded_exists [OF assms(1), of N b] assms(2) by auto

text \<open>A reset of the device: \<open>init\<close> on the flash of a journal in order finds the recorded state again.\<close>

lemma reset_records:
  assumes "device_records crc g ptr N cfg rom pops s b"
  shows "\<exists>b'. imxrt_init crc (mock_ops g ptr) N (inner (im_journal b), slots, h, c) = Ok b' \<and>
    device_records crc g ptr N cfg rom pops s b' \<and> im_slots b' = slots \<and> im_hw b' = h \<and>
    (mock_reliable (inner (im_journal b)) \<longrightarrow> mock_reliable (inner (im_journal b')))"
proof -
  have ok: "mock_journal_ok crc g ptr N (im_journal b)" using assms by (simp add: recorded_iff)
  from mock_journal_reopen [OF this] obtain j' f' where
    "journal_new crc (mock_ops g ptr) N (inner (im_journal b)) = (Ok j', f')"
    "mock_journal_ok crc g ptr N j'" "journal_get j' = journal_get (im_journal b)"
    "mock_reliable (inner (im_journal b)) \<longrightarrow> mock_reliable (inner j')"
    by blast
  with assms show ?thesis by (auto simp: imxrt_init_def recorded_iff fetch_state_def)
qed

section \<open>A concrete device\<close>

abbreviation demo_board where
  "demo_board \<equiv> mock_board crc8_opensafety tiny_geometry 0 demo_config demo_rom slot_ops"

definition demo_device :: "u32 option \<Rightarrow> (mock_flash, u8 list, unit) imxrt" where
  "demo_device shutoff =
     \<lparr>im_journal = tiny_journal shutoff, im_slots = [demo_image, demo_image], im_hw = blank_hw,
      im_cpu = demo_cpu\<rparr>"

lemma demo_policy: "policy_ok crc8_opensafety demo_board"
  by (rule policy_ok_default) (simp_all add: demo_config_def)

lemma demo_journal_ok: "mock_journal_ok crc8_opensafety tiny_geometry 0 4 (im_journal (demo_device shutoff))"
  by (simp add: mock_journal_ok_def demo_device_def tiny_journal_inv)

lemma demo_fetch: "fetch_state demo_board (demo_device shutoff) = Ok (state_new crc8_opensafety Initial S0 S0)"
  by (simp add: fetch_state_def demo_device_def tiny_journal_def journal_get_def demo_config_def)

definition demo_ready :: "(mock_flash, u8 list, unit) imxrt \<Rightarrow> bool" where
  "demo_ready b \<longleftrightarrow> im_slots b = [demo_image, demo_image] \<and> \<not> otp_initialized (im_hw b)"

lemma demo_ready_journal [simp]: "demo_ready (b\<lparr>im_journal := j\<rparr>) \<longleftrightarrow> demo_ready b"
  by (simp add: demo_ready_def)

lemma demo_verdict:
  "demo_ready b \<Longrightarrow> \<exists>b' e. imxrt_check_and_boot demo_config demo_rom slot_ops sl b =
     (Ok (if sl \<in> {S0, S1} then Booted else Returned e), b') \<and> demo_ready b'"
  using demo_boots [of sl b] by (cases sl) (auto simp: demo_ready_def imxrt_check_and_boot_def)

text \<open>A ready device on reliable storage boots as the abstract boot says.\<close>

lemma demo_boot:
  assumes "device_records crc8_opensafety tiny_geometry 0 N demo_config demo_rom slot_ops s b"
    and "mock_reliable (inner (im_journal b))" and "demo_ready b"
    and "abstract_boot (\<lambda>sl. sl \<in> {S0, S1}) s = (res, st)"
  shows "\<exists>b'. start_board crc8_opensafety (mock_ops tiny_geometry 0) N demo_board b = (Ok res, b') \<and>
    device_records crc8_opensafety tiny_geometry 0 N demo_config demo_rom slot_ops (with_status crc8_opensafety s st) b' \<and>
    mock_reliable (inner (im_journal b'))"
proof -
  have "mock_reliable (inner (board_journal demo_board b))" using assms(2) by simp
  note ref = imxrt.start_board_refines [where P = demo_ready, OF demo_policy assms(1) this assms(3) _ _ assms(4)]
  show ?thesis using ref demo_verdict by (simp add: imxrt_board_def)
qed

lemma demo_records:
  "device_records crc8_opensafety tiny_geometry 0 4 demo_config demo_rom slot_ops
     (state_new crc8_opensafety Initial S0 S0) (demo_device shutoff)"
  by (simp add: recorded_iff demo_journal_ok demo_fetch)

lemma demo_device_ready: "demo_ready (demo_device shutoff)" "mock_reliable (inner (im_journal (demo_device None)))"
  by (simp_all add: demo_ready_def demo_device_def blank_hw_def tiny_journal_def mock_reliable_def mock_new_def)

text \<open>Its first boot starts slot 0 and records the attempt.\<close>

lemma demo_start:
  "\<exists>b'. start_board crc8_opensafety (mock_ops tiny_geometry 0) 4 demo_board (demo_device None) = (Ok (Started S0), b') \<and>
    device_records crc8_opensafety tiny_geometry 0 4 demo_config demo_rom slot_ops
      (state_new crc8_opensafety Attempting S0 S0) b' \<and> mock_reliable (inner (im_journal b'))"
  using demo_boot [OF demo_records demo_device_ready(2,1), of "Started S0" Attempting]
  by (simp add: abstract_boot_def with_status_def)

section \<open>Properties of the boot decision\<close>

text \<open>
  C1. Whenever the bootloader hands control to an image, the journal says so: the recorded state is
  \<open>Attempting\<close> or \<open>Confirmed\<close> and the image is that of the target slot, or it is \<open>Failed\<close> and the image is
  that of the backup slot. This holds whether or not the storage fails on the way, since a state that
  cannot be recorded stops the boot before any image is started.
\<close>

theorem started_state_recorded:
  assumes "policy_ok crc (mock_board crc g ptr cfg rom pops)"
    and "mock_journal_ok crc g ptr N (im_journal b)"
    and "start_board crc (mock_ops g ptr) N (mock_board crc g ptr cfg rom pops) b = (Ok (Started sl), b')"
  shows "mock_journal_ok crc g ptr N (im_journal b') \<and>
    (\<exists>s. fetch_state (mock_board crc g ptr cfg rom pops) b' = Ok s \<and>
       (state_status s \<in> {Attempting, Confirmed} \<and> sl = state_target s \<or>
        state_status s = Failed \<and> sl = state_backup s))"
proof -
  obtain s where rec: "device_records crc g ptr N cfg rom pops s b"
    using journal_ok_fetch [OF assms(1,2)] .
  from imxrt.start_board_Ok [OF assms(1) rec assms(3)] show ?thesis
    unfolding recorded_iff by (cases "state_status s") auto
qed

theorem started_state_recorded_witness:
  "\<exists>b' s. start_board crc8_opensafety (mock_ops tiny_geometry 0) 4 demo_board (demo_device None) = (Ok (Started S0), b') \<and>
     fetch_state demo_board b' = Ok s \<and> state_status s \<noteq> Initial"
proof -
  obtain b' where run: "start_board crc8_opensafety (mock_ops tiny_geometry 0) 4 demo_board (demo_device None) =
      (Ok (Started S0), b')"
    using demo_start by blast
  from started_state_recorded [OF demo_policy demo_journal_ok run] run show ?thesis by auto
qed

text \<open>
  C4. The boot refines its abstract specification: on storage that does not fail, and when the image
  check of every slot returns, with a verdict that is fixed per slot (on boards with a property \<open>P\<close> that
  checks and journal updates keep), \<open>start\<close> ends with the result of \<open>abstract_boot\<close> (the target, else the
  backup, else giving up) and the journal holds its status. A check that panics instead of returning, as the one of
  \<open>bad_header_offset_panics\<close>, is excluded by that condition.
\<close>

theorem start_refines_abstract_boot:
  assumes "policy_ok crc (mock_board crc g ptr cfg rom pops)"
    and "mock_journal_ok crc g ptr N (im_journal b)"
    and "fetch_state (mock_board crc g ptr cfg rom pops) b = Ok s"
    and "mock_reliable (inner (im_journal b))"
    and "P b" and "\<And>j b. P b \<Longrightarrow> P (b\<lparr>im_journal := j\<rparr>)"
    and "\<And>sl b. P b \<Longrightarrow> \<exists>b' e. imxrt_check_and_boot cfg rom pops sl b =
           (Ok (if bootable sl then Booted else Returned e), b') \<and> P b'"
    and "abstract_boot bootable s = (res, st)"
  shows "\<exists>b'. start_board crc (mock_ops g ptr) N (mock_board crc g ptr cfg rom pops) b = (Ok res, b') \<and>
    fetch_state (mock_board crc g ptr cfg rom pops) b' = Ok (with_status crc s st) \<and>
    mock_journal_ok crc g ptr N (im_journal b') \<and> mock_reliable (inner (im_journal b'))"
proof -
  let ?B = "mock_board crc g ptr cfg rom pops"
  have rec: "device_records crc g ptr N cfg rom pops s b" using assms(2,3) by (simp add: recorded_iff)
  have rel: "mock_reliable (inner (board_journal ?B b))" using assms(4) by simp
  have "P (set_board_journal ?B j b)" if "P b" for j b
    using assms(6) that by (simp add: imxrt_board_def)
  moreover have "\<exists>b' e. check_and_boot ?B sl b = (Ok (if bootable sl then Booted else Returned e), b') \<and> P b'"
    if "P b" for sl b using assms(7) [OF that] by simp
  ultimately have "\<exists>b'. start_board crc (mock_ops g ptr) N ?B b = (Ok res, b') \<and>
      device_records crc g ptr N cfg rom pops (with_status crc s st) b' \<and>
      mock_reliable (inner (board_journal ?B b'))"
    by (rule imxrt.start_board_refines [where P = P, OF assms(1) rec rel assms(5) _ _ assms(8)])
  then show ?thesis by (auto simp: recorded_iff)
qed

theorem start_refines_abstract_boot_witness:
  "\<exists>b'. start_board crc8_opensafety (mock_ops tiny_geometry 0) 4 demo_board (demo_device None) = (Ok (Started S0), b') \<and>
     fetch_state demo_board b' = Ok (with_status crc8_opensafety (state_new crc8_opensafety Initial S0 S0) Attempting)"
proof -
  have keep: "\<And>j b. demo_ready b \<Longrightarrow> demo_ready (b\<lparr>im_journal := j\<rparr>)" by simp
  have "abstract_boot (\<lambda>sl. sl \<in> {S0, S1}) (state_new crc8_opensafety Initial S0 S0) = (Started S0, Attempting)"
    by (simp add: abstract_boot_def)
  from start_refines_abstract_boot [where P = demo_ready, OF demo_policy demo_journal_ok demo_fetch
      demo_device_ready(2,1) keep demo_verdict this]
  show ?thesis by blast
qed

text \<open>
  C5. Interrupted boots are safe: however a boot ends, including a panic in the middle of any journal
  update, the storage afterwards holds the state from before, the same state marked \<open>Attempting\<close> (only
  if it was \<open>Initial\<close>) or the same state marked \<open>Failed\<close>. The slots named in the journal never change,
  and a state the application confirmed is never turned back into an attempt.
\<close>

theorem interrupted_boot_keeps_state:
  assumes "policy_ok crc (mock_board crc g ptr cfg rom pops)"
    and "mock_journal_ok crc g ptr N (im_journal b)"
    and "fetch_state (mock_board crc g ptr cfg rom pops) b = Ok s"
    and "start_board crc (mock_ops g ptr) N (mock_board crc g ptr cfg rom pops) b = (r, b')"
  shows "latest_state crc (mf_data (inner (im_journal b'))) \<in>
    {journal_get (im_journal b), Some (with_status crc s Failed)} \<union>
    (if state_status s = Initial then {Some (with_status crc s Attempting)} else {})"
proof -
  have "device_records crc g ptr N cfg rom pops s b" using assms(2,3) by (simp add: recorded_iff)
  from imxrt.start_board_persisted [OF assms(1) this assms(4)] show ?thesis
    by (simp add: imxrt.outcomes_def)
qed

theorem interrupted_boot_keeps_state_witness:
  "\<exists>r b'. start_board crc8_opensafety (mock_ops tiny_geometry 0) 4 demo_board (demo_device (Some 1)) = (r, b') \<and>
     latest_state crc8_opensafety (mf_data (inner (im_journal b'))) \<in>
       {None, Some (state_new crc8_opensafety Failed S0 S0), Some (state_new crc8_opensafety Attempting S0 S0)}"
proof -
  obtain r b' where run: "start_board crc8_opensafety (mock_ops tiny_geometry 0) 4 demo_board (demo_device (Some 1)) = (r, b')"
    by fastforce
  have "journal_get (im_journal (demo_device (Some 1))) = None"
    by (simp add: demo_device_def tiny_journal_def journal_get_def)
  with interrupted_boot_keeps_state [OF demo_policy demo_journal_ok demo_fetch run] run show ?thesis
    by (auto simp: with_status_def)
qed

text \<open>
  C2. An image is started at most once without being confirmed: when a boot from a state that is not
  \<open>Confirmed\<close> has started an image and the device is reset before the application changes the journal,
  the next boot can only start the backup slot. The image slots, the memory and the processor may be in
  any state at the reset.
\<close>

theorem unconfirmed_image_rolls_back:
  assumes pol: "policy_ok crc (mock_board crc g ptr cfg rom pops)"
    and "mock_journal_ok crc g ptr N (im_journal b)"
    and "fetch_state (mock_board crc g ptr cfg rom pops) b = Ok s" and "state_status s \<noteq> Confirmed"
    and first: "start_board crc (mock_ops g ptr) N (mock_board crc g ptr cfg rom pops) b = (Ok (Started sl1), b1)"
    and again: "start crc (mock_ops g ptr) N (mock_board crc g ptr cfg rom pops) (inner (im_journal b1), slots, h, c) =
       (Ok (Started sl2), b2)"
  shows "sl2 = state_backup s"
proof -
  have "device_records crc g ptr N cfg rom pops s b" using assms(2,3) by (simp add: recorded_iff)
  from imxrt.start_board_Ok [OF pol this first] assms(4) obtain st1 where
    rec1: "device_records crc g ptr N cfg rom pops (with_status crc s st1) b1" and st1: "st1 \<in> {Attempting, Failed}"
    by (cases "state_status s") auto
  from reset_records [OF rec1, of slots h c] obtain b' where
    init: "imxrt_init crc (mock_ops g ptr) N (inner (im_journal b1), slots, h, c) = Ok b'"
    and rec': "device_records crc g ptr N cfg rom pops (with_status crc s st1) b'"
    by blast
  from again init obtain b3 where
    "start_board crc (mock_ops g ptr) N (mock_board crc g ptr cfg rom pops) b' = (Ok (Started sl2), b3)"
    by (auto simp: start_def split: prod.splits)
  from imxrt.start_board_Ok [OF pol rec' this] st1 show ?thesis by auto
qed

theorem unconfirmed_image_rolls_back_witness:
  "\<exists>b1 b2. start_board crc8_opensafety (mock_ops tiny_geometry 0) 4 demo_board (demo_device None) = (Ok (Started S0), b1) \<and>
     start crc8_opensafety (mock_ops tiny_geometry 0) 4 demo_board
       (inner (im_journal b1), [demo_image, demo_image], blank_hw, demo_cpu) = (Ok (Started S0), b2) \<and>
     S0 = state_backup (state_new crc8_opensafety Initial S0 S0)"
proof -
  let ?s = "state_new crc8_opensafety Attempting S0 S0"
  obtain b1 where first: "start_board crc8_opensafety (mock_ops tiny_geometry 0) 4 demo_board (demo_device None) =
      (Ok (Started S0), b1)"
    and rec1: "device_records crc8_opensafety tiny_geometry 0 4 demo_config demo_rom slot_ops ?s b1"
    and rel1: "mock_reliable (inner (im_journal b1))"
    using demo_start by blast
  obtain b' where init: "imxrt_init crc8_opensafety (mock_ops tiny_geometry 0) 4
      (inner (im_journal b1), [demo_image, demo_image], blank_hw, demo_cpu) = Ok b'"
    and rec': "device_records crc8_opensafety tiny_geometry 0 4 demo_config demo_rom slot_ops ?s b'"
    and slots: "im_slots b' = [demo_image, demo_image]" "im_hw b' = blank_hw"
    and rel': "mock_reliable (inner (im_journal b'))"
    using reset_records [OF rec1] rel1 by blast
  have "demo_ready b'" using slots by (simp add: demo_ready_def blank_hw_def)
  from demo_boot [OF rec' rel' this, of "Started S0" Failed] obtain b2 where
    "start_board crc8_opensafety (mock_ops tiny_geometry 0) 4 demo_board b' = (Ok (Started S0), b2)"
    by (auto simp: abstract_boot_def)
  with init have again: "start crc8_opensafety (mock_ops tiny_geometry 0) 4 demo_board
      (inner (im_journal b1), [demo_image, demo_image], blank_hw, demo_cpu) = (Ok (Started S0), Some b2)"
    by (simp add: start_def)
  have "state_status (state_new crc8_opensafety Initial S0 S0) \<noteq> Confirmed" by simp
  from unconfirmed_image_rolls_back [OF demo_policy demo_journal_ok demo_fetch this first again] first again
  show ?thesis by blast
qed

section \<open>Properties of loading and checking an image\<close>

lemma check_image_Ok:
  assumes "check_image cfg rom i h = (Ok (), h')" and "\<not> feature_non_secure cfg"
  obtains img h0 h1 h2 where "image_rkth rom i h = (Ok img, h0)" "select_rkth img h1 = (Ok (), h2)"
    "skboot_authenticate rom (user_buf_addr cfg) 0 (target_ptr i) (image_len i) None h2 = (Ok (), h')"
  using assms by (auto simp: check_image_def outcome_iffs)

lemma check_and_boot_Booted:
  assumes "imxrt_check_and_boot cfg rom pops sl b = (Ok Booted, b')"
  obtains i p' h1 h2 where "unat (slot_as_u8 sl) < length (im_slots b)"
    "load_image cfg pops (im_slots b ! unat (slot_as_u8 sl)) (im_hw b) = (Ok i, p', h1)"
    "check_image cfg rom i h1 = (Ok (), h2)" "im_hw b' = h2"
    "im_cpu b' = boot_application (target_ptr i) h2 (im_cpu b)"
  using assms by (auto simp: imxrt_check_and_boot_def Let_def split: if_splits prod.splits res.splits)

text \<open>
  C6. Loading is confined to the load range: whatever the slot holds, copying an image to RAM changes
  no byte outside \<open>LOAD_RANGE\<close> and nothing of the machine but the RAM, also for images whose length or
  load address is chosen to wrap around the address space.
\<close>

theorem load_image_memory_safe:
  assumes "reads_fill pops" and "load_image cfg pops p h = (r, p', h')"
    and "\<not> range_contains (LOAD_RANGE cfg) a"
  shows "ram h' a = ram h a \<and> h' = h\<lparr>ram := ram h'\<rparr>"
proof
  show "ram h' a = ram h a" using assms by (rule load_image_frame)
  show "h' = h\<lparr>ram := ram h'\<rparr>" using assms(2) by (cases rule: load_image_cases) simp_all
qed

theorem load_image_memory_safe_witness:
  "\<exists>r p' h'. load_image demo_config slot_ops demo_image blank_hw = (r, p', h') \<and> ram h' 0x10180000 = 0"
proof -
  have out: "\<not> range_contains (LOAD_RANGE demo_config) 0x10180000" by (simp add: demo_config_def)
  from load_image_memory_safe [OF slot_ops_fill demo_load [OF refl refl] out, of 64 blank_hw]
    demo_load [of demo_config 64 blank_hw]
  show ?thesis by (simp add: blank_hw_def)
qed

text \<open>
  C3. Only checked images are started: when \<open>check_and_boot\<close> starts an image in a secure build, the
  slot exists, the image has the signed type, its length lies within the slot and the configured
  range, every address it was copied to lies in \<open>LOAD_RANGE\<close>, the header in RAM is the one that was
  checked on flash, the ROM authenticated the bytes at exactly that address, and the processor's
  vector table is there.
\<close>

theorem booted_image_checked:
  assumes "reads_fill pops" and "\<not> feature_non_secure cfg"
    and "imxrt_check_and_boot cfg rom pops sl b = (Ok Booted, b')"
  shows "\<exists>i p' h1 h2. let p = im_slots b ! unat (slot_as_u8 sl) in
    unat (slot_as_u8 sl) < length (im_slots b) \<and>
    load_image cfg pops p (im_hw b) = (Ok i, p', h1) \<and>
    image_type i = IMAGE_TYPE_TZ_XIP_SIGNED \<and>
    fst (SLOT_SIZE_RANGE cfg) \<le> unat (image_len i) \<and> unat (image_len i) \<le> capacity pops p \<and>
    (\<forall>k \<le> unat (image_len i). range_contains (LOAD_RANGE cfg) (target_ptr i + of_nat k)) \<and>
    ivt_read_from_slice (ram_slice (target_ptr i) (image_len i) h1) = Ok i \<and>
    skboot_authenticate rom (user_buf_addr cfg) 0 (target_ptr i) (image_len i) None h2 = (Ok (), im_hw b') \<and>
    vtor (im_cpu b') = target_ptr i"
proof -
  obtain i p' h1 h2 where idx: "unat (slot_as_u8 sl) < length (im_slots b)"
    and load: "load_image cfg pops (im_slots b ! unat (slot_as_u8 sl)) (im_hw b) = (Ok i, p', h1)"
    and chk: "check_image cfg rom i h1 = (Ok (), h2)" "im_hw b' = h2"
    and cpu: "im_cpu b' = boot_application (target_ptr i) h2 (im_cpu b)"
    using check_and_boot_Booted [OF assms(3)] .
  from check_image_Ok [OF chk(1) assms(2)] obtain h3 where
    auth: "skboot_authenticate rom (user_buf_addr cfg) 0 (target_ptr i) (image_len i) None h3 = (Ok (), h2)"
    by blast
  from load show ?thesis
  proof (cases rule: load_image_cases)
    case (copied i' p1 bytes e)
    then have i: "i' = i" by auto
    have end_ptr: "unat (target_ptr i) + unat (image_len i) < 2 ^ 32"
      "unat e = unat (target_ptr i) + unat (image_len i)"
      using copied(6) i by (simp_all add: target_end_ptr_Some)
    have "range_contains (LOAD_RANGE cfg) (target_ptr i + of_nat k)" if "k \<le> unat (image_len i)" for k
    proof -
      have "unat (target_ptr i + of_nat k) = unat (target_ptr i) + k"
        using that end_ptr unat_of_nat_u32 [of k] by (simp add: unat_word_ariths(1) take_bit_nat_eq_self)
      with that end_ptr copied(7,8) i show ?thesis
        by (cases "LOAD_RANGE cfg") (simp add: word_le_nat_alt word_less_nat_alt)
    qed
    with copied i idx load auth chk(2) cpu show ?thesis
      by (intro exI [of _ i] exI [of _ p'] exI [of _ h1] exI [of _ h3])
        (simp add: Let_def boot_application_def)
  qed blast
qed

theorem booted_image_checked_witness:
  "\<exists>b' i p' h1. imxrt_check_and_boot demo_config demo_rom slot_ops S0 (demo_device None) = (Ok Booted, b') \<and>
     load_image demo_config slot_ops demo_image blank_hw = (Ok i, p', h1) \<and>
     vtor (im_cpu b') = target_ptr i"
proof -
  obtain b' where boot: "imxrt_check_and_boot demo_config demo_rom slot_ops S0 (demo_device None) = (Ok Booted, b')"
    using demo_verdict [OF demo_device_ready(1), of S0] by auto
  have "\<not> feature_non_secure demo_config" by (simp add: demo_config_def)
  from booted_image_checked [OF slot_ops_fill this boot] boot show ?thesis
    by (auto simp: demo_device_def Let_def)
qed

text \<open>
  C7. The root of trust cannot be replaced on a secured chip: for any image, the step before
  authentication succeeds; if the secure-boot field of \<open>BOOT_CFG0\<close> is set it leaves the machine
  untouched, so authentication uses the fused root key hash; only with the field at zero does it put
  the image's own hash into the shadow register, and then nothing but shadow registers changes.
\<close>

theorem root_of_trust_protected:
  assumes "length img = 32"
  shows "\<exists>cfg0 h'. shadow_boot_cfg_0 h = (Ok cfg0, h) \<and> select_rkth img h = (Ok (), h') \<and>
    (if secure_boot_disabled cfg0
     then shadow_rkth h' = (Ok img, h') \<and> h' = h\<lparr>shadow_mem := shadow_mem h'\<rparr> else h' = h)"
  using assms by (rule select_rkth_effect)

theorem root_of_trust_protected_witness:
  "\<exists>h'. select_rkth (replicate 32 7) blank_hw = (Ok (), h')"
proof -
  have "length (replicate 32 (7 :: u8)) = 32" by simp
  from root_of_trust_protected [OF this, of blank_hw] show ?thesis by blast
qed

text \<open>
  C20. A confirmed image with a bad header offset stops the device: when the state is \<open>Confirmed\<close> and
  the image in the target slot passes the checks up to the copy but names a certificate block behind
  its own end, the boot panics in \<open>check_image\<close> and leaves the journal as it was. The image is not
  marked \<open>Failed\<close> and the backup slot is not tried, on this boot or the next.
\<close>

theorem bad_header_offset_panics:
  assumes "\<not> feature_non_secure cfg"
    and "fetch_state (mock_board crc g ptr cfg rom pops) b = Ok s" and "state_status s = Confirmed"
    and "unat (slot_as_u8 (state_target s)) < length (im_slots b)"
    and "load_image cfg pops (im_slots b ! unat (slot_as_u8 (state_target s))) (im_hw b) = (Ok i, p', h1)"
    and "unat (image_len i) < unat (header_offset i)"
  shows "\<exists>b'. start_board crc (mock_ops g ptr) N (mock_board crc g ptr cfg rom pops) b = (Panic, b') \<and>
    im_journal b' = im_journal b"
proof -
  have "image_rkth rom i h1 = (Panic, h1)" using assms(6) by (simp add: image_rkth_def slice_from_def)
  then have "check_image cfg rom i h1 = (Panic, h1)" using assms(1) by (simp add: check_image_def)
  with assms(4,5) have "\<exists>b'. imxrt_check_and_boot cfg rom pops (state_target s) b = (Panic, b')"
    by (simp add: imxrt_check_and_boot_def)
  then obtain b' where c: "imxrt_check_and_boot cfg rom pops (state_target s) b = (Panic, b')" by blast
  with assms(2,3) imxrt_check_and_boot_journal [OF c] show ?thesis
    by (simp add: start_board_def determine_intent_def)
qed

theorem bad_header_offset_panics_witness:
  "\<exists>b'. start_board crc8_opensafety (mock_ops tiny_geometry 0) 4
     (mock_board crc8_opensafety tiny_geometry 0
        (demo_config\<lparr>cfg_default_state := Ok (state_new crc8_opensafety Confirmed S0 S1)\<rparr>) demo_rom slot_ops)
     ((demo_device None)\<lparr>im_slots := [demo_image_at 0x1000, demo_image]\<rparr>) = (Panic, b')"
proof -
  let ?cfg = "demo_config\<lparr>cfg_default_state := Ok (state_new crc8_opensafety Confirmed S0 S1)\<rparr>"
  let ?b = "(demo_device None)\<lparr>im_slots := [demo_image_at 0x1000, demo_image]\<rparr>"
  let ?s = "state_new crc8_opensafety Confirmed S0 S1"
  have cfg: "\<not> feature_non_secure ?cfg" "SLOT_SIZE_RANGE ?cfg = SLOT_SIZE_RANGE demo_config"
    "LOAD_RANGE ?cfg = LOAD_RANGE demo_config"
    by (simp_all add: demo_config_def)
  have fetch: "fetch_state (mock_board crc8_opensafety tiny_geometry 0 ?cfg demo_rom slot_ops) ?b = Ok ?s"
    by (simp add: fetch_state_def demo_device_def tiny_journal_def journal_get_def)
  have st: "state_status ?s = Confirmed" "unat (slot_as_u8 (state_target ?s)) < length (im_slots ?b)"
    by simp_all
  have load: "load_image ?cfg slot_ops (im_slots ?b ! unat (slot_as_u8 (state_target ?s))) (im_hw ?b) =
      (Ok (demo_ivt_at 0x1000), demo_image_at 0x1000, write_ram 0x10020000 (demo_image_at 0x1000) (im_hw ?b))"
    using demo_load [OF cfg(2,3)] by simp
  have "unat (image_len (demo_ivt_at 0x1000)) < unat (header_offset (demo_ivt_at 0x1000))"
    by (simp add: demo_ivt_at_def)
  from bad_header_offset_panics [OF cfg(1) fetch st load this] show ?thesis by blast
qed

end
