(* ===== verification/Journal_Log.thy ===== *)
theory Journal_Log
  imports Journal_Tests
begin

text \<open>
  What the journal leaves on storage that does not fail: a log. \<open>log_push\<close> says which entries the log
  holds after another \<open>set\<close>, \<open>log_image\<close> how the entries lie in the flash, and the lemmas follow the three
  write paths of \<open>set\<close> down to the words of the image, first over any lawful storage, then for the mock
  flash from its erased state on. \<open>garbled_image\<close> is the variant in which every page but the first holds
  words that are neither blank nor valid.
\<close>

section \<open>The log\<close>

definition log_push :: "nat \<Rightarrow> state list \<Rightarrow> state \<Rightarrow> state list" where
  "log_push W ss s = (if ss \<noteq> [] \<and> last ss = s then ss else if length ss < W then ss @ [s] else [s])"

definition log_image :: "nat \<Rightarrow> state list \<Rightarrow> u8 list" where
  "log_image W ss = concat (map as_bytes ss) @ replicate (2 * (W - length ss)) 0xff"

text \<open>The calls of \<open>set\<close> for a list of states, one after another.\<close>

fun set_all ::
    "crc8 \<Rightarrow> ('f, 'e) nor_flash \<Rightarrow> nat \<Rightarrow> state list \<Rightarrow> 'f flash_journal \<Rightarrow>
     (unit, 'e journal_error) res \<times> 'f flash_journal" where
  "set_all crc ops N [] j = (Ok (), j)"
| "set_all crc ops N (s # ss) j = and_then (journal_set crc ops N s j) (\<lambda>_ j. set_all crc ops N ss j)"

section \<open>The words of a log\<close>

abbreviation blank :: "u8 \<times> u8" where
  "blank \<equiv> (0xff, 0xff)"

definition entry :: "state \<Rightarrow> u8 \<times> u8" where
  "entry s = (data_byte s, crc_byte s)"

definition junk :: "crc8 \<Rightarrow> (u8 \<times> u8) list \<Rightarrow> bool" where
  "junk crc ws \<longleftrightarrow> (\<forall>w \<in> set ws. try_new crc w = Err Invalid)"

definition log_words :: "nat \<Rightarrow> state list \<Rightarrow> (u8 \<times> u8) list" where
  "log_words n ss = map entry ss @ replicate (n - length ss) blank"

lemma words_Nil_iff: "[] = words d \<longleftrightarrow> length d < 2"
  by (cases d rule: words.cases) auto

lemma words_inject: "even (length xs) \<Longrightarrow> even (length ys) \<Longrightarrow> words xs = words ys \<Longrightarrow> xs = ys"
proof (induction xs arbitrary: ys rule: words.induct)
  case (1 a b rest)
  from 1(4) show ?case
    by (cases ys rule: words.cases) (use 1 in auto)
qed (auto simp: words_Nil_iff less_2_cases_iff)

lemma length_log_bytes [simp]: "length (concat (map as_bytes ss)) = 2 * length ss"
  by (induction ss) (simp_all add: as_bytes_def)

lemma words_log_bytes: "words (concat (map as_bytes ss)) = map entry ss"
  by (induction ss) (simp_all add: as_bytes_def entry_def)

lemma words_log_image: "words (log_image W ss) = log_words W ss"
  by (simp add: log_image_def log_words_def words_append words_log_bytes words_replicate)

lemma length_log_image: "length ss \<le> W \<Longrightarrow> length (log_image W ss) = 2 * W"
  by (simp add: log_image_def)

lemma log_imageI:
  assumes "words d = log_words W ss" and "length d = 2 * W" and "length ss \<le> W"
  shows "d = log_image W ss"
  using assms by (intro words_inject) (simp_all add: words_log_image length_log_image)

text \<open>What a scan finds in a log.\<close>

lemma try_new_entry [simp]: "valid_state crc s \<Longrightarrow> try_new crc (entry s) = Ok s"
  by (simp add: entry_def valid_state_def)

lemma scan_entries:
  assumes "\<forall>s \<in> set ss. valid_state crc s" and "ss \<noteq> []"
  shows "scan crc 0 (map entry ss) c =
    \<lparr>last_valid_state = Some \<lparr>swa_state = last ss, swa_address = 2 * (length ss - 1)\<rparr>, first_empty_slot = None\<rparr>"
  using assms(2,1) by (induction ss rule: rev_nonempty_induct) (simp_all add: scan_snoc scan_chunk_def)

lemma scan_blanks:
  "scan crc a (replicate n blank) c =
     (if 0 < n \<and> first_empty_slot c = None then c\<lparr>first_empty_slot := Some a\<rparr> else c)"
  by (induction n arbitrary: a c) (auto simp: scan_chunk_def try_new_def)

lemma scan_junk: "junk crc ws \<Longrightarrow> scan crc a ws c = c"
  by (induction ws arbitrary: a) (simp_all add: junk_def scan_chunk_def)

definition log_cache :: "state list \<Rightarrow> bool \<Rightarrow> cache" where
  "log_cache ss free =
     \<lparr>last_valid_state = (if ss = [] then None else Some \<lparr>swa_state = last ss, swa_address = 2 * (length ss - 1)\<rparr>),
      first_empty_slot = (if free then Some (2 * length ss) else None)\<rparr>"

lemma scan_log:
  assumes "\<forall>s \<in> set ss. valid_state crc s" and "junk crc tail"
  shows "scan crc 0 (map entry ss @ replicate n blank @ tail) default_cache = log_cache ss (0 < n)"
  using scan_entries [OF assms(1)]
  by (cases "ss = []") (auto simp: scan_append scan_blanks scan_junk [OF assms(2)] log_cache_def default_cache_def)

lemma scan_log_words:
  "\<forall>s \<in> set ss. valid_state crc s \<Longrightarrow> scan crc 0 (log_words W ss) default_cache = log_cache ss (length ss < W)"
  using scan_log [of ss crc "[]" "W - length ss"] by (simp add: log_words_def junk_def)

definition holds_log :: "bool \<Rightarrow> crc8 \<Rightarrow> nat \<Rightarrow> state list \<Rightarrow> (u8 \<times> u8) list \<Rightarrow> bool" where
  "holds_log garbled crc p ss ws \<longleftrightarrow>
     (\<forall>s \<in> set ss. valid_state crc s) \<and> length ss \<le> length ws \<and>
     (ws = log_words (length ws) ss \<or> garbled \<and> length ss \<le> p \<and> (\<exists>tail. junk crc tail \<and> ws = log_words p ss @ tail))"

lemma holds_logE:
  assumes "holds_log garbled crc p ss ws"
  obtains n tail where "ws = map entry ss @ replicate n blank @ tail" "junk crc tail" "tail = [] \<or> garbled \<and> length ss + n = p"
    "\<forall>t \<in> set ss. valid_state crc t"
proof -
  from assms consider "ws = log_words (length ws) ss"
    | tail where "garbled" "length ss \<le> p" "junk crc tail" "ws = log_words p ss @ tail"
    unfolding holds_log_def by blast
  then show thesis
  proof cases
    case 1
    then show thesis using that [of "length ws - length ss" "[]"] assms by (auto simp: holds_log_def log_words_def junk_def)
  next
    case 2
    then show thesis using that [of "p - length ss" tail] assms by (auto simp: holds_log_def log_words_def)
  qed
qed

section \<open>The write paths on a log\<close>

lemma update_log:
  "(map entry ss @ replicate (Suc n) blank @ tail)[length ss := entry s] = map entry (ss @ [s]) @ replicate n blank @ tail"
  by (simp add: list_update_append)

context nor_flash_laws
begin

text \<open>A write that does not fail, at the level of words.\<close>

lemma write_entry_words:
  assumes "invar f" "reliable f" and "valid_state crc s" and k: "k < length (words (contents f))"
    and "words (contents f) ! k = blank"
  obtains f' where "flash_write ops (of_nat (2 * k)) (as_bytes s) f = (Ok (), f')" "invar f'" "reliable f'"
    "words (contents f') = (words (contents f))[k := entry s]" "length (contents f') = length (contents f)"
proof -
  obtain r f' where run: "flash_write ops (of_nat (2 * k)) (as_bytes s) f = (r, f')" by fastforce
  have k': "Suc (2 * k) < length (contents f)" using k even_capacity [OF assms(1)] by auto
  from write_entry_effect [OF assms(1,3) k' assms(5) run] assms(2) words_update(2) [OF k'] run show thesis
    by (intro that [of f']) (simp_all add: entry_def)
qed

lemma erase_first_page_words:
  assumes "invar f" "reliable f" and pages: "2 \<le> page_count ops f"
  obtains f' where "erase_pages ops 0 1 f = (Ok (), f')" "invar f'" "reliable f'"
    "words (contents f') = replicate (ERASE_SIZE ops div 2) blank @ drop (ERASE_SIZE ops div 2) (words (contents f))"
    "length (contents f') = length (contents f)"
proof -
  obtain r f' where run: "erase_pages ops 0 1 f = (r, f')" by fastforce
  have le: "ERASE_SIZE ops \<le> length (contents f)" using page_words(3) [OF assms(1) pages] by simp
  have "1 \<le> page_count ops f" using pages by simp
  from erase_pages_effect [OF assms(1) _ this run] assms(2) have "r = Ok ()" "invar f'" "reliable f'"
    "contents f' = erase_range 0 (ERASE_SIZE ops) (contents f)" by auto
  with run le words_erase_page [OF page_even [OF assms(1)] le] show thesis by (intro that [of f']) simp_all
qed

lemma erase_other_pages_words:
  assumes "invar f" "reliable f" and pages: "2 \<le> page_count ops f"
  obtains f' where "erase_pages ops 1 (page_count ops f) f = (Ok (), f')" "invar f'" "reliable f'"
    "words (contents f') = take (ERASE_SIZE ops div 2) (words (contents f)) @
       replicate (length (words (contents f)) - ERASE_SIZE ops div 2) blank"
    "length (contents f') = length (contents f)"
proof -
  let ?d = "contents f"
  obtain r f' where run: "erase_pages ops 1 (page_count ops f) f = (r, f')" by fastforce
  note P = page_words [OF assms(1) pages]
  have le: "ERASE_SIZE ops \<le> length ?d" using P(3) by simp
  have half: "(length ?d - ERASE_SIZE ops) div 2 = length ?d div 2 - ERASE_SIZE ops div 2"
    using P(1) even_capacity [OF assms(1)] by (metis diff_mult_distrib2 dvd_mult_div_cancel nonzero_mult_div_cancel_left zero_neq_numeral)
  have "1 \<le> page_count ops f" using pages by simp
  from erase_pages_effect [OF assms(1) this order_refl run] assms(2) have "r = Ok ()" "invar f'" "reliable f'"
    "contents f' = erase_range (ERASE_SIZE ops) (length ?d) ?d" by (auto simp: page_count_eq [OF assms(1)])
  with run le words_erase_to_end [OF page_even [OF assms(1)] le even_capacity [OF assms(1)]] half show thesis
    by (intro that [of f']) simp_all
qed

text \<open>The three paths: into the free part, behind garbage, and around to the first page.\<close>

lemma write_into_free:
  assumes "invar f" "reliable f" and "valid_state crc s"
    and ws: "words (contents f) = map entry ss @ replicate (Suc n) blank @ tail"
  obtains f' where "write_inner ops s (log_cache ss True) f = (Ok (), f')" "invar f'" "reliable f'"
    "words (contents f') = map entry (ss @ [s]) @ replicate n blank @ tail" "length (contents f') = length (contents f)"
proof -
  have k: "length ss < length (words (contents f))" "words (contents f) ! length ss = blank"
    unfolding ws by (simp_all add: nth_append)
  obtain f' where "flash_write ops (of_nat (2 * length ss)) (as_bytes s) f = (Ok (), f')" "invar f'" "reliable f'"
    "words (contents f') = (words (contents f))[length ss := entry s]" "length (contents f') = length (contents f)"
    by (rule write_entry_words [OF assms(1-3) k])
  then show thesis
    by (intro that [of f']) (simp_all add: write_inner_def log_cache_def ws list_update_append)
qed

lemma write_behind_garbage:
  assumes "invar f" "reliable f" and "valid_state crc s" and pages: "2 \<le> page_count ops f"
    and ss: "length ss = ERASE_SIZE ops div 2" and ws: "words (contents f) = map entry ss @ tail"
  obtains f' where "write_inner ops s (log_cache ss False) f = (Ok (), f')" "invar f'" "reliable f'"
    "words (contents f') = log_words (length (words (contents f))) (ss @ [s])" "length (contents f') = length (contents f)"
proof -
  let ?p = "ERASE_SIZE ops div 2" and ?W = "length (words (contents f))"
  note P = page_words [OF assms(1) pages]
  have W: "2 * ?p \<le> ?W" using P by simp
  obtain g where er: "erase_pages ops 1 (page_count ops f) f = (Ok (), g)" and g: "invar g" "reliable g"
    "words (contents g) = take ?p (words (contents f)) @ replicate (?W - ?p) blank" "length (contents g) = length (contents f)"
    by (rule erase_other_pages_words [OF assms(1,2) pages])
  obtain n where n: "?W - ?p = Suc n" using W P(2) by (cases "?W - ?p") auto
  have gw: "words (contents g) = map entry ss @ replicate (Suc n) blank @ []" using g(3) ss n by (simp add: ws)
  have k: "?p < length (words (contents g))" "words (contents g) ! ?p = blank"
    unfolding gw using ss by (simp_all add: nth_append)
  obtain f' where wr: "flash_write ops (of_nat (2 * ?p)) (as_bytes s) g = (Ok (), f')" and f': "invar f'" "reliable f'"
    "words (contents f') = (words (contents g))[?p := entry s]" "length (contents f') = length (contents g)"
    by (rule write_entry_words [OF g(1,2) assms(3) k])
  have len: "?W - length (ss @ [s]) = n" using n ss by simp
  have "words (contents f') = log_words ?W (ss @ [s])"
    using f'(3) update_log [of ss n "[]" s] ss unfolding gw log_words_def len by simp
  moreover have "address_to_page_i ops (of_nat (2 * (length ss - 1))) = 0"
    using address_to_page_i_eq [OF assms(1), of "2 * (length ss - 1)"] P ss by simp
  then have "write_inner ops s (log_cache ss False) f = (Ok (), f')"
    using er wr P ss by (auto simp: write_inner_def log_cache_def)
  ultimately show thesis using that f' g(4) by simp
qed

lemma write_around:
  assumes "invar f" "reliable f" and "valid_state crc s" and pages: "2 \<le> page_count ops f"
    and ws: "words (contents f) = map entry ss"
  obtains f' where "write_inner ops s (log_cache ss False) f = (Ok (), f')" "invar f'" "reliable f'"
    "words (contents f') = log_words (length (words (contents f))) [s]" "length (contents f') = length (contents f)"
proof -
  let ?p = "ERASE_SIZE ops div 2" and ?W = "length (words (contents f))"
  note P = page_words [OF assms(1) pages]
  have W: "2 * ?p \<le> ?W" "length ss = ?W" using P length_words [of "contents f"] by (linarith, simp add: ws)
  obtain g where er: "erase_pages ops 0 1 f = (Ok (), g)" and g: "invar g" "reliable g"
    "words (contents g) = replicate ?p blank @ drop ?p (words (contents f))" "length (contents g) = length (contents f)"
    by (rule erase_first_page_words [OF assms(1,2) pages])
  obtain q where q: "?p = Suc q" using P(2) by (cases ?p) auto
  have k: "0 < length (words (contents g))" "words (contents g) ! 0 = blank" using g(3) q by simp_all
  obtain h where wr: "flash_write ops (of_nat (2 * 0)) (as_bytes s) g = (Ok (), h)" and h: "invar h" "reliable h"
    "words (contents h) = (words (contents g))[0 := entry s]" "length (contents h) = length (contents g)"
    by (rule write_entry_words [OF g(1,2) assms(3) k])
  have pg: "page_count ops h = page_count ops f" using h g assms(1) by (simp add: page_count_def capacity_law)
  obtain f' where er2: "erase_pages ops 1 (page_count ops h) h = (Ok (), f')" and f': "invar f'" "reliable f'"
    "words (contents f') = take ?p (words (contents h)) @ replicate (length (words (contents h)) - ?p) blank"
    "length (contents f') = length (contents h)"
    by (rule erase_other_pages_words [OF h(1,2)]) (use pages pg in simp_all)
  have len: "q + (?W - ?p) = ?W - 1" using W q by linarith
  have "words (contents f') = log_words ?W [s]"
    using f'(3) h(3,4) g(3,4) q len by (simp add: log_words_def replicate_add [symmetric])
  moreover have "ERASE_SIZE ops \<le> 2 * (length ss - 1)" using W P by linarith
  then have "0 < address_to_page_i ops (of_nat (2 * (length ss - 1)))"
    using address_to_page_i_eq [OF assms(1), of "2 * (length ss - 1)"] P W page_pos [OF assms(1)]
    by (simp add: div_greater_zero_iff)
  then have "write_inner ops s (log_cache ss False) f = (Ok (), f')"
    using er wr er2 W P by (auto simp: write_inner_def log_cache_def)
  ultimately show thesis using that f' g(4) h(4) by simp
qed

text \<open>The step of \<open>set\<close>, on a log with or without garbage behind the first page of \<open>p\<close> words.\<close>

lemma write_log:
  assumes f: "invar f" "reliable f" and s: "valid_state crc s" and pages: "2 \<le> page_count ops f"
    and log: "holds_log garbled crc (ERASE_SIZE ops div 2) ss (words (contents f))" and new: "ss = [] \<or> last ss \<noteq> s"
  obtains f' where "write_inner ops s (scan crc 0 (words (contents f)) default_cache) f = (Ok (), f')" "invar f'" "reliable f'"
    "holds_log garbled crc (ERASE_SIZE ops div 2) (log_push (length (words (contents f))) ss s) (words (contents f'))"
    "length (contents f') = length (contents f)"
proof -
  let ?p = "ERASE_SIZE ops div 2" and ?ws = "words (contents f)"
  let ?W = "length ?ws"
  note P = page_words [OF f(1) pages]
  have p: "0 < ?p" "?p < ?W" using P by auto
  obtain n tail where ws: "?ws = map entry ss @ replicate n blank @ tail" and junk: "junk crc tail"
    and tail: "tail = [] \<or> garbled \<and> length ss + n = ?p" and valid: "\<forall>t \<in> set ss. valid_state crc t"
    by (rule holds_logE [OF log])
  note cache = scan_log [OF valid junk, of n, folded ws]
  show thesis
  proof (cases n)
    case (Suc m)
    then have push: "log_push ?W ss s = ss @ [s]" using new unfolding ws log_push_def by auto
    obtain f' where "write_inner ops s (log_cache ss True) f = (Ok (), f')" "invar f'" "reliable f'"
      "words (contents f') = map entry (ss @ [s]) @ replicate m blank @ tail" "length (contents f') = length (contents f)"
      by (rule write_into_free [OF f s ws [unfolded Suc]])
    moreover have "holds_log garbled crc ?p (ss @ [s]) (map entry (ss @ [s]) @ replicate m blank @ tail)"
      using tail junk valid s Suc by (auto simp: holds_log_def log_words_def)
    ultimately show thesis by (intro that [of f']) (simp_all only: cache push Suc zero_less_Suc)
  next
    case 0
    show thesis
    proof (cases "tail = []")
      case True
      then have ws': "?ws = map entry ss" using ws 0 by simp
      then have push: "log_push ?W ss s = [s]" using new unfolding ws' log_push_def by auto
      obtain f' where "write_inner ops s (log_cache ss False) f = (Ok (), f')" "invar f'" "reliable f'"
        "words (contents f') = log_words ?W [s]" "length (contents f') = length (contents f)"
        by (rule write_around [OF f s pages ws'])
      moreover have "holds_log garbled crc ?p [s] (log_words ?W [s])" using s p by (auto simp: holds_log_def log_words_def)
      ultimately show thesis by (intro that [of f']) (simp_all only: cache push 0 less_irrefl)
    next
      case False
      then have ss: "length ss = ?p" "?ws = map entry ss @ tail" using ws 0 tail by simp_all
      then have push: "log_push ?W ss s = ss @ [s]" using new p by (auto simp: log_push_def)
      obtain f' where "write_inner ops s (log_cache ss False) f = (Ok (), f')" "invar f'" "reliable f'"
        "words (contents f') = log_words ?W (ss @ [s])" "length (contents f') = length (contents f)"
        by (rule write_behind_garbage [OF f s pages ss])
      moreover have "holds_log garbled crc ?p (ss @ [s]) (log_words ?W (ss @ [s]))"
        using s p ss(1) valid by (auto simp: holds_log_def log_words_def)
      ultimately show thesis by (intro that [of f']) (simp_all only: cache push 0 less_irrefl)
    qed
  qed
qed

lemma log_get:
  assumes "journal_inv crc ops contents invar j" and "holds_log garbled crc p ss (words (contents (inner j)))"
  shows "journal_get j = (if ss = [] then None else Some (last ss))"
    and "length ss < p \<Longrightarrow> p \<le> length (words (contents (inner j))) \<Longrightarrow> first_empty_slot (cache j) = Some (2 * length ss)"
proof -
  let ?ws = "words (contents (inner j))"
  obtain n tail where ws: "?ws = map entry ss @ replicate n blank @ tail" and junk: "junk crc tail"
    and tail: "tail = [] \<or> garbled \<and> length ss + n = p" and valid: "\<forall>t \<in> set ss. valid_state crc t"
    by (rule holds_logE [OF assms(2)])
  have c: "cache j = log_cache ss (0 < n)"
    using assms(1) scan_log [OF valid junk, of n] ws by (simp add: journal_inv_def)
  then show "journal_get j = (if ss = [] then None else Some (last ss))"
    by (simp add: journal_get_def log_cache_def)
  show "length ss < p \<Longrightarrow> p \<le> length ?ws \<Longrightarrow> first_empty_slot (cache j) = Some (2 * length ss)"
    using c tail unfolding ws by (auto simp: log_cache_def)
qed

lemma set_log:
  assumes j: "journal_inv crc ops contents invar j" "reliable (inner j)" and s: "valid_state crc s" and N: "even N" "2 \<le> N"
    and log: "holds_log garbled crc (ERASE_SIZE ops div 2) ss (words (contents (inner j)))"
  obtains j' where "journal_set crc ops N s j = (Ok (), j')" "journal_inv crc ops contents invar j'" "reliable (inner j')"
    "holds_log garbled crc (ERASE_SIZE ops div 2) (log_push (length (words (contents (inner j)))) ss s) (words (contents (inner j')))"
    "length (contents (inner j')) = length (contents (inner j))"
proof -
  let ?W = "length (words (contents (inner j)))"
  obtain r j' where run: "journal_set crc ops N s j = (r, j')" by fastforce
  note eff = journal_set_effect [OF j(1) s N run]
  then have r: "r = Ok ()" "reliable (inner j')" using j(2) by auto
  have "holds_log garbled crc (ERASE_SIZE ops div 2) (log_push ?W ss s) (words (contents (inner j')))"
  proof (cases "journal_get j = Some s")
    case True
    then have "log_push ?W ss s = ss" using log_get(1) [OF j(1) log] by (simp add: log_push_def split: if_splits)
    moreover have "j' = j" using True run by (simp add: journal_set_def)
    ultimately show ?thesis using log by simp
  next
    case False
    then have new: "ss = [] \<or> last ss \<noteq> s" using log_get(1) [OF j(1) log] by auto
    have inv: "invar (inner j)" "2 \<le> page_count ops (inner j)"
      "cache j = scan crc 0 (words (contents (inner j))) default_cache" using j(1) by (simp_all add: journal_inv_def)
    obtain f' where w: "write_inner ops s (cache j) (inner j) = (Ok (), f')" "invar f'"
      "holds_log garbled crc (ERASE_SIZE ops div 2) (log_push ?W ss s) (words (contents f'))"
      unfolding inv(3) by (rule write_log [OF inv(1) j(2) s inv(2) log new])
    obtain rc g where cc: "compute_cache crc ops N f' = (rc, g)" by fastforce
    have "contents g = contents f'" using compute_cache_effect [OF w(2) N cc] by simp
    moreover have "inner j' = g" using run False w(1) cc r(1)
      by (cases rc) (auto simp: journal_set_def write_state_eq on_inner_def Let_def split: if_splits)
    ultimately show ?thesis using w(3) by simp
  qed
  with eff run r show thesis by (intro that [of j']) simp_all
qed

lemma set_all_log:
  assumes "journal_inv crc ops contents invar j" "reliable (inner j)" and "\<forall>s \<in> set ss. valid_state crc s"
    and N: "even N" "2 \<le> N" and "holds_log garbled crc (ERASE_SIZE ops div 2) log (words (contents (inner j)))"
    and "W = length (words (contents (inner j)))"
  obtains j' where "set_all crc ops N ss j = (Ok (), j')" "journal_inv crc ops contents invar j'" "reliable (inner j')"
    "holds_log garbled crc (ERASE_SIZE ops div 2) (fold (\<lambda>s log. log_push W log s) ss log) (words (contents (inner j')))"
    "length (words (contents (inner j'))) = W"
proof -
  have "\<exists>j'. set_all crc ops N ss j = (Ok (), j') \<and> journal_inv crc ops contents invar j' \<and> reliable (inner j') \<and>
    holds_log garbled crc (ERASE_SIZE ops div 2) (fold (\<lambda>s log. log_push W log s) ss log) (words (contents (inner j'))) \<and>
    length (words (contents (inner j'))) = W"
    using assms(1-3,6-)
  proof (induction ss arbitrary: j log)
    case (Cons s ss)
    have s: "valid_state crc s" using Cons.prems(3) by simp
    obtain i where i: "journal_set crc ops N s j = (Ok (), i)" "journal_inv crc ops contents invar i" "reliable (inner i)"
      "holds_log garbled crc (ERASE_SIZE ops div 2) (log_push W log s) (words (contents (inner i)))"
      "length (contents (inner i)) = length (contents (inner j))"
      unfolding Cons.prems(5) by (rule set_log [OF Cons.prems(1,2) s N Cons.prems(4)])
    from i(5) Cons.prems(5) have "W = length (words (contents (inner i)))" by simp
    from Cons.IH [OF i(2,3) _ i(4) this] Cons.prems(3) i(1) show ?case by simp
  qed simp
  then show thesis using that by blast
qed

end

section \<open>The entries of the log\<close>

text \<open>Counting the changes of state: the log holds those of the current round through the flash.\<close>

definition current_round :: "nat \<Rightarrow> state list \<Rightarrow> state list" where
  "current_round W us = drop (W * ((length us - 1) div W)) us"

lemma length_current_round: "0 < W \<Longrightarrow> us \<noteq> [] \<Longrightarrow> length (current_round W us) = Suc ((length us - 1) mod W)"
proof -
  assume "0 < W" "us \<noteq> []"
  then have "length us = Suc (length us - 1)" by simp
  then show ?thesis using minus_mod_eq_mult_div [of "length us - 1" W] mod_le_divisor \<open>0 < W\<close>
    by (simp add: current_round_def) (metis Suc_diff_le diff_diff_cancel minus_mod_eq_mult_div mod_less_eq_dividend
        div_times_less_eq_dividend mult.commute)
qed

lemma current_round_snoc:
  assumes "0 < W"
  shows "current_round W (us @ [s]) = (if length (current_round W us) < W then current_round W us @ [s] else [s])"
proof (cases "us = []")
  case False
  then obtain m where m: "length us = Suc m" by (cases us) auto
  have len: "length (current_round W us) = Suc (m mod W)" using length_current_round [OF assms False] m by simp
  show ?thesis
  proof (cases "Suc (m mod W) = W")
    case True
    then have "Suc m div W = Suc (m div W)" by (simp add: div_Suc mod_Suc)
    moreover have "W * Suc (m div W) = length us"
      using m True mult_div_mod_eq [of W m] by (metis add.commute add_Suc_right mult_Suc_right)
    ultimately show ?thesis using True len m by (simp add: current_round_def)
  next
    case other: False
    then have "Suc m div W = m div W" by (simp add: div_Suc mod_Suc)
    moreover have "Suc (m mod W) < W" using other assms by (simp add: Suc_lessI)
    moreover have "W * (m div W) \<le> length us" using m by (simp add: le_SucI)
    ultimately show ?thesis using len m by (simp add: current_round_def)
  qed
qed (use assms in \<open>simp add: current_round_def\<close>)

lemma current_round_changes:
  assumes "0 < W" and "ss \<noteq> []"
  shows "current_round W (remdups_adj ss) \<noteq> []" "last (current_round W (remdups_adj ss)) = last ss"
proof -
  show "current_round W (remdups_adj ss) \<noteq> []"
    using length_current_round [OF assms(1), of "remdups_adj ss"] assms(2)
    by (metis length_0_conv nat.simps(3) remdups_adj_Nil_iff)
  then show "last (current_round W (remdups_adj ss)) = last ss" using assms(2) by (simp add: current_round_def)
qed

lemma fold_log_push:
  assumes "0 < W"
  shows "fold (\<lambda>s log. log_push W log s) ss [] = current_round W (remdups_adj ss)"
proof (induction ss rule: rev_induct)
  case (snoc s ss)
  show ?case
  proof (cases "ss = []")
    case False
    note round = current_round_changes [OF assms False]
    have "remdups_adj (ss @ [s]) = (if last ss = s then remdups_adj ss else remdups_adj ss @ [s])"
      using False by (cases ss rule: rev_cases) (simp_all add: remdups_adj_append_two)
    then show ?thesis using round snoc current_round_snoc [OF assms, of "remdups_adj ss" s] by (simp add: log_push_def)
  qed (use assms in \<open>simp add: log_push_def current_round_def\<close>)
qed (simp add: current_round_def)

lemma state_new_inject: "state_new crc st t b = state_new crc st' t' b' \<longleftrightarrow> st = st' \<and> t = t' \<and> b = b'"
  by (metis state_new_simps(3-5))

lemma mock_new_reliable: "mock_reliable (mock_new g None False)"
  by (simp add: mock_reliable_def mock_new_def)

section \<open>Properties\<close>

text \<open>
  C15. On the mock flash, from its erased state on and for every geometry of at least two pages, the
  journal is a log: after any calls of \<open>set\<close>, all of which succeed, the flash holds exactly the entries
  of the current round through its words, in order, and is blank behind them. A call that repeats the
  latest state writes nothing; a new round, and with it an erase of what was there before, begins only
  when every word has been used, once in as many changes as the flash has words.
\<close>

theorem journal_is_log:
  assumes g: "BYTES_PER_WORD g = 2" "0 < PAGE_WORDS g" "2 \<le> PAGES g" "CAPACITY_BYTES g < 2 ^ 32"
    and N: "even N" "2 \<le> N" and ss: "\<forall>s \<in> set ss. valid_state crc s"
  shows "\<exists>j f j'. journal_new crc (mock_ops g ptr) N (mock_new g None False) = (Ok j, f) \<and>
    set_all crc (mock_ops g ptr) N ss j = (Ok (), j') \<and>
    mf_data (inner j') = log_image (CAPACITY_WORDS g) (current_round (CAPACITY_WORDS g) (remdups_adj ss)) \<and>
    journal_get j' = (if ss = [] then None else Some (last ss))"
proof -
  let ?f = "mock_new g None False" and ?W = "CAPACITY_WORDS g" and ?ops = "mock_ops g ptr"
  have W: "0 < ?W" "CAPACITY_BYTES g = 2 * ?W" using g by (simp_all add: CAPACITY_WORDS_def CAPACITY_BYTES_def)
  have "mock_inv g ?f" by (rule mock_inv_new [OF g(1,2,4)])
  from mock_journal_new [OF this g(3) N] obtain j f where
    new: "journal_new crc ?ops N ?f = (Ok j, f)" "mock_journal_inv crc g ptr j" "mf_data (inner j) = mf_data ?f"
      "mock_reliable (inner j)"
    by (metis mock_new_reliable)
  have words: "words (mf_data (inner j)) = replicate ?W blank" using new(3) W words_replicate [of ?W] by (simp add: mock_new_def)
  have log: "holds_log False crc (ERASE_SIZE ?ops div 2) [] (words (mf_data (inner j)))"
    unfolding words by (simp add: holds_log_def log_words_def)
  have len: "?W = length (words (mf_data (inner j)))" unfolding words by simp
  obtain j' where run: "set_all crc ?ops N ss j = (Ok (), j')" "mock_journal_inv crc g ptr j'"
    "holds_log False crc (ERASE_SIZE ?ops div 2) (fold (\<lambda>s log. log_push ?W log s) ss []) (words (mf_data (inner j')))"
    "length (words (mf_data (inner j'))) = ?W"
    by (rule mock.set_all_log [OF new(2,4) ss N log len])
  have len': "length (mf_data (inner j')) = 2 * ?W" using run(2) W by (simp add: journal_inv_def mock_inv_def)
  have "mf_data (inner j') = log_image ?W (current_round ?W (remdups_adj ss))" 
    using run(3) len' by (intro log_imageI) (auto simp: holds_log_def fold_log_push [OF W(1)])
  moreover have "journal_get j' = (if ss = [] then None else Some (last ss))" 
    using mock.log_get(1) [OF run(2,3)] current_round_changes [OF W(1)]
    by (auto simp: fold_log_push [OF W(1)] current_round_def)
  ultimately show ?thesis using new(1) run(1) by blast
qed

theorem journal_is_log_witness:
  "\<exists>j f j'. journal_new crc8_opensafety (mock_ops \<lparr>PAGES = 2, BYTES_PER_WORD = 2, PAGE_WORDS = 1\<rparr> 0) 4
       (mock_new \<lparr>PAGES = 2, BYTES_PER_WORD = 2, PAGE_WORDS = 1\<rparr> None False) = (Ok j, f) \<and>
     set_all crc8_opensafety (mock_ops \<lparr>PAGES = 2, BYTES_PER_WORD = 2, PAGE_WORDS = 1\<rparr> 0) 4
       (map (\<lambda>st. state_new crc8_opensafety st S1 S0) [Initial, Attempting, Attempting, Confirmed]) j = (Ok (), j') \<and>
     mf_data (inner j') = as_bytes (state_new crc8_opensafety Confirmed S1 S0) @ [0xff, 0xff]"
proof -
  let ?g = "\<lparr>PAGES = 2, BYTES_PER_WORD = 2, PAGE_WORDS = 1\<rparr>" and ?new = "\<lambda>st. state_new crc8_opensafety st S1 S0"
  let ?ss = "map ?new [Initial, Attempting, Attempting, Confirmed]"
  have W: "CAPACITY_WORDS ?g = 2" "CAPACITY_BYTES ?g = 4" by (simp_all add: CAPACITY_WORDS_def CAPACITY_BYTES_def)
  have "current_round 2 (remdups_adj ?ss) = [?new Confirmed]" by (simp add: current_round_def state_new_inject)
  moreover have "log_image 2 [?new Confirmed] = as_bytes (?new Confirmed) @ [0xff, 0xff]" by (simp add: log_image_def numeral_eq_Suc)
  moreover have "\<forall>s \<in> set ?ss. valid_state crc8_opensafety s" by simp
  ultimately show ?thesis
    using journal_is_log [of ?g 4 ?ss crc8_opensafety 0] W by auto
qed

end
