(* ===== verification/Unit_Tests.thy ===== *)
theory Unit_Tests
  imports Journal_Log Rom_Api
begin

text \<open>
  Unit tests of the libraries as definitions: those of \<open>state.rs\<close>, of \<open>registers.rs\<close> and of
  \<open>flash.rs\<close>. A test is true, or returns \<open>Ok\<close>, when none of its assertions and unwraps fails; the
  lemmas say that they pass: the tests of \<open>registers.rs\<close>, of slots and of the contents of a state as they
  are, the journal tests for every checksum, the one with garbage for every checksum under which the
  garbage is no state. The four values of the checksum test are the algorithm's, which is not part of
  the repository: that test is recorded as a definition over the checksum only.
\<close>

section \<open>State records\<close>

definition test_statuses :: "status list" where
  "test_statuses = [Initial, Attempting, Confirmed, Failed]"

definition test_slot_construction :: bool where
  "test_slot_construction \<longleftrightarrow>
     list_all (\<lambda>i. ok (slot_try_from (of_nat i)) \<noteq> None) [0..<7] \<and>
     list_all (\<lambda>i. slot_try_from (of_nat i) = Err TooManyBits) [7..<256]"

text \<open>\<open>Slot::try_from(i).unwrap()\<close> for the counters of a loop.\<close>

fun unwrap_slots :: "nat list \<Rightarrow> (slot list, unit) res" where
  "unwrap_slots [] = Ok []"
| "unwrap_slots (i # is) =
     res_bind (unwrap (ok (slot_try_from (of_nat i)))) (\<lambda>s. res_bind (unwrap_slots is) (\<lambda>ss. Ok (s # ss)))"

definition test_state_validity_content :: "crc8 \<Rightarrow> (bool, unit) res" where
  "test_state_validity_content crc =
     res_bind (unwrap_slots [0..<7]) (\<lambda>slots.
     Ok (list_all (\<lambda>st. list_all (\<lambda>slot_a. list_all (\<lambda>slot_b.
       let s = state_new crc st slot_b slot_a in
       state_status s = st \<and> state_target s = slot_b \<and> state_backup s = slot_a) slots) slots) test_statuses))"

definition test_state_validity_crc :: "crc8 \<Rightarrow> bool" where
  "test_state_validity_crc crc \<longleftrightarrow>
     (let slot_a = S1; slot_b = S2 in
      crc_byte (state_new crc Initial slot_b slot_a) = 12 \<and>
      crc_byte (state_new crc Attempting slot_b slot_a) = 234 \<and>
      crc_byte (state_new crc Confirmed slot_b slot_a) = 9 \<and>
      crc_byte (state_new crc Failed slot_b slot_a) = 239)"

section \<open>The journal\<close>

text \<open>\<open>journal.set::<4>(&state).await.unwrap()\<close> and the assertion behind it.\<close>

definition set_and_check ::
    "crc8 \<Rightarrow> ('f, 'e) nor_flash \<Rightarrow> state \<Rightarrow> 'f flash_journal \<Rightarrow> (unit, unit) res \<times> 'f flash_journal" where
  "set_and_check crc ops s j =
     and_then (unwrap_ok (journal_set crc ops 4 s j)) (\<lambda>_ j.
     (if journal_get j = Some s then Ok () else Panic, j))"

fun set_and_check_all ::
    "crc8 \<Rightarrow> ('f, 'e) nor_flash \<Rightarrow> state list \<Rightarrow> 'f flash_journal \<Rightarrow> (unit, unit) res \<times> 'f flash_journal" where
  "set_and_check_all crc ops [] j = (Ok (), j)"
| "set_and_check_all crc ops (s # ss) j =
     and_then (set_and_check crc ops s j) (\<lambda>_ j. set_and_check_all crc ops ss j)"

text \<open>The states of the three nested loops.\<close>

definition loop_states :: "crc8 \<Rightarrow> slot list \<Rightarrow> state list" where
  "loop_states crc slots = [state_new crc st slot_b slot_a. st \<leftarrow> test_statuses, slot_a \<leftarrow> slots, slot_b \<leftarrow> slots]"

definition test_journal ::
    "crc8 \<Rightarrow> ('f, 'e) nor_flash \<Rightarrow> bool \<Rightarrow> 'f \<Rightarrow> (nat option, unit) res \<times> 'f" where
  "test_journal crc ops assert_empty nvm =
     and_then (unwrap_ok (journal_new crc ops 4 nvm)) (\<lambda>j nvm.
     if assert_empty \<and> journal_get j \<noteq> None then (Panic, nvm)
     else
       and_then (unwrap_slots [1, 2], nvm) (\<lambda>ab nvm.
       and_then (unwrap_slots [0..<7], nvm) (\<lambda>slots nvm.
       let s = state_new crc Initial (ab ! 1) (ab ! 0);
           (r, j) = set_and_check_all crc ops ([s, s] @ loop_states crc slots) j
       in and_then (r, inner j) (\<lambda>_ nvm. (Ok (first_empty_slot (cache j)), nvm)))))"

definition normal_geometry :: mock_geometry where
  "normal_geometry = \<lparr>PAGES = 3, BYTES_PER_WORD = 2, PAGE_WORDS = 8\<rparr>"

definition test_journal_normal :: "crc8 \<Rightarrow> nat \<Rightarrow> (nat option, unit) res" where
  "test_journal_normal crc ptr =
     fst (test_journal crc (mock_ops normal_geometry ptr) True (mock_new normal_geometry None False))"

definition test_journal_garbage :: "crc8 \<Rightarrow> nat \<Rightarrow> (unit, unit) res" where
  "test_journal_garbage crc ptr =
     (let g = normal_geometry; ops = mock_ops g ptr in
      fst (and_then (unwrap_ok (mock_write g ptr 16 (replicate 32 0xaa) (mock_new g None False))) (\<lambda>_ mock.
           and_then (test_journal crc ops True mock) (\<lambda>valid_address mock.
           and_then (unwrap valid_address, mock) (\<lambda>address mock.
           and_then (unwrap_ok (mock_write g ptr (of_nat address) [0xaa, 0xaa] mock)) (\<lambda>_ mock.
           and_then (test_journal crc ops False mock) (\<lambda>_ mock.
           (Ok (), mock))))))))"

definition realistic_geometry :: mock_geometry where
  "realistic_geometry = \<lparr>PAGES = 2, BYTES_PER_WORD = 2, PAGE_WORDS = 2048\<rparr>"

text \<open>A journal is opened anew for every state.\<close>

fun reopen_and_set :: "crc8 \<Rightarrow> ('f, 'e) nor_flash \<Rightarrow> state list \<Rightarrow> 'f \<Rightarrow> (unit, unit) res" where
  "reopen_and_set crc ops [] f = Ok ()"
| "reopen_and_set crc ops (s # ss) f =
     (case journal_new crc ops 256 f of
        (Ok j, _) \<Rightarrow>
          (case set_and_check crc ops s j of
             (Ok _, j) \<Rightarrow> reopen_and_set crc ops ss (inner j)
           | (_, _) \<Rightarrow> Panic)
      | (_, _) \<Rightarrow> Panic)"

definition test_journal_realistic :: "crc8 \<Rightarrow> nat \<Rightarrow> (unit, unit) res" where
  "test_journal_realistic crc ptr =
     res_bind (unwrap_slots [0..<7]) (\<lambda>slots.
     reopen_and_set crc (mock_ops realistic_geometry ptr) (loop_states crc slots) (mock_new realistic_geometry None False))"

section \<open>Registers\<close>

definition test_mapping :: bool where
  "test_mapping \<longleftrightarrow>
     otp_to_shadow_offset 96 = Ok 0x180 \<and> otp_to_shadow_offset 97 = Ok 0x184 \<and> otp_to_shadow_offset 101 = Ok 0x194 \<and>
     otp_to_shadow_offset 120 = Ok 0x1E0 \<and> otp_to_shadow_offset 127 = Ok 0x1FC"

definition test_read_words_partial :: bool where
  "test_read_words_partial \<longleftrightarrow> data_to_otp_words 100 [0x34, 0x12] = [(100, 0x00001234)]"

definition test_write_words_partial :: bool where
  "test_write_words_partial \<longleftrightarrow>
     otp_words_to_data 100 [0, 0] (\<lambda>i s. if i = 100 then (Ok 0x00001234, s) else (Panic, s)) () =
       ((Ok [0x34, 0x12] :: (u8 list, unit) res), ())"

definition MULTIPLE_DATASET :: "(u32 \<times> u32) list" where
  "MULTIPLE_DATASET =
     [(100, 0x04030201), (101, 0x08070605), (102, 0x0C0B0A09), (103, 0x100F0E0D),
      (104, 0x14131211), (105, 0x18171615), (106, 0x1C1B1A19), (107, 0x201F1E1D)]"

definition generate_multiple_bytebuf :: "u8 list" where
  "generate_multiple_bytebuf = map (\<lambda>i. of_nat (i + 1)) [0..<32]"

definition test_read_words_multiple :: bool where
  "test_read_words_multiple \<longleftrightarrow> data_to_otp_words 100 generate_multiple_bytebuf = MULTIPLE_DATASET"

definition test_write_words_multiple :: bool where
  "test_write_words_multiple \<longleftrightarrow>
     otp_words_to_data 100 (replicate 32 0)
       (\<lambda>i s. (case find (\<lambda>(j, _). j = i) MULTIPLE_DATASET of Some (_, word) \<Rightarrow> Ok word | None \<Rightarrow> Panic, s)) () =
       ((Ok generate_multiple_bytebuf :: (u8 list, unit) res), ())"

section \<open>Lemmas\<close>

lemma unwrap_test_slots:
  "unwrap_slots [0..<7] = Ok [S0, S1, S2, S3, S4, S5, S6]" "unwrap_slots [1, 2] = Ok [S1, S2]"
  by (simp_all add: upt_rec slot_try_from_def)

lemma set_and_check_passes:
  assumes "mock_journal_inv crc g ptr j" and "mock_reliable (inner j)" and "valid_state crc s"
  shows "\<exists>j'. set_and_check crc (mock_ops g ptr) s j = (Ok (), j') \<and> mock_journal_inv crc g ptr j' \<and> mock_reliable (inner j')"
proof -
  obtain r j' where run: "journal_set crc (mock_ops g ptr) 4 s j = (r, j')" by fastforce
  have "even (4 :: nat)" "2 \<le> (4 :: nat)" by simp_all
  from mock_journal_set [OF assms(1,3) this run] assms(2) run show ?thesis
    by (cases r) (auto simp: set_and_check_def)
qed

lemma set_and_check_all_passes:
  assumes "mock_journal_inv crc g ptr j" and "mock_reliable (inner j)" and "\<forall>s \<in> set ss. valid_state crc s"
  shows "\<exists>j'. set_and_check_all crc (mock_ops g ptr) ss j = (Ok (), j') \<and> mock_journal_inv crc g ptr j' \<and> mock_reliable (inner j')"
  using assms
proof (induction ss arbitrary: j)
  case (Cons s ss)
  then obtain j' where "set_and_check crc (mock_ops g ptr) s j = (Ok (), j')" "mock_journal_inv crc g ptr j'" "mock_reliable (inner j')"
    using set_and_check_passes [of crc g ptr j s] by auto
  with Cons show ?case by simp
qed simp

lemma loop_states_valid: "\<forall>s \<in> set (loop_states crc slots). valid_state crc s"
  by (auto simp: loop_states_def)

lemma reopen_and_set_passes:
  assumes "mock_inv g f" and "mock_reliable f" and "2 \<le> PAGES g" and "\<forall>s \<in> set ss. valid_state crc s"
  shows "reopen_and_set crc (mock_ops g ptr) ss f = Ok ()"
  using assms(1,2,4)
proof (induction ss arbitrary: f)
  case (Cons s ss)
  have "even (256 :: nat)" "2 \<le> (256 :: nat)" by simp_all
  from mock_journal_new [OF Cons.prems(1) assms(3) this] Cons.prems(2) obtain j f' where
    new: "journal_new crc (mock_ops g ptr) 256 f = (Ok j, f')" "mock_journal_inv crc g ptr j" "mock_reliable (inner j)"
    by metis
  from set_and_check_passes [OF new(2,3), of s] Cons.prems(3) obtain j' where
    set: "set_and_check crc (mock_ops g ptr) s j = (Ok (), j')" "mock_journal_inv crc g ptr j'" "mock_reliable (inner j')"
    by auto
  from set(2) have "mock_inv g (inner j')" by (simp add: journal_inv_def)
  with new(1) set Cons show ?case by simp
qed simp

text \<open>The loops of the journal tests write every state there is.\<close>

lemma loop_states_complete: "set (loop_states crc enum_class.enum) = {s. valid_state crc s}"
proof -
  have "s \<in> set (loop_states crc enum_class.enum)" if "valid_state crc s" for s
  proof -
    have "s = state_new crc (state_status s) (state_target s) (state_backup s)" by (rule valid_state_eq_new [OF that])
    moreover have "state_status s \<in> set test_statuses" by (cases "state_status s") (simp_all add: test_statuses_def)
    ultimately show ?thesis unfolding loop_states_def by (auto simp: enum_UNIV)
  qed
  then show ?thesis using loop_states_valid by blast
qed

text \<open>A run of \<open>test_journal\<close> as a sequence of sets, and what it leaves in a flash that held no state.\<close>

definition test_states :: "crc8 \<Rightarrow> state list" where
  "test_states crc =
     (let s = state_new crc Initial S2 S1 in [s, s] @ loop_states crc [S0, S1, S2, S3, S4, S5, S6])"

lemma test_states_valid: "\<forall>s \<in> set (test_states crc). valid_state crc s"
  using loop_states_valid by (auto simp: test_states_def Let_def)

lemma set_and_check_all_eq:
  assumes "mock_journal_inv crc g ptr j" and "mock_reliable (inner j)" and "\<forall>s \<in> set ss. valid_state crc s"
  shows "set_and_check_all crc (mock_ops g ptr) ss j = unwrap_ok (set_all crc (mock_ops g ptr) 4 ss j)"
  using assms
proof (induction ss arbitrary: j)
  case (Cons s ss)
  then obtain j' where j': "set_and_check crc (mock_ops g ptr) s j = (Ok (), j')" "mock_journal_inv crc g ptr j'" "mock_reliable (inner j')"
    using set_and_check_passes [of crc g ptr j s] by auto
  then have "journal_set crc (mock_ops g ptr) 4 s j = (Ok (), j')"
    by (auto simp: set_and_check_def outcome_iffs split: if_splits)
  with Cons j' show ?case by simp
qed simp

lemma test_journal_run:
  assumes f: "mock_inv g f" "mock_reliable f" and pages: "2 \<le> PAGES g"
    and empty: "assert_empty \<Longrightarrow> latest_state crc (mf_data f) = None"
  obtains j where "test_journal crc (mock_ops g ptr) assert_empty f = (Ok (first_empty_slot (cache j)), inner j)"
    "mock_journal_inv crc g ptr j" "mock_reliable (inner j)"
    "holds_log garbled crc (PAGE_WORDS g) [] (words (mf_data f)) \<Longrightarrow>
     holds_log garbled crc (PAGE_WORDS g) (current_round (CAPACITY_WORDS g) (remdups_adj (test_states crc))) (words (mf_data (inner j)))"
proof -
  let ?ops = "mock_ops g ptr"
  have N: "even (4 :: nat)" "2 \<le> (4 :: nat)" by simp_all
  from mock_journal_new [OF f(1) pages N] f(2) obtain i f' where
    new: "journal_new crc ?ops 4 f = (Ok i, f')" "mock_journal_inv crc g ptr i" "mf_data (inner i) = mf_data f"
      "journal_get i = latest_state crc (mf_data f)" "mock_reliable (inner i)" "inner i = f'"
    by metis
  from set_and_check_all_passes [OF new(2,5) test_states_valid] obtain j where
    run: "set_and_check_all crc ?ops (test_states crc) i = (Ok (), j)" "mock_journal_inv crc g ptr j" "mock_reliable (inner j)"
    by blast
  have geo: "ERASE_SIZE ?ops div 2 = PAGE_WORDS g" "length (words (mf_data (inner i))) = CAPACITY_WORDS g" "0 < CAPACITY_WORDS g"
    using f(1) new(3) pages by (simp_all add: mock_inv_def mock_ops_def PAGE_BYTES_def CAPACITY_BYTES_def CAPACITY_WORDS_def)
  show thesis
  proof (rule that [OF _ run(2,3)])
    show "test_journal crc ?ops assert_empty f = (Ok (first_empty_slot (cache j)), inner j)"
      using new(1,4) empty run(1) unfolding test_journal_def unwrap_test_slots test_states_def by (simp add: Let_def)
  next
    assume log: "holds_log garbled crc (PAGE_WORDS g) [] (words (mf_data f))"
    obtain j2 where "set_all crc ?ops 4 (test_states crc) i = (Ok (), j2)"
      "holds_log garbled crc (PAGE_WORDS g) (fold (\<lambda>s log. log_push (CAPACITY_WORDS g) log s) (test_states crc) [])
         (words (mf_data (inner j2)))"
      by (rule mock.set_all_log [OF new(2,5) test_states_valid N, where garbled = garbled and log = "[]" and W = "CAPACITY_WORDS g"])
        (use log new(3) geo in auto)
    with run(1) set_and_check_all_eq [OF new(2,5) test_states_valid] show
      "holds_log garbled crc (PAGE_WORDS g) (current_round (CAPACITY_WORDS g) (remdups_adj (test_states crc))) (words (mf_data (inner j)))"
      by (simp add: fold_log_push [OF geo(3)])
  qed
qed

lemma journal_normal_passes: "\<exists>a. test_journal_normal crc ptr = Ok a"
proof -
  let ?f = "mock_new normal_geometry None False"
  have g: "mock_inv normal_geometry ?f" "2 \<le> PAGES normal_geometry"
    by (simp_all add: mock_inv_new normal_geometry_def CAPACITY_BYTES_def CAPACITY_WORDS_def)
  have "latest_state crc (mf_data ?f) = None" by (simp add: mock_new_def latest_fresh)
  from test_journal_run [OF g(1) mock_new_reliable g(2) this] show ?thesis by (metis fst_conv test_journal_normal_def)
qed

text \<open>
  The test with garbage: the garbage is no state, the first run ends five entries into a round, so the
  address it returns is that of the sixth word, and the second run copes with the broken word there.
\<close>

lemma garbage_written:
  "mock_write normal_geometry ptr 16 (replicate 32 0xaa) (mock_new normal_geometry None False) =
    (Ok (), \<lparr>mf_writable = replicate 8 Writable_O @ replicate 16 Writable_N,
             mf_data = replicate 16 0xff @ replicate 32 0xaa, bytes_until_shutoff = None, alignment_check = False\<rparr>)"
  by code_simp

definition test_inputs :: "(status \<times> slot \<times> slot) list" where
  "test_inputs =
     [(Initial, S2, S1), (Initial, S2, S1)] @
     [(st, slot_b, slot_a). st \<leftarrow> test_statuses, slot_a \<leftarrow> [S0, S1, S2, S3, S4, S5, S6], slot_b \<leftarrow> [S0, S1, S2, S3, S4, S5, S6]]"

lemma test_changes: "length (remdups_adj (test_states crc)) = 197"
proof -
  have "inj (\<lambda>(st, t, b). state_new crc st t b)" by (auto simp: inj_def state_new_inject)
  moreover have "test_states crc = map (\<lambda>(st, t, b). state_new crc st t b) test_inputs"
    by (simp add: test_states_def test_inputs_def loop_states_def Let_def map_concat comp_def)
  moreover have "length (remdups_adj test_inputs) = 197" by code_simp
  ultimately show ?thesis by (simp add: remdups_adj_map_injective)
qed

lemma journal_garbage_passes:
  assumes garbage_invalid: "try_new crc (0xaa, 0xaa) = Err Invalid"
  shows "test_journal_garbage crc ptr = Ok ()"
proof -
  let ?g = normal_geometry and ?crc = crc
  let ?ops = "mock_ops ?g ptr"
  let ?f = "\<lparr>mf_writable = replicate 8 Writable_O @ replicate 16 Writable_N,
             mf_data = replicate 16 0xff @ replicate 32 (0xaa :: u8), bytes_until_shutoff = None, alignment_check = False\<rparr>"
  have geo: "2 \<le> PAGES ?g" "PAGE_WORDS ?g = 8" "CAPACITY_WORDS ?g = 24" "CAPACITY_BYTES ?g = 48" "BYTES_PER_WORD ?g = 2"
    by (simp_all add: normal_geometry_def CAPACITY_BYTES_def CAPACITY_WORDS_def)
  have f: "mock_inv ?g ?f" "mock_reliable ?f"
    by (auto simp: mock_inv_def geo mock_reliable_def nth_append)
  have words: "words (mf_data ?f) = replicate 8 blank @ replicate 16 (0xaa, 0xaa)"
    using words_replicate [of 8 "0xff"] words_replicate [of 16 "0xaa"] by (simp add: words_append)
  have junk: "junk ?crc (replicate 16 (0xaa, 0xaa))" by (simp add: junk_def garbage_invalid)
  have log: "holds_log True ?crc (PAGE_WORDS ?g) [] (words (mf_data ?f))"
    unfolding words geo holds_log_def using junk by (auto simp: log_words_def)
  have "latest_state ?crc (mf_data ?f) = None"
    unfolding latest_state_def words by (auto simp: latest_None_iff valid_word_def garbage_invalid try_new_def [of _ blank])
  then obtain j where run: "test_journal ?crc ?ops True ?f = (Ok (first_empty_slot (cache j)), inner j)"
    "mock_journal_inv ?crc ?g ptr j" "mock_reliable (inner j)" and
    log': "holds_log True ?crc (PAGE_WORDS ?g) (current_round 24 (remdups_adj (test_states ?crc))) (words (mf_data (inner j)))"
    using test_journal_run [OF f geo(1), of True ?crc ptr True] log unfolding geo by metis
  have len: "length (current_round 24 (remdups_adj (test_states ?crc))) = 5"
    using length_current_round [of 24 "remdups_adj (test_states ?crc)"] test_changes [of ?crc] by force
  have inv: "mock_inv ?g (inner j)" using run(2) by (simp add: journal_inv_def)
  then have size: "length (mf_data (inner j)) = 48" by (simp add: mock_inv_def geo)
  have first: "first_empty_slot (cache j) = Some 10"
    using mock.log_get(2) [OF run(2) log'] len size by (simp add: geo)
  have "cache j = scan ?crc 0 (words (mf_data (inner j))) default_cache" using run(2) by (simp add: journal_inv_def)
  with first scan_spec [of ?crc "words (mf_data (inner j))"] have "words (mf_data (inner j)) ! 5 = blank"
    by (auto simp: free_spec_def)
  then have free: "mf_data (inner j) ! 10 = 0xff" "mf_data (inner j) ! Suc 10 = 0xff"
    using words_nth [of 5 "mf_data (inner j)"] size by simp_all
  obtain r f' where patch: "mock_write ?g ptr (of_nat 10) [0xaa, 0xaa] (inner j) = (r, f')" by fastforce
  have wr: "r = Ok ()" "mock_inv ?g f'" "mock_reliable f'"
    using mock_write_effect [OF inv _ _ free _ patch] run(3) by (simp_all add: geo)
  have "\<exists>a f2. test_journal ?crc ?ops False f' = (Ok a, f2)"
    using test_journal_run [OF wr(2,3) geo(1), of False ?crc ptr] by metis
  with garbage_written run(1) first patch wr(1) show ?thesis by (auto simp: test_journal_garbage_def)
qed

lemma journal_realistic_passes: "test_journal_realistic crc ptr = Ok ()"
proof -
  have g: "mock_inv realistic_geometry (mock_new realistic_geometry None False)"
    by (rule mock_inv_new) (simp_all add: realistic_geometry_def CAPACITY_BYTES_def CAPACITY_WORDS_def)
  have "2 \<le> PAGES realistic_geometry" by (simp add: realistic_geometry_def)
  from reopen_and_set_passes [OF g mock_new_reliable this loop_states_valid] show ?thesis
    by (simp add: test_journal_realistic_def unwrap_test_slots)
qed

lemma slot_construction_passes: test_slot_construction
proof -
  have "slot_try_from (of_nat i) = Err TooManyBits" if "i \<in> set [7..<256]" for i
  proof -
    have "unat (of_nat i :: u8) = i" "7 \<le> i" using that unfolding set_upt by (simp_all add: unat_of_nat take_bit_nat_eq_self)
    then show ?thesis by (auto simp: slot_try_from_def)
  qed
  moreover have "list_all (\<lambda>i. ok (slot_try_from (of_nat i)) \<noteq> None) [0..<7]"
    by (simp add: upt_rec slot_try_from_def)
  ultimately show ?thesis unfolding test_slot_construction_def list_all_iff by blast
qed

lemma state_validity_passes: "test_state_validity_content crc = Ok True"
  by (simp add: test_state_validity_content_def unwrap_test_slots list_all_iff Let_def)

lemma register_tests_pass:
  test_mapping test_read_words_partial test_write_words_partial test_read_words_multiple test_write_words_multiple
proof -
  have chunks: "chunks 4 (replicate 32 (0 :: u8)) =
      [replicate 4 0, replicate 4 0, replicate 4 0, replicate 4 0, replicate 4 0, replicate 4 0, replicate 4 0, replicate 4 0]"
    using chunks_replicate [of 4 8 "0 :: u8"] by (simp add: numeral_eq_Suc)
  show test_mapping by (simp add: test_mapping_def otp_to_shadow_offset_def)
  show test_read_words_partial
    by (simp add: test_read_words_partial_def data_to_otp_words_def chunks_step chunk_to_word_def copy_from_slice_def
        u32_from_le_bytes_def)
  show test_write_words_partial
    by (simp add: test_write_words_partial_def otp_words_to_data_def chunks_step u32_to_le_bytes_def)
  show test_read_words_multiple
    by (simp add: test_read_words_multiple_def data_to_otp_words_def generate_multiple_bytebuf_def upt_rec chunks_step
        chunk_to_word_def MULTIPLE_DATASET_def u32_from_le_bytes_def)
  show test_write_words_multiple
    by (simp add: test_write_words_multiple_def otp_words_to_data_def generate_multiple_bytebuf_def upt_rec chunks
        MULTIPLE_DATASET_def u32_to_le_bytes_def)
qed

end
