(* ===== verification/Fuzz_Inputs.thy ===== *)
theory Fuzz_Inputs
  imports Journal_Tests
begin

text \<open>
  How the fuzzer makes the inputs of the two targets of \<open>libs/ec-slimloader-state/fuzz\<close>: the \<open>Arbitrary\<close>
  implementations of \<open>state.rs\<close> and of the targets, and what the library prints of states and slots
  when a target fails.

  The crate \<open>arbitrary\<close> is not part of the repository: \<open>unstructured\<close> is the dictionary of what the
  implementations use of it, over the fuzzer's bytes \<open>'u\<close>: a number in a range, and the derived or
  provided implementations for \<open>Status\<close>, byte slices and vectors. An \<open>Err\<close> means that the bytes do not
  suffice; the target then rejects the input.
\<close>

section \<open>Printing\<close>

fun slot_debug :: "slot \<Rightarrow> string" where
  "slot_debug S0 = ''S0''"
| "slot_debug S1 = ''S1''"
| "slot_debug S2 = ''S2''"
| "slot_debug S3 = ''S3''"
| "slot_debug S4 = ''S4''"
| "slot_debug S5 = ''S5''"
| "slot_debug S6 = ''S6''"

definition slot_display :: "slot \<Rightarrow> string" where
  "slot_display s = slot_debug s"

fun status_debug :: "status \<Rightarrow> string" where
  "status_debug Initial = ''Initial''"
| "status_debug Attempting = ''Attempting''"
| "status_debug Failed = ''Failed''"
| "status_debug Confirmed = ''Confirmed''"

text \<open>\<open>debug_struct\<close> with its fields, and the text of the \<open>defmt\<close> implementation.\<close>

definition debug_struct :: "string \<Rightarrow> (string \<times> string) list \<Rightarrow> string" where
  "debug_struct name fs =
     (case fs of
        [] \<Rightarrow> name
      | (f, v) # rest \<Rightarrow>
          name @ '' { '' @ f @ '': '' @ v @ concat (map (\<lambda>(f, v). '', '' @ f @ '': '' @ v) rest) @ '' }'')"

definition state_debug :: "state \<Rightarrow> string" where
  "state_debug s =
     debug_struct ''State''
       [(''status'', status_debug (state_status s)), (''target'', slot_debug (state_target s)),
        (''backup'', slot_debug (state_backup s))]"

definition state_format :: "state \<Rightarrow> string" where
  "state_format s =
     ''State { status: '' @ status_debug (state_status s) @ '', target: '' @ slot_debug (state_target s) @
     '', backup: '' @ slot_debug (state_backup s) @ '' }''"

section \<open>Arbitrary inputs\<close>

record 'u unstructured =
  int_in_range :: "nat \<Rightarrow> nat \<Rightarrow> 'u \<Rightarrow> (nat, unit) res \<times> 'u"
  status_arbitrary :: "'u \<Rightarrow> (status, unit) res \<times> 'u"
  bytes_arbitrary :: "'u \<Rightarrow> (u8 list, unit) res \<times> 'u"
  vec_arbitrary :: "('u \<Rightarrow> (state, unit) res \<times> 'u) \<Rightarrow> 'u \<Rightarrow> (state list, unit) res \<times> 'u"

definition slot_arbitrary :: "'u unstructured \<Rightarrow> 'u \<Rightarrow> (slot, unit) res \<times> 'u" where
  "slot_arbitrary U u =
     and_then (int_in_range U 0 (MAX_SLOT_COUNT - 1) u) (\<lambda>n u.
     (unwrap (ok (slot_try_from (of_nat n))), u))"

definition state_arbitrary :: "crc8 \<Rightarrow> 'u unstructured \<Rightarrow> 'u \<Rightarrow> (state, unit) res \<times> 'u" where
  "state_arbitrary crc U u =
     and_then (status_arbitrary U u) (\<lambda>st u.
     and_then (slot_arbitrary U u) (\<lambda>slot_a u.
     and_then (slot_arbitrary U u) (\<lambda>slot_b u.
     (Ok (state_new crc st slot_a slot_b), u))))"

record interrupted_input =
  in_states :: "state list"
  in_fail_at :: nat

definition interrupted_arbitrary :: "crc8 \<Rightarrow> 'u unstructured \<Rightarrow> 'u \<Rightarrow> (interrupted_input, unit) res \<times> 'u" where
  "interrupted_arbitrary crc U u =
     and_then (vec_arbitrary U (state_arbitrary crc U) u) (\<lambda>states u.
     and_then (int_in_range U 0 (length states * 2) u) (\<lambda>fail_at u.
     (Ok \<lparr>in_states = states, in_fail_at = fail_at\<rparr>, u)))"

record random_input =
  in_data :: "u8 list"
  in_new_state :: state

definition random_arbitrary :: "crc8 \<Rightarrow> 'u unstructured \<Rightarrow> 'u \<Rightarrow> (random_input, unit) res \<times> 'u" where
  "random_arbitrary crc U u =
     and_then (bytes_arbitrary U u) (\<lambda>data u.
     and_then (state_arbitrary crc U u) (\<lambda>new_state u.
     (Ok \<lparr>in_data = data, in_new_state = new_state\<rparr>, u)))"

text \<open>The two \<open>fuzz_target!\<close>; the loop of the first gets two more iterations than there are states.\<close>

definition interrupted_target :: "crc8 \<Rightarrow> nat \<Rightarrow> 'u unstructured \<Rightarrow> 'u \<Rightarrow> (unit, unit) res option" where
  "interrupted_target crc ptr U u =
     (case interrupted_arbitrary crc U u of
        (Ok inp, _) \<Rightarrow> fuzz_interrupted crc ptr (length (in_states inp) + 2) (in_states inp) (in_fail_at inp)
      | (Err _, _) \<Rightarrow> Some (Ok ())
      | (Panic, _) \<Rightarrow> Some Panic)"

definition random_flash_target :: "crc8 \<Rightarrow> nat \<Rightarrow> 'u unstructured \<Rightarrow> 'u \<Rightarrow> (unit, unit) res" where
  "random_flash_target crc ptr U u =
     (case random_arbitrary crc U u of
        (Ok inp, _) \<Rightarrow> fuzz_random_flash crc ptr (in_data inp) (in_new_state inp)
      | (Err _, _) \<Rightarrow> Ok ()
      | (Panic, _) \<Rightarrow> Panic)"

section \<open>Lemmas\<close>

text \<open>Both ways of printing a state agree, and the text says which state it is.\<close>

lemma state_debug_format: "state_debug s = state_format s"
  by (simp add: state_debug_def state_format_def debug_struct_def)

lemma slot_debug_inject [simp]: "slot_debug s = slot_debug t \<longleftrightarrow> s = t"
  by (cases s; cases t) simp_all

lemma state_debug_inject:
  assumes "state_debug (state_new crc st a b) = state_debug (state_new crc st' a' b')"
  shows "st = st' \<and> a = a' \<and> b = b'"
proof -
  have len: "length (slot_debug s) = 2" for s by (cases s) simp_all
  have "st = st'" using assms by (cases st; cases st') (simp_all add: state_debug_format state_format_def)
  with assms len show ?thesis by (auto simp: state_debug_format state_format_def)
qed

text \<open>What the crate documents: numbers are in their range, the elements of a vector come from the generator.\<close>

definition arbitrary_laws :: "'u unstructured \<Rightarrow> bool" where
  "arbitrary_laws U \<longleftrightarrow>
     (\<forall>lo hi u. lo \<le> hi \<longrightarrow> (case fst (int_in_range U lo hi u) of Ok n \<Rightarrow> lo \<le> n \<and> n \<le> hi | Err _ \<Rightarrow> True | Panic \<Rightarrow> False)) \<and>
     (\<forall>u. fst (status_arbitrary U u) \<noteq> Panic) \<and> (\<forall>u. fst (bytes_arbitrary U u) \<noteq> Panic) \<and>
     (\<forall>gen u. (\<forall>v. fst (gen v) \<noteq> Panic) \<longrightarrow>
        (case fst (vec_arbitrary U gen u) of
           Ok xs \<Rightarrow> \<forall>x \<in> set xs. \<exists>v. fst (gen v) = Ok x | Err _ \<Rightarrow> True | Panic \<Rightarrow> False))"

lemma and_then_fst_Ok:
  assumes "fst (and_then m k) = Ok y"
  obtains x s where "m = (Ok x, s)" "fst (k x s) = Ok y"
  using assms by (cases "(m, k)" rule: and_then.cases) auto

lemma and_then_fst_Panic [outcome_iffs]:
  "fst (and_then m k) = Panic \<longleftrightarrow> fst m = Panic \<or> (\<exists>x s. m = (Ok x, s) \<and> fst (k x s) = Panic)"
  by (cases "(m, k)" rule: and_then.cases) auto

lemma arbitrary_lawsD:
  assumes "arbitrary_laws U"
  shows "fst (status_arbitrary U u) \<noteq> Panic" "fst (bytes_arbitrary U u) \<noteq> Panic" "fst (int_in_range U 0 n u) \<noteq> Panic"
    "int_in_range U 0 n u = (Ok k, u') \<Longrightarrow> k \<le> n"
proof -
  have range: "case fst (int_in_range U 0 n u) of Ok k \<Rightarrow> 0 \<le> k \<and> k \<le> n | Err _ \<Rightarrow> True | Panic \<Rightarrow> False"
    using assms unfolding arbitrary_laws_def by blast
  from range show "fst (int_in_range U 0 n u) \<noteq> Panic" by (auto split: res.splits)
  from range show "int_in_range U 0 n u = (Ok k, u') \<Longrightarrow> k \<le> n" by auto
qed (use assms in \<open>simp_all add: arbitrary_laws_def\<close>)

lemma slot_arbitrary_total:
  assumes "arbitrary_laws U"
  shows "fst (slot_arbitrary U u) \<noteq> Panic"
proof -
  have "ok (slot_try_from (of_nat n)) \<noteq> None" if "n \<le> 6" for n
  proof -
    from that consider "n = 0" | "n = 1" | "n = 2" | "n = 3" | "n = 4" | "n = 5" | "n = 6" by linarith
    then show ?thesis by cases (simp_all add: slot_try_from_def)
  qed
  with arbitrary_lawsD(3,4) [OF assms] show ?thesis
    by (auto simp: slot_arbitrary_def MAX_SLOT_COUNT_def outcome_iffs)
qed

lemma state_arbitrary_total:
  assumes "arbitrary_laws U"
  shows "fst (state_arbitrary crc U u) \<noteq> Panic"
  using arbitrary_lawsD(1) [OF assms] slot_arbitrary_total [OF assms] by (simp add: state_arbitrary_def outcome_iffs)

lemma state_arbitrary_new: "fst (state_arbitrary crc U u) = Ok s \<Longrightarrow> \<exists>st a b. s = state_new crc st a b"
  unfolding state_arbitrary_def by (elim and_then_fst_Ok) (metis fst_conv res.inject(1))

text \<open>Every run of a target on generated inputs ends without a panic, and the first within its fuel.\<close>

lemma interrupted_target_passes:
  assumes "arbitrary_laws U"
  shows "interrupted_target crc ptr U u = Some (Ok ())"
proof -
  have vec: "case fst (vec_arbitrary U (state_arbitrary crc U) u) of
      Ok xs \<Rightarrow> \<forall>x \<in> set xs. \<exists>v. fst (state_arbitrary crc U v) = Ok x | Err _ \<Rightarrow> True | Panic \<Rightarrow> False"
    using assms state_arbitrary_total [OF assms] unfolding arbitrary_laws_def by blast
  then have total: "fst (interrupted_arbitrary crc U u) \<noteq> Panic"
    using arbitrary_lawsD(3) [OF assms] by (auto simp: interrupted_arbitrary_def outcome_iffs)
  show ?thesis
  proof (cases "interrupted_arbitrary crc U u")
    case (Pair r u')
    show ?thesis
    proof (cases r)
      case (Ok inp)
      with Pair vec have "\<forall>x \<in> set (in_states inp). \<exists>st a b. x = state_new crc st a b"
        by (auto simp: interrupted_arbitrary_def outcome_iffs dest!: state_arbitrary_new)
      then have "\<forall>x \<in> set (in_states inp). \<exists>t. x = (\<lambda>(st, a, b). state_new crc st a b) t" by auto
      then obtain inputs where "in_states inp = map (\<lambda>(st, a, b). state_new crc st a b) inputs"
        unfolding ex_map_conv [symmetric] by blast
      with Pair Ok fuzz_interrupted_run [of crc ptr inputs "in_fail_at inp"] show ?thesis
        by (simp add: interrupted_target_def)
    qed (use Pair total in \<open>simp_all add: interrupted_target_def\<close>)
  qed
qed

lemma random_flash_target_passes:
  assumes "arbitrary_laws U"
  shows "random_flash_target crc ptr U u = Ok ()"
proof -
  have total: "fst (random_arbitrary crc U u) \<noteq> Panic"
    using arbitrary_lawsD(2) [OF assms] state_arbitrary_total [OF assms] by (simp add: random_arbitrary_def outcome_iffs)
  show ?thesis
  proof (cases "random_arbitrary crc U u")
    case (Pair r u')
    show ?thesis
    proof (cases r)
      case (Ok inp)
      with Pair obtain st a b where "in_new_state inp = state_new crc st a b"
        by (auto simp: random_arbitrary_def outcome_iffs dest!: arg_cong [where f = fst] state_arbitrary_new)
      with Pair Ok fuzz_random_flash_run show ?thesis by (simp add: random_flash_target_def)
    qed (use Pair total in \<open>simp_all add: random_flash_target_def\<close>)
  qed
qed

section \<open>Properties\<close>

text \<open>
  C16. Both fuzz targets pass on whatever the fuzzer feeds them. For \<open>interrupted.rs\<close>: with any sequence of
  states and any byte at which the power fails, the loop ends, within two more iterations than there
  are states, and without a panic; after a cut the journal holds the previous or the new state, and the
  next \<open>set\<close> works. For \<open>random-flash.rs\<close>: whatever bytes the flash holds, the journal opens, accepts
  a new state and reads it back. No generator of the inputs panics.
\<close>

theorem fuzz_targets_pass:
  assumes "arbitrary_laws U"
  shows "interrupted_target crc ptr U u = Some (Ok ()) \<and> random_flash_target crc ptr U u = Ok ()"
  using interrupted_target_passes [OF assms] random_flash_target_passes [OF assms] by simp

text \<open>For the witness: numbers from single bytes, vectors of at most two elements.\<close>

fun byte_in_range :: "nat \<Rightarrow> nat \<Rightarrow> u8 list \<Rightarrow> (nat, unit) res \<times> u8 list" where
  "byte_in_range lo hi [] = (Ok lo, [])"
| "byte_in_range lo hi (b # u) = (Ok (lo + unat b mod (Suc hi - lo)), u)"

definition byte_source :: "u8 list unstructured" where
  "byte_source =
     \<lparr>int_in_range = byte_in_range,
      status_arbitrary = (\<lambda>u. case u of [] \<Rightarrow> (Err (), []) | b # u \<Rightarrow> (Ok (if even b then Initial else Confirmed), u)),
      bytes_arbitrary = (\<lambda>u. (Ok (take 2 u), drop 2 u)),
      vec_arbitrary = (\<lambda>gen u. and_then (gen u) (\<lambda>x u. and_then (gen u) (\<lambda>y u. (Ok [x, y], u))))\<rparr>"

lemma byte_source_laws: "arbitrary_laws byte_source"
proof -
  have "case fst (byte_in_range lo hi u) of Ok n \<Rightarrow> lo \<le> n \<and> n \<le> hi | Err _ \<Rightarrow> True | Panic \<Rightarrow> False"
    if "lo \<le> hi" for lo hi u
  proof (cases u)
    case (Cons b rest)
    have "unat b mod (Suc hi - lo) < Suc hi - lo" by (rule mod_less_divisor) (use that in simp)
    with that Cons show ?thesis by (simp add: less_diff_conv)
  qed (use that in simp)
  moreover have "case fst (and_then (gen u) (\<lambda>x u. and_then (gen u) (\<lambda>y u. (Ok [x, y], u)))) of
      Ok xs \<Rightarrow> \<forall>x \<in> set xs. \<exists>v. fst (gen v) = Ok x | Err _ \<Rightarrow> True | Panic \<Rightarrow> False"
    if "\<forall>v. fst (gen v) \<noteq> Panic" for gen :: "u8 list \<Rightarrow> (state, unit) res \<times> u8 list" and u
  proof (cases "fst (and_then (gen u) (\<lambda>x u. and_then (gen u) (\<lambda>y u. (Ok [x, y], u))))")
    case (Ok xs)
    then show ?thesis by (elim and_then_fst_Ok) (auto, (metis fst_conv)+)
  qed (use that in \<open>auto simp: outcome_iffs\<close>)
  ultimately show ?thesis by (simp add: arbitrary_laws_def byte_source_def split: list.split)
qed

theorem fuzz_targets_pass_witness:
  "interrupted_target crc8_opensafety 0 byte_source [0, 1, 2, 3, 4, 5, 3] = Some (Ok ()) \<and>
   random_flash_target crc8_opensafety 0 byte_source [0, 1, 2, 3, 4, 5, 3] = Ok ()"
  by (rule fuzz_targets_pass [OF byte_source_laws])

end
