(* ===== verification/Fcb.thy ===== *)
theory Fcb
  imports Slim_Prelude
begin

text \<open>
  The flash configuration blocks of \<open>libs/ec-slimloader-imxrt/src/fcb.rs\<close>, which the boot ROM reads from
  the start of the flash. The block type and \<open>flexspi_lut_seq\<close> belong to the crate \<open>mimxrt600_fcb\<close>: the
  function and the block that \<open>build()\<close> makes are parameters. \<open>fcb\<close> has the settings the sources make;
  the others of the block are the extension of the record, and keep the value \<open>build()\<close> gave them.
  Cargo features select the block, and \<open>compile_error!\<close> rejects combinations of them.
\<close>

datatype lut_opcode = CMD_SDR | RADDR_SDR | READ_SDR | STOP

datatype num_pads = Single

datatype sflash_pad_type = QuadPads

datatype serial_clk_freq = SdrDdr50mhz

datatype serial_nor_type = StandardSpi

type_synonym lut_seq = "lut_opcode \<Rightarrow> num_pads \<Rightarrow> u8 \<Rightarrow> lut_opcode \<Rightarrow> num_pads \<Rightarrow> u8 \<Rightarrow> u32"

record fcb =
  device_mode_cfg_enable :: u8
  wait_time_cfg_commands :: u8
  device_mode_arg :: "u8 list"
  config_mode_type :: "u8 list"
  controller_misc_option :: u32
  fcb_sflash_pad_type :: sflash_pad_type
  fcb_serial_clk_freq :: serial_clk_freq
  sflash_a1_size :: u32
  sflash_b1_size :: u32
  lookup_table :: "u32 list"
  fcb_serial_nor_type :: serial_nor_type
  flash_state_ctx :: u32

definition FCB_685EVK :: "'a fcb_scheme \<Rightarrow> 'a fcb_scheme" where
  "FCB_685EVK build = build"

definition FCB_A1NOR :: "lut_seq \<Rightarrow> 'a fcb_scheme \<Rightarrow> 'a fcb_scheme" where
  "FCB_A1NOR flexspi_lut_seq build =
     build
      \<lparr>device_mode_cfg_enable := 0,
       wait_time_cfg_commands := 0,
       device_mode_arg := replicate 4 0,
       config_mode_type := [0, 1, 2],
       controller_misc_option := 0x10,
       fcb_sflash_pad_type := QuadPads,
       fcb_serial_clk_freq := SdrDdr50mhz,
       sflash_a1_size := 0x00400000,
       sflash_b1_size := 0,
       lookup_table :=
         [flexspi_lut_seq CMD_SDR Single 0x03 RADDR_SDR Single 0x18,
          flexspi_lut_seq READ_SDR Single 0x80 STOP Single 0x00] @ replicate 62 0,
       fcb_serial_nor_type := StandardSpi,
       flash_state_ctx := 0\<rparr>"

definition FCB_B1NOR :: "lut_seq \<Rightarrow> 'a fcb_scheme \<Rightarrow> 'a fcb_scheme" where
  "FCB_B1NOR flexspi_lut_seq build =
     build
      \<lparr>device_mode_cfg_enable := 0,
       wait_time_cfg_commands := 0,
       device_mode_arg := replicate 4 0,
       config_mode_type := [0, 1, 2],
       controller_misc_option := 0x10,
       fcb_sflash_pad_type := QuadPads,
       fcb_serial_clk_freq := SdrDdr50mhz,
       sflash_a1_size := 0,
       sflash_b1_size := 0x00400000,
       lookup_table :=
         [flexspi_lut_seq CMD_SDR Single 0x03 RADDR_SDR Single 0x18,
          flexspi_lut_seq READ_SDR Single 0x80 STOP Single 0x00] @ replicate 62 0,
       fcb_serial_nor_type := StandardSpi,
       flash_state_ctx := 0\<rparr>"

text \<open>The features that select a block, those that the manifest adds to them, and the blocks that are linked.\<close>

record fcb_features =
  imxrt_fcb_1spi_nor :: bool
  imxrt_fcb_rt685evk :: bool
  imxrt_fcb_1spi_a1_nor :: bool
  imxrt_fcb_1spi_b1_nor :: bool
  mimxrt685s_evk :: bool

datatype fcb_compile_error = MoreThanOneFcb | MoreThanOneBank

definition implied_features :: "fcb_features \<Rightarrow> fcb_features" where
  "implied_features fs =
     fs\<lparr>imxrt_fcb_1spi_nor := imxrt_fcb_1spi_nor fs \<or> imxrt_fcb_1spi_a1_nor fs \<or> imxrt_fcb_1spi_b1_nor fs,
        imxrt_fcb_rt685evk := imxrt_fcb_rt685evk fs \<or> mimxrt685s_evk fs\<rparr>"

definition linked_fcbs :: "lut_seq \<Rightarrow> 'a fcb_scheme \<Rightarrow> fcb_features \<Rightarrow> ('a fcb_scheme list, fcb_compile_error) res" where
  "linked_fcbs flexspi_lut_seq build fs =
     (if imxrt_fcb_1spi_nor fs \<and> imxrt_fcb_rt685evk fs then Err MoreThanOneFcb
      else if imxrt_fcb_1spi_a1_nor fs \<and> imxrt_fcb_1spi_b1_nor fs then Err MoreThanOneBank
      else Ok ((if imxrt_fcb_rt685evk fs then [FCB_685EVK build] else []) @
               (if imxrt_fcb_1spi_a1_nor fs then [FCB_A1NOR flexspi_lut_seq build] else []) @
               (if imxrt_fcb_1spi_b1_nor fs then [FCB_B1NOR flexspi_lut_seq build] else [])))"

section \<open>Lemmas\<close>

text \<open>
  The two blocks are the same up to the bank that holds the flash, and the lookup table has the 64 words
  of the FlexSPI controller.
\<close>

lemma fcb_banks:
  "FCB_B1NOR f build =
    (FCB_A1NOR f build)\<lparr>sflash_a1_size := sflash_b1_size (FCB_A1NOR f build), sflash_b1_size := sflash_a1_size (FCB_A1NOR f build)\<rparr>"
  "length (lookup_table (FCB_A1NOR f build)) = 64"
  by (simp_all add: FCB_A1NOR_def FCB_B1NOR_def)

text \<open>
  A build has at most one block, whatever features are asked for. The checks alone would not do: they
  rest on the features that the manifest adds.
\<close>

lemma at_most_one_fcb:
  "linked_fcbs f build (implied_features fs) = Ok bs \<Longrightarrow> length bs \<le> 1"
  by (auto simp: linked_fcbs_def implied_features_def split: if_splits)

lemma one_fcb_compiles:
  "linked_fcbs f build (implied_features fs) = Ok [FCB_A1NOR f build]"
  if "fs = \<lparr>imxrt_fcb_1spi_nor = False, imxrt_fcb_rt685evk = False, imxrt_fcb_1spi_a1_nor = True,
            imxrt_fcb_1spi_b1_nor = False, mimxrt685s_evk = False\<rparr>"
  by (simp add: that linked_fcbs_def implied_features_def)

lemma checks_need_implied_features:
  "\<exists>fs bs. linked_fcbs f build fs = Ok bs \<and> length bs = 2"
  by (rule exI [of _ "\<lparr>imxrt_fcb_1spi_nor = False, imxrt_fcb_rt685evk = True, imxrt_fcb_1spi_a1_nor = True,
      imxrt_fcb_1spi_b1_nor = False, mimxrt685s_evk = False\<rparr>"]) (simp add: linked_fcbs_def)

end
