(* ===== verification/Device_Contract.thy ===== *)
theory Device_Contract
  imports Imxrt_Board
begin

text \<open>
  What a device keeps across power failures. \<open>journal_reopen\<close> adds to the contract of the journal that
  a \<open>set\<close> leaves storage behind that can be opened again, however it ended, and that opening finds
  what is persisted; \<open>device_contract\<close> joins it with the contract of a board. The client lemma is that
  every boot, completed or not, leaves storage the next boot can open. Both are interpreted on the mock
  flash and the i.MX RT board.
\<close>

locale journal_reopen = journal_contract crc ops N jinv jreliable persisted
  for crc :: crc8
    and ops :: "('f, 'e) nor_flash"
    and N :: nat
    and jinv :: "'f flash_journal \<Rightarrow> bool"
    and jreliable :: "'f flash_journal \<Rightarrow> bool"
    and persisted :: "'f \<Rightarrow> state option" +
  fixes storage_ok :: "'f \<Rightarrow> bool"
  assumes jinv_storage: "jinv j \<Longrightarrow> storage_ok (inner j)"
    and set_storage:
      "jinv j \<Longrightarrow> valid_state crc s \<Longrightarrow> journal_set crc ops N s j = (r, j') \<Longrightarrow> storage_ok (inner j')"
    and open_storage:
      "storage_ok f \<Longrightarrow> \<exists>j f'. journal_new crc ops N f = (Ok j, f') \<and> jinv j \<and> journal_get j = persisted f"
begin

text \<open>An update that fails or succeeds, followed by a reset: the journal opens on one of the two states.\<close>

lemma set_then_open:
  assumes "jinv j" and "valid_state crc s" and "journal_set crc ops N s j = (r, j')"
  shows "\<exists>j'' f'. journal_new crc ops N (inner j') = (Ok j'', f') \<and> jinv j'' \<and>
    journal_get j'' \<in> {journal_get j, Some s}"
proof -
  from open_storage [OF set_storage [OF assms]] obtain j'' f' where
    "journal_new crc ops N (inner j') = (Ok j'', f')" "jinv j''" "journal_get j'' = persisted (inner j')"
    by blast
  with set_atomic [OF assms] show ?thesis by auto
qed

end

locale device_contract =
  board_contract crc ops N jinv jreliable persisted B +
  journal_reopen crc ops N jinv jreliable persisted storage_ok
  for crc :: crc8
    and ops :: "('f, 'e) nor_flash"
    and N :: nat
    and jinv :: "'f flash_journal \<Rightarrow> bool"
    and jreliable :: "'f flash_journal \<Rightarrow> bool"
    and persisted :: "'f \<Rightarrow> state option"
    and B :: "('c, 'b, 'f) board"
    and storage_ok :: "'f \<Rightarrow> bool"
begin

lemma set_status_storage:
  assumes "jinv (board_journal B b)" and "set_status crc ops N B st s b = (r, b')"
  shows "storage_ok (inner (board_journal B b'))"
  using assms set_storage [OF assms(1) valid_with_status [of crc s st]]
  by (auto simp: set_status_def journal_of_set Let_def split: prod.splits res.splits)

lemma determine_intent_storage:
  assumes "jinv (board_journal B b)" and "determine_intent crc ops N B s b = (r, b')"
  shows "storage_ok (inner (board_journal B b'))"
proof -
  have step: "storage_ok (inner (board_journal B b'))"
    if "and_then (set_status crc ops N B st s b) (\<lambda>s b. (Ok (i, s), b)) = (r, b')" for st i
    using that set_status_storage [OF assms(1), of st s]
    by (cases "set_status crc ops N B st s b") (elim and_then_state; auto)
  then show ?thesis
    using assms jinv_storage by (cases "state_status s") (auto simp: determine_intent_def)
qed

lemma mark_failed_storage:
  assumes "jinv (board_journal B b)" and "mark_failed crc ops N B s b = (r, b')"
  shows "storage_ok (inner (board_journal B b'))"
  using assms set_status_storage [OF assms(1)] jinv_storage by (auto simp: mark_failed_def split: if_splits)

text \<open>However a boot ends, the next one can open the journal.\<close>

lemma start_board_storage:
  assumes pol: "policy_ok crc B" and rec: "recorded s b" and run: "start_board crc ops N B b = (r, b')"
  shows "storage_ok (inner (board_journal B b'))"
proof -
  have j: "jinv (board_journal B b)" and fetch: "fetch_state B b = Ok s"
    using rec by (simp_all add: recorded_def)
  obtain r1 b1 where d: "determine_intent crc ops N B s b = (r1, b1)" by fastforce
  note S1 = determine_intent_storage [OF j d]
  show ?thesis
  proof (cases r1)
    case (Ok x)
    obtain i s1 where x: "x = (i, s1)" by (cases x)
    obtain r2 b2 where c: "check_and_boot B (intent_slot i s1) b1 = (r2, b2)" by fastforce
    note J2 = check_and_boot_journal [OF c]
    have j2: "jinv (board_journal B b2)"
      using determine_intent_Ok [OF pol rec d [unfolded Ok x]] J2 by (simp add: recorded_def)
    obtain r3 b3 where m: "mark_failed crc ops N B s1 b2 = (r3, b3)" by fastforce
    note S3 = mark_failed_storage [OF j2 m]
    have "b' = b2 \<or> b' = b3 \<or> (\<exists>s3. boot_backup B (intent_slot i s1) s3 b3 = (r, b'))"
      using run fetch d Ok x c m
      by (cases r2; cases r3) (auto simp: start_board_def Let_def split: boot_outcome.splits)
    with S1 S3 J2 boot_backup_journal show ?thesis by auto
  qed (use run fetch d S1 in \<open>auto simp: start_board_def\<close>)
qed

end

section \<open>The mock flash and the i.MX RT board keep the contracts\<close>

definition mock_storage_ok :: "mock_geometry \<Rightarrow> nat \<Rightarrow> mock_flash \<Rightarrow> bool" where
  "mock_storage_ok g N f \<longleftrightarrow> (even N \<and> 2 \<le> N) \<and> mock_inv g f \<and> 2 \<le> PAGES g"

lemma mock_journal_ok_storage:
  assumes "mock_journal_ok crc g ptr N j"
  shows "mock_storage_ok g N (inner j)"
proof -
  have inv: "mock_journal_inv crc g ptr j" and N: "even N" "2 \<le> N"
    using assms by (simp_all add: mock_journal_ok_def)
  have "mock_inv g (inner j)" "2 \<le> PAGES g"
    using inv mock_page_count [of g "inner j" ptr] by (simp_all add: journal_inv_def)
  with N show ?thesis by (simp add: mock_storage_ok_def)
qed

lemma mock_journal_set_storage:
  assumes "mock_journal_ok crc g ptr N j" and "valid_state crc s"
    and "journal_set crc (mock_ops g ptr) N s j = (r, j')"
  shows "mock_storage_ok g N (inner j')"
  using assms mock.journal_set_effect [of crc g ptr j s N r j'] mock_journal_ok_storage [OF assms(1)]
  by (simp add: mock_journal_ok_def mock_storage_ok_def)

lemma mock_storage_open:
  assumes "mock_storage_ok g N f"
  shows "\<exists>j f'. journal_new crc (mock_ops g ptr) N f = (Ok j, f') \<and> mock_journal_ok crc g ptr N j \<and>
    journal_get j = latest_state crc (mf_data f) \<and> (mock_reliable f \<longrightarrow> mock_reliable (inner j))"
  using assms mock_journal_new [of g f N crc ptr] by (auto simp: mock_storage_ok_def mock_journal_ok_def)

interpretation reopen: journal_reopen crc "mock_ops g ptr" N "mock_journal_ok crc g ptr N"
  "\<lambda>j. mock_reliable (inner j)" "\<lambda>f. latest_state crc (mf_data f)" "mock_storage_ok g N" for crc g ptr N
proof unfold_locales
  fix f
  assume "mock_storage_ok g N f"
  then show "\<exists>j f'. journal_new crc (mock_ops g ptr) N f = (Ok j, f') \<and> mock_journal_ok crc g ptr N j \<and>
      journal_get j = latest_state crc (mf_data f)"
    using mock_storage_open by blast
qed (auto intro: mock_journal_ok_storage mock_journal_set_storage)

interpretation device: device_contract crc "mock_ops g ptr" N "mock_journal_ok crc g ptr N"
  "\<lambda>j. mock_reliable (inner j)" "\<lambda>f. latest_state crc (mf_data f)"
  "imxrt_board crc (mock_ops g ptr) cfg rom pops" "mock_storage_ok g N" for crc g ptr N cfg rom pops
  ..

end
