(* ===== verification/Tool_Util.thy ===== *)
theory Tool_Util
  imports Slim_Prelude
begin

unbundle bit_operations_syntax

text \<open>
  The data helpers of \<open>bootloader-tool\<close>: hexadecimal text and word conversions (\<open>util/mod.rs\<close>), the
  root key table hash (\<open>Rkth\<close> of \<open>processors/certificates.rs\<close>) and the OTP master key (\<open>Otp\<close> of
  \<open>processors/otp.rs\<close>). Text is its UTF-8 bytes, as the functions see it; an \<open>anyhow::Error\<close> is an
  element of \<open>tool_error\<close>, with the messages of the sources as constructors.
\<close>

section \<open>Hexadecimal text\<close>

datatype hex_error = NotHexadecimal | WrongSize

text \<open>\<open>char::to_digit(16)\<close> on an ASCII byte.\<close>

definition hex_digit :: "u8 \<Rightarrow> nat option" where
  "hex_digit c =
     (if 0x30 \<le> c \<and> c \<le> 0x39 then Some (unat c - 0x30)
      else if 0x41 \<le> c \<and> c \<le> 0x46 then Some (unat c - 0x37)
      else if 0x61 \<le> c \<and> c \<le> 0x66 then Some (unat c - 0x57)
      else None)"

fun hex_digits :: "nat \<Rightarrow> u8 list \<Rightarrow> nat option" where
  "hex_digits acc [] = Some acc"
| "hex_digits acc (c # cs) =
     (case hex_digit c of
        None \<Rightarrow> None
      | Some d \<Rightarrow> if acc * 16 + d < 256 then hex_digits (acc * 16 + d) cs else None)"

text \<open>
  \<open>u8::from_str_radix(_, 16)\<close>: a leading \<open>+\<close> is accepted, a sign alone is not.
\<close>

fun from_str_radix_16 :: "u8 list \<Rightarrow> u8 option" where
  "from_str_radix_16 [] = None"
| "from_str_radix_16 [c] = (if c = 0x2b \<or> c = 0x2d then None else map_option of_nat (hex_digits 0 [c]))"
| "from_str_radix_16 (c # cs) = map_option of_nat (hex_digits 0 (if c = 0x2b then cs else c # cs))"

text \<open>\<open>str::from_utf8\<close> on two bytes: two ASCII characters or one of two bytes.\<close>

definition valid_utf8_pair :: "u8 list \<Rightarrow> bool" where
  "valid_utf8_pair cs \<longleftrightarrow>
     cs ! 0 < 0x80 \<and> cs ! 1 < 0x80 \<or>
     0xc2 \<le> cs ! 0 \<and> cs ! 0 \<le> 0xdf \<and> 0x80 \<le> cs ! 1 \<and> cs ! 1 \<le> 0xbf"

text \<open>The lazy \<open>map\<close> and \<open>try_collect\<close>: the first failing pair ends the run.\<close>

fun collect_hex :: "u8 list list \<Rightarrow> (u8 list, hex_error) res" where
  "collect_hex [] = Ok []"
| "collect_hex (chunk # rest) =
     (if \<not> valid_utf8_pair chunk then Panic
      else res_bind (ok_or NotHexadecimal (from_str_radix_16 chunk)) (\<lambda>b.
           res_bind (collect_hex rest) (\<lambda>bs. Ok (b # bs))))"

definition parse_hex :: "u8 list \<Rightarrow> (u8 list, hex_error) res" where
  "parse_hex s = collect_hex (chunks_exact 2 s)"

text \<open>The format \<open>{b:02X}\<close>.\<close>

definition hex_char :: "nat \<Rightarrow> u8" where
  "hex_char d = of_nat (if d < 10 then 0x30 + d else 0x37 + d)"

definition format_02X :: "u8 \<Rightarrow> u8 list" where
  "format_02X b = [hex_char (unat b div 16), hex_char (unat b mod 16)]"

fun generate_hex_loop :: "u8 list \<Rightarrow> u8 list \<Rightarrow> u8 list" where
  "generate_hex_loop result [] = result"
| "generate_hex_loop result (b # bs) = generate_hex_loop (result @ format_02X b) bs"

definition generate_hex :: "u8 list \<Rightarrow> u8 list" where
  "generate_hex buf = generate_hex_loop [] buf"

definition bytes_to_u32_le :: "u8 list \<Rightarrow> u32 list" where
  "bytes_to_u32_le b = map u32_from_le_bytes (chunks_exact 4 b)"

definition bytes_to_u32_be :: "u8 list \<Rightarrow> u32 list" where
  "bytes_to_u32_be b = map u32_from_be_bytes (chunks_exact 4 b)"

section \<open>Keys\<close>

text \<open>\<open>Rkth([u8; 32])\<close> and \<open>Otp([u8; 32])\<close>.\<close>

datatype rkth = Rkth (rkth_bytes: "u8 list")

datatype otp = Otp (otp_bytes: "u8 list")

definition try_into_32 :: "u8 list \<Rightarrow> (u8 list, hex_error) res" where
  "try_into_32 bs = (if length bs = 32 then Ok bs else Err WrongSize)"

definition rkth_as_hex :: "rkth \<Rightarrow> u8 list" where
  "rkth_as_hex r = generate_hex (rkth_bytes r)"

definition rkth_from_hex :: "u8 list \<Rightarrow> (rkth, hex_error) res" where
  "rkth_from_hex s = res_bind (parse_hex s) (\<lambda>bs. res_bind (try_into_32 bs) (\<lambda>bs. Ok (Rkth bs)))"

definition rkth_as_u32_le :: "rkth \<Rightarrow> u32 list" where
  "rkth_as_u32_le r = bytes_to_u32_le (rkth_bytes r)"

definition otp_as_hex :: "otp \<Rightarrow> u8 list" where
  "otp_as_hex k = generate_hex (otp_bytes k)"

definition otp_from_hex :: "u8 list \<Rightarrow> (otp, hex_error) res" where
  "otp_from_hex s = res_bind (parse_hex s) (\<lambda>bs. res_bind (try_into_32 bs) (\<lambda>bs. Ok (Otp bs)))"

definition otp_as_reversed_u32_be :: "otp \<Rightarrow> u32 list" where
  "otp_as_reversed_u32_be k = rev (bytes_to_u32_be (otp_bytes k))"

text \<open>\<open>hmac_key\<close>: one AES-256 block of zeros under the key; \<open>aes256\<close> stands for the cipher.\<close>

definition hmac_key :: "(u8 list \<Rightarrow> u8 list \<Rightarrow> u8 list) \<Rightarrow> otp \<Rightarrow> u8 list" where
  "hmac_key aes256 k = aes256 (otp_bytes k) (replicate 16 0)"

section \<open>Lemmas\<close>

lemma chunks_exact_append:
  "length xs = n \<Longrightarrow> 0 < n \<Longrightarrow> chunks_exact n (xs @ ys) = xs # chunks_exact n ys"
  by (cases "n = 0") (simp_all add: chunks_exact.simps [of n "xs @ ys"])

lemma chunks_exact_Nil [simp]: "chunks_exact n [] = []"
  by (subst chunks_exact.simps) auto

lemma generate_hex_loop_eq: "generate_hex_loop result bs = result @ concat (map format_02X bs)"
  by (induction bs arbitrary: result) simp_all

lemma generate_hex_eq: "generate_hex bs = concat (map format_02X bs)"
  by (simp add: generate_hex_def generate_hex_loop_eq)

lemma hex_char_cases:
  assumes "d < 16"
  shows "hex_digit (hex_char d) = Some d" "hex_char d < 0x80" "hex_char d \<noteq> 0x2b"
proof -
  have "d \<in> {0, 1, 2, 3, 4, 5, 6, 7, 8, 9, 10, 11, 12, 13, 14, 15}" using assms unfolding insert_iff empty_iff by presburger
  then show "hex_digit (hex_char d) = Some d" "hex_char d < 0x80" "hex_char d \<noteq> 0x2b"
    by (elim insertE emptyE; simp add: hex_char_def hex_digit_def)+
qed

lemma from_str_radix_format: "from_str_radix_16 (format_02X b) = Some b"
proof -
  have "unat b div 16 < 16" "unat b mod 16 < 16" using unat_u8_less [of b] by linarith+
  note d = hex_char_cases [OF this(1)] hex_char_cases [OF this(2)]
  then show ?thesis
    by (simp add: format_02X_def) (use unat_u8_less [of b] in linarith)
qed

lemma valid_utf8_format: "valid_utf8_pair (format_02X b)"
proof -
  have "unat b div 16 < 16" "unat b mod 16 < 16" using unat_u8_less [of b] by linarith+
  then show ?thesis by (simp add: valid_utf8_pair_def format_02X_def hex_char_cases)
qed

lemma parse_generate_hex: "parse_hex (generate_hex bs) = Ok bs"
proof (induction bs)
  case (Cons b bs)
  have "chunks_exact 2 (generate_hex (b # bs)) = format_02X b # chunks_exact 2 (generate_hex bs)"
    using chunks_exact_append [of "format_02X b" 2] by (simp add: generate_hex_eq format_02X_def)
  with Cons show ?case
    by (simp add: parse_hex_def valid_utf8_format from_str_radix_format del: from_str_radix_16.simps)
qed (simp add: parse_hex_def generate_hex_def)

lemma bytes_to_u32_le_concat: "bytes_to_u32_le (concat (map u32_to_le_bytes ws)) = ws"
  by (induction ws) (simp_all add: bytes_to_u32_le_def chunks_exact_append)

lemma bytes_to_u32_be_concat: "bytes_to_u32_be (concat (map u32_to_be_bytes ws)) = ws"
  by (induction ws) (simp_all add: bytes_to_u32_be_def chunks_exact_append)

end
