(* ===== verification/Tool_Run.thy ===== *)
theory Tool_Run
  imports Tool_Util Imxrt_Board
begin

unbundle bit_operations_syntax

text \<open>
  The register setup of \<open>bootloader-tool/src/commands/run.rs\<close>: over the debug probe, the tool puts the
  root key hash, the OTP key and the boot configuration into the shadow registers of a chip whose
  fuses are not burnt, and resets it. The probe's memory writes are taken to succeed; signing,
  flashing and the attached log session are not part of this theory. The property relates the setup
  to what the bootloader reads.
\<close>

text \<open>\<open>core.write_32(addr, words)\<close> on the shadow register block.\<close>

definition write_32 :: "u32 \<Rightarrow> u32 list \<Rightarrow> 'x hw \<Rightarrow> 'x hw" where
  "write_32 addr ws h =
     h\<lparr>shadow_mem := (\<lambda>b. if unat (b - addr) mod 4 = 0 \<and> unat (b - addr) div 4 < length ws
                          then ws ! (unat (b - addr) div 4) else shadow_mem h b)\<rparr>"

definition run_boot0 :: u32 where
  "run_boot0 =
     (let boot0 = 0;
          boot0 = boot0 OR 0b0101;
          boot0 = boot0 OR push_bit 4 0b111;
          boot0 = boot0 OR push_bit 13 0b10;
          boot0 = boot0 OR push_bit 20 0b01;
          boot0 = boot0 OR push_bit 23 0b1;
          boot0 = boot0 OR push_bit 24 0b101;
          boot0 = boot0 OR push_bit 27 0b00111
      in boot0)"

definition run_boot1 :: u32 where
  "run_boot1 =
     (let boot1 = 0;
          boot1 = boot1 OR push_bit 14 1;
          boot1 = boot1 OR push_bit 15 2;
          boot1 = boot1 OR push_bit 18 12
      in boot1)"

definition configure_target :: "rkth \<Rightarrow> otp \<Rightarrow> 'x hw \<Rightarrow> 'x hw" where
  "configure_target r k h =
     (let h = write_32 0x401301E0 (rkth_as_u32_le r) h;
          h = write_32 0x401301C0 (otp_as_reversed_u32_be k) h;
          h = write_32 0x40130180 [run_boot0] h;
          h = write_32 0x40130184 [run_boot1] h;
          buf = shadow_mem h 0x40130194;
          buf = buf AND NOT (push_bit 7 1)
      in write_32 0x40130194 [buf] h)"

section \<open>Lemmas\<close>

lemma bytes_to_u32_le_inverse:
  "length bs = 4 * n \<Longrightarrow> length (bytes_to_u32_le bs) = n \<and> concat (map u32_to_le_bytes (bytes_to_u32_le bs)) = bs"
proof (induction n arbitrary: bs)
  case (Suc n)
  have front: "length (take 4 bs) = 4" using Suc.prems by simp
  have "bytes_to_u32_le bs = u32_from_le_bytes (take 4 bs) # bytes_to_u32_le (drop 4 bs)"
    using chunks_exact_append [OF front, of "drop 4 bs"] by (simp add: bytes_to_u32_le_def)
  with Suc.IH [of "drop 4 bs"] Suc.prems u32_to_from_le_bytes_length [OF front] show ?case by simp
qed (simp add: bytes_to_u32_le_def)

lemma length_bytes_to_u32_be: "length bs = 4 * n \<Longrightarrow> length (bytes_to_u32_be bs) = n"
proof (induction n arbitrary: bs)
  case (Suc n)
  have front: "length (take 4 bs) = 4" using Suc.prems by simp
  have "bytes_to_u32_be bs = u32_from_be_bytes (take 4 bs) # bytes_to_u32_be (drop 4 bs)"
    using chunks_exact_append [OF front, of "drop 4 bs"] by (simp add: bytes_to_u32_be_def)
  with Suc show ?case by simp
qed (simp add: bytes_to_u32_be_def)

lemma shadow_mem_write_32:
  "shadow_mem (write_32 addr ws h) b =
     (if unat (b - addr) mod 4 = 0 \<and> unat (b - addr) div 4 < length ws then ws ! (unat (b - addr) div 4)
      else shadow_mem h b)"
  by (simp add: write_32_def)

text \<open>The words the bootloader looks at after the setup.\<close>

lemma configure_target_words:
  assumes "length (rkth_bytes r) = 32" and "length (otp_bytes k) = 32"
  shows "shadow_mem (configure_target r k h) 0x40130180 = run_boot0"
    and "shadow_mem (configure_target r k h) 0x40130184 = run_boot1"
    and "j < 8 \<Longrightarrow> shadow_mem (configure_target r k h) (0x401301E0 + 4 * of_nat j) = rkth_as_u32_le r ! j"
proof -
  have len: "length (rkth_as_u32_le r) = 8" "length (otp_as_reversed_u32_be k) = 8"
    using assms bytes_to_u32_le_inverse [of _ 8] length_bytes_to_u32_be [of _ 8]
    by (simp_all add: rkth_as_u32_le_def otp_as_reversed_u32_be_def)
  show "shadow_mem (configure_target r k h) 0x40130180 = run_boot0"
    "shadow_mem (configure_target r k h) 0x40130184 = run_boot1"
    using len by (simp_all add: configure_target_def shadow_mem_write_32 Let_def)
  assume "j < 8"
  then consider "j = 0" | "j = 1" | "j = 2" | "j = 3" | "j = 4" | "j = 5" | "j = 6" | "j = 7" by linarith
  then show "shadow_mem (configure_target r k h) (0x401301E0 + 4 * of_nat j) = rkth_as_u32_le r ! j"
    by cases (use len in \<open>simp_all add: configure_target_def shadow_mem_write_32 Let_def\<close>)
qed

text \<open>Reading one of the two configuration words.\<close>

lemma shadow_read_word:
  assumes "otp_to_shadow_addr i = Ok a"
  shows "shadow_read_register i (replicate 4 0) h = (Ok (u32_to_le_bytes (shadow_mem h a)), h)"
proof -
  have "chunks 4 (replicate 4 (0 :: u8)) = [replicate 4 0]" using chunks_replicate [of 4 1] by simp
  with assms shadow_read_words [of "replicate 4 0" i h "\<lambda>_. shadow_mem h a"] show ?thesis by simp
qed

lemma boot_cfg_addresses:
  "otp_to_shadow_addr 96 = Ok 0x40130180" "otp_to_shadow_addr 97 = Ok 0x40130184"
  by (simp_all add: otp_to_shadow_addr_def otp_to_shadow_offset_def)

lemma shadow_rkth_words:
  assumes "length ws = 8" and "\<And>j. j < 8 \<Longrightarrow> shadow_mem h (0x401301E0 + 4 * of_nat j) = ws ! j"
  shows "shadow_rkth h = (Ok (concat (map u32_to_le_bytes ws)), h)"
proof -
  have cs: "chunks 4 (replicate 32 (0 :: u8)) = replicate 8 (replicate 4 0)"
    using chunks_replicate [of 4 8] by simp
  have "\<exists>a. otp_to_shadow_addr (120 + of_nat j) = Ok a \<and> shadow_mem h a = ws ! j" if "j < 8" for j
    using shadow_words_rkth [OF that] otp_to_shadow_addr_Ok [of "120 + of_nat j"] assms(2) [OF that]
    by (auto simp: algebra_simps)
  then have "shadow_rkth h =
      (Ok (concat (map (\<lambda>j. take (length (replicate 8 (replicate 4 (0 :: u8)) ! j)) (u32_to_le_bytes (ws ! j))) [0..<8])), h)"
    using shadow_read_words [of "replicate 32 0" 120 h "\<lambda>j. ws ! j"] by (simp add: shadow_registers_eqs cs)
  also have "map (\<lambda>j. take (length (replicate 8 (replicate 4 (0 :: u8)) ! j)) (u32_to_le_bytes (ws ! j))) [0..<8] =
      map u32_to_le_bytes ws"
    by (rule nth_equalityI) (use assms(1) in simp_all)
  finally show ?thesis .
qed

lemma configure_target_read:
  assumes "length (rkth_bytes r) = 32" and "length (otp_bytes k) = 32"
  shows "let h' = configure_target r k h in
    shadow_rkth h' = (Ok (rkth_bytes r), h') \<and>
    (\<exists>cfg0. shadow_boot_cfg_0 h' = (Ok cfg0, h') \<and> \<not> secure_boot_disabled cfg0) \<and>
    evk_fix h' = (Ok (), h')"
proof -
  let ?h = "configure_target r k h"
  note w = configure_target_words [where h = h, OF assms]
  have ws: "length (rkth_as_u32_le r) = 8" "concat (map u32_to_le_bytes (rkth_as_u32_le r)) = rkth_bytes r"
    using assms(1) bytes_to_u32_le_inverse [of "rkth_bytes r" 8] by (simp_all add: rkth_as_u32_le_def)
  have rkth: "shadow_rkth ?h = (Ok (rkth_bytes r), ?h)"
    using shadow_rkth_words [OF ws(1) w(3)] ws(2) by simp
  have cfg0: "shadow_boot_cfg_0 ?h = (Ok (u32_to_le_bytes run_boot0), ?h)"
    using shadow_read_word [OF boot_cfg_addresses(1), of ?h] w(1) by (simp add: shadow_registers_eqs)
  have sec: "\<not> secure_boot_disabled (u32_to_le_bytes run_boot0)"
    by (simp add: secure_boot_disabled_def secure_boot_from_def field_get_def manifest_defs run_boot0_def)
  have cfg1: "shadow_boot_cfg_1 ?h = (Ok (u32_to_le_bytes run_boot1), ?h)"
    using shadow_read_word [OF boot_cfg_addresses(2), of ?h] w(2) by (simp add: shadow_registers_eqs)
  have fields: "set_field 18 23 12 (set_field 15 18 2 (set_field 14 15 1 run_boot1)) = run_boot1"
    by (simp add: set_field_def run_boot1_def mask_eq_exp_minus_1)
  have same: "?h\<lparr>shadow_mem := (shadow_mem ?h)(0x40130184 := run_boot1)\<rparr> = ?h"
    using w(2) by (simp add: fun_upd_idem)
  have "shadow_write_register 97 (u32_to_le_bytes run_boot1) ?h = (Ok (), ?h)"
    using same boot_cfg_addresses(2)
    by (simp add: shadow_write_register_def data_to_otp_words_def u32_to_le_bytes_def chunks_step chunk_to_word_def)
      (simp add: u32_to_le_bytes_def [symmetric])
  then have "evk_fix ?h = (Ok (), ?h)"
    using cfg1 fields
    by (simp add: evk_fix_def shadow_register_modify_def register_modify_def shadow_registers_eqs) (simp add: manifest_defs)
  with rkth cfg0 sec show ?thesis by (simp add: Let_def)
qed

section \<open>Properties\<close>



end
