(* ===== verification/Example_App.thy ===== *)
theory Example_App
  imports Boot_Properties Device_Contract Tool_Run
begin

unbundle bit_operations_syntax

text \<open>
  The example programs under \<open>examples/rt685s\<close>: the configuration of the bootloader
  (\<open>bootloader/src/main.rs\<close>) with the flash layout of \<open>bsp/src/ext-flash.toml\<close>, and the application
  (\<open>application/src/main.rs\<close>): how it reads its role from the journal, what its first button writes,
  and the fuses it burns after a long press. The four tasks the application joins share nothing but
  the button handler's journal and registers, so each is one function: a press of the first button,
  and one round of each LED task. The second button resets the chip. Time is counted in the ticks of the time
  driver, \<open>tick_hz\<close> per second.
\<close>

section \<open>The bootloader's configuration\<close>

definition BL_JOURNAL_BUFFER_SIZE :: nat where
  "BL_JOURNAL_BUFFER_SIZE = 4096"

text \<open>\<open>Config\<close>, with the trait's own policy; the features and the ROM buffer stay open.\<close>

definition example_config :: "crc8 \<Rightarrow> bool \<Rightarrow> bool \<Rightarrow> u32 \<Rightarrow> imxrt_config" where
  "example_config crc non_secure evk buf =
     \<lparr>SLOT_SIZE_RANGE = (64, 1024 * 1024),
      LOAD_RANGE = (0x10020000, 0x10180000),
      cfg_default_state = policy_default_state crc,
      cfg_is_valid_state = policy_is_valid_state,
      feature_non_secure = non_secure,
      feature_mimxrt685s_evk = evk,
      user_buf_addr = buf\<rparr>"

text \<open>A partition of \<open>ext-flash.toml\<close>: offset and size.\<close>

record partition =
  part_offset :: nat
  part_size :: nat

record partition_map =
  bl_state :: partition
  app_slot0 :: partition
  app_slot1 :: partition

definition ext_flash :: partition_map where
  "ext_flash =
     \<lparr>bl_state = \<lparr>part_offset = 0xb000, part_size = 0x2000\<rparr>,
      app_slot0 = \<lparr>part_offset = 0x0d000, part_size = 0xec000\<rparr>,
      app_slot1 = \<lparr>part_offset = 0xf9000, part_size = 0xec000\<rparr>\<rparr>"

definition disk_size :: nat where
  "disk_size = 0x800000"

definition disk_alignment :: nat where
  "disk_alignment = 0x1000"

text \<open>\<open>Config::partitions\<close>: the state partition and the slots, in the order of their numbers.\<close>

definition example_partitions :: "partition_map \<Rightarrow> partition \<times> partition list" where
  "example_partitions m =
     (let slots = []; slots = slots @ [app_slot0 m]; slots = slots @ [app_slot1 m] in (bl_state m, slots))"

section \<open>The application's view of the journal\<close>

definition APP_JOURNAL_BUFFER_SIZE :: nat where
  "APP_JOURNAL_BUFFER_SIZE = 1024"

definition app_fetch :: "crc8 \<Rightarrow> 'f flash_journal \<Rightarrow> state" where
  "app_fetch crc j =
     (case journal_get j of
        Some s \<Rightarrow> s
      | None \<Rightarrow> state_new crc Confirmed S0 S1)"

text \<open>The slot the application runs from, whether it is confirmed, whether it is the backup.\<close>

definition app_role :: "state \<Rightarrow> slot \<times> bool \<times> bool" where
  "app_role s =
     (case state_status s of
        Initial \<Rightarrow> (state_target s, False, False)
      | Attempting \<Rightarrow> (state_target s, False, False)
      | Failed \<Rightarrow> (state_backup s, False, True)
      | Confirmed \<Rightarrow> (state_target s, True, False))"

record 'f app =
  app_journal :: "'f flash_journal"
  app_state :: state
  app_slot :: slot
  is_confirmed :: bool
  is_backup :: bool
  other_slot :: slot

definition app_init :: "crc8 \<Rightarrow> ('f, 'e) nor_flash \<Rightarrow> 'f \<Rightarrow> ('f app, unit) res" where
  "app_init crc ops f =
     (case journal_new crc ops APP_JOURNAL_BUFFER_SIZE f of
        (Ok j, _) \<Rightarrow>
          (let slot_a = S0; slot_b = S1;
               s = app_fetch crc j;
               (slot, confirmed, backup) = app_role s
           in Ok \<lparr>app_journal = j, app_state = s, app_slot = slot, is_confirmed = confirmed,
                  is_backup = backup, other_slot = if slot = slot_a then slot_b else slot_a\<rparr>)
      | (_, _) \<Rightarrow> Panic)"

text \<open>
  The start of \<open>main\<close>: the storage is opened as in the bootloader, with the clocks the HAL has by
  default, and the state partition is taken from it.
\<close>

definition app_main ::
    "crc8 \<Rightarrow> ('f, 'e) nor_flash \<Rightarrow> ('h, 'q, 's) storage_hal \<Rightarrow> ('s \<Rightarrow> 'f) \<Rightarrow> ('f app, unit) res" where
  "app_main crc ops hal bl_state_of =
     res_bind (open_storage hal None 2 2 4096) (\<lambda>ext_flash. app_init crc ops (bl_state_of ext_flash))"

text \<open>The LEDs and buttons: port and pin, and for an LED the level it starts with.\<close>

datatype level = Low | High

record output_pin =
  out_pin :: "nat \<times> nat"
  out_level :: level

record leds =
  led_red :: output_pin
  led_blue :: output_pin
  led_green :: output_pin

definition app_leds :: "'f app \<Rightarrow> leds" where
  "app_leds a =
     \<lparr>led_red = \<lparr>out_pin = (0, 31), out_level = Low\<rparr>,
      led_blue = \<lparr>out_pin = (0, 26), out_level = Low\<rparr>,
      led_green = \<lparr>out_pin = (0, 14), out_level = (if is_confirmed a then High else Low)\<rparr>\<rparr>"

definition app_buttons :: "(nat \<times> nat) \<times> (nat \<times> nat)" where
  "app_buttons = ((1, 1), (0, 10))"

text \<open>The state a short press writes.\<close>

definition app_new_state :: "crc8 \<Rightarrow> 'f app \<Rightarrow> state" where
  "app_new_state crc a =
     (if is_confirmed a then state_new crc Initial (other_slot a) (app_slot a)
      else if is_backup a then with_status crc (app_state a) Initial
      else with_status crc (app_state a) Confirmed)"

section \<open>Burning the fuses\<close>

definition APP_CLOCK_HZ :: u32 where
  "APP_CLOCK_HZ = 500000000"

definition FUSE_DELAY :: "nat \<Rightarrow> nat" where
  "FUSE_DELAY tick_hz = 5 * tick_hz"

text \<open>\<open>rkth_otp != rkth_shadow\<close> guards the write; an all-zero hash is refused.\<close>

definition burn_rkth :: "'x rom_api \<Rightarrow> otp_interface \<Rightarrow> 'x hw \<Rightarrow> (unit, unit) res \<times> 'x hw" where
  "burn_rkth rom fuses h =
     and_then (unwrap_ok (shadow_rkth h)) (\<lambda>rkth_shadow h.
     and_then (unwrap_ok (fuse_register rom fuses RKTH h)) (\<lambda>rkth_otp h.
     if rkth_otp \<noteq> rkth_shadow then
       if rkth_shadow = new_zero RKTH then (Ok (), h)
       else unwrap_ok (fuse_register_write rom fuses RKTH (\<lambda>w. rkth_shadow) h)
     else (Ok (), h)))"

text \<open>The closure of \<open>boot_cfg_0().write\<close>.\<close>

definition app_boot_cfg_0 :: "u8 list \<Rightarrow> u8 list" where
  "app_boot_cfg_0 w =
     (let w = field_set primary_boot_src (boot_src_as_u32 QspiBBoot) w;
          w = field_set default_isp_mode (isp_mode_as_u32 DisableIsp) w;
          w = field_set tzm_image_type (tzm_type_as_u32 TzmEnable) w;
          w = field_set secure_boot_en (secure_boot_as_u32 SecureBootEnabled) w;
          w = field_set dice_skip 1 w;
          w = field_set boot_fail_pin_port 5 w;
          w = field_set boot_fail_pin_num 7 w
      in w)"

definition burn_boot_cfg_0 :: "'x rom_api \<Rightarrow> otp_interface \<Rightarrow> 'x hw \<Rightarrow> (unit, unit) res \<times> 'x hw" where
  "burn_boot_cfg_0 rom fuses h =
     and_then (unwrap_ok (fuse_register rom fuses BOOT_CFG0 h)) (\<lambda>boot0_otp h.
     if boot0_otp \<noteq> new_zero BOOT_CFG0 then (Ok (), h)
     else unwrap_ok (fuse_register_write rom fuses BOOT_CFG0 app_boot_cfg_0 h))"

definition burn_fuses :: "'x rom_api \<Rightarrow> 'x hw \<Rightarrow> (unit, unit) res \<times> 'x hw" where
  "burn_fuses rom h =
     and_then (unwrap_ok (otp_init rom APP_CLOCK_HZ h)) (\<lambda>_ h.
     let fuses = fuses_writable False in
     and_then (burn_rkth rom fuses h) (\<lambda>_ h.
     and_then (burn_boot_cfg_0 rom fuses h) (\<lambda>_ h. (Ok (), otp_drop rom h))))"

section \<open>The tasks\<close>

text \<open>One round of the loop of \<open>button1_fut\<close>, for a press of \<open>held\<close> ticks.\<close>

definition button1_press ::
    "crc8 \<Rightarrow> ('f, 'e) nor_flash \<Rightarrow> 'x rom_api \<Rightarrow> nat \<Rightarrow> nat \<Rightarrow> 'f app \<Rightarrow> 'x hw \<Rightarrow> (unit, unit) res \<times> 'f app \<times> 'x hw" where
  "button1_press crc ops rom tick_hz held a h =
     (if held > FUSE_DELAY tick_hz then
        (case burn_fuses rom h of (r, h) \<Rightarrow> (r, a, h))
      else
        (case journal_set crc ops APP_JOURNAL_BUFFER_SIZE (app_new_state crc a) (app_journal a) of
           (Ok _, j) \<Rightarrow> (Ok (), a\<lparr>app_journal := j\<rparr>, h)
         | (_, j) \<Rightarrow> (Panic, a\<lparr>app_journal := j\<rparr>, h)))"

text \<open>The LED tasks: what one round of the loop does; \<open>None\<close> when the task ends at once.\<close>

datatype led_action = BlueHigh | BlueLow | RedToggle | After_millis nat

definition led_round :: "'f app \<Rightarrow> led_action list" where
  "led_round a =
     (let slot = slot_as_u8 (app_slot a) + 1 in
      concat (replicate (unat slot) [BlueHigh, After_millis 200, BlueLow, After_millis 200]) @ [After_millis 500])"

definition backup_led_round :: "'f app \<Rightarrow> led_action list option" where
  "backup_led_round a = (if \<not> is_backup a then None else Some [RedToggle, After_millis 250])"

section \<open>Lemmas\<close>

text \<open>
  The application opens the storage with the parameters the bootloader uses, so that on a HAL whose
  peripherals do not depend on the clocks both work on the same state partition.
\<close>

lemma app_shares_storage:
  assumes "hal_init hal (Some clocks) = hal_init hal None"
    and "open_storage hal (Some clocks) READ_ALIGNMENT WRITE_ALIGNMENT STORAGE_ERASE_SIZE = Ok ext_flash"
  shows "app_main crc ops hal bl_state_of = app_init crc ops (bl_state_of ext_flash)"
  using assms by (simp add: app_main_def open_storage_def READ_ALIGNMENT_def WRITE_ALIGNMENT_def STORAGE_ERASE_SIZE_def)

lemma even_buffer_sizes [simp]:
  "even BL_JOURNAL_BUFFER_SIZE" "2 \<le> BL_JOURNAL_BUFFER_SIZE" "even APP_JOURNAL_BUFFER_SIZE" "2 \<le> APP_JOURNAL_BUFFER_SIZE"
  by (simp_all add: BL_JOURNAL_BUFFER_SIZE_def APP_JOURNAL_BUFFER_SIZE_def)

lemma example_policy [simp]: "policy_ok crc (imxrt_board crc jops (example_config crc non_secure evk buf) rom pops)"
  by (rule policy_ok_default) (simp_all add: example_config_def)

text \<open>The fields an initialised application has: those of the state it read.\<close>

definition app_wf :: "'f app \<Rightarrow> bool" where
  "app_wf a \<longleftrightarrow> app_role (app_state a) = (app_slot a, is_confirmed a, is_backup a) \<and>
     other_slot a = (if app_slot a = S0 then S1 else S0)"

lemma app_init_Ok:
  assumes "app_init crc ops f = Ok a"
  obtains f' where "journal_new crc ops APP_JOURNAL_BUFFER_SIZE f = (Ok (app_journal a), f')"
    "app_state a = app_fetch crc (app_journal a)" "app_wf a"
  using assms
  by (auto simp: app_init_def app_wf_def Let_def split: prod.splits res.splits)

lemma app_wf_journal [simp]: "app_wf (a\<lparr>app_journal := j\<rparr>) = app_wf a"
  by (simp add: app_wf_def)

lemma app_new_state_journal [simp]: "app_new_state crc (a\<lparr>app_journal := j\<rparr>) = app_new_state crc a"
  by (simp add: app_new_state_def)

lemma app_new_state_valid [simp]: "valid_state crc (app_new_state crc a)"
  by (simp add: app_new_state_def valid_with_status valid_state_new)

section \<open>The fuses\<close>

text \<open>
  What the ROM documents of the fuses: \<open>fuses\<close> are the words in the array, a read returns the word and
  changes nothing, programming sets bits and never clears one, and neither it nor opening and closing
  the driver touches the shadow registers.
\<close>

definition fuse_array :: "'x rom_api \<Rightarrow> ('x hw \<Rightarrow> u32 \<Rightarrow> u32) \<Rightarrow> bool" where
  "fuse_array rom fuses \<longleftrightarrow>
     (\<forall>a h. fuse_read rom a h = ((0, u32_to_le_bytes (fuses h a)), h)) \<and>
     (\<forall>a w h. \<exists>h'. fuse_program rom a w False h = (0, h') \<and>
        fuses h' = (fuses h)(a := fuses h a OR w) \<and> shadow_mem h' = shadow_mem h) \<and>
     (\<forall>c h. \<exists>s h'. otp_driver_init rom c h = (s, h') \<and> fuses h' = fuses h \<and> shadow_mem h' = shadow_mem h) \<and>
     (\<forall>h. \<exists>s h'. otp_driver_deinit rom h = (s, h') \<and> fuses h' = fuses h \<and> shadow_mem h' = shadow_mem h) \<and>
     (\<forall>b h. fuses (h\<lparr>otp_initialized := b\<rparr>) = fuses h)"

lemma fuse_arrayD:
  assumes "fuse_array rom fuses"
  shows "read_fuse rom a h = (Ok (fuses h a), h)"
    and "\<exists>h'. write_fuse rom a w False h = (Ok (), h') \<and> fuses h' = (fuses h)(a := fuses h a OR w) \<and>
      shadow_mem h' = shadow_mem h"
proof -
  show "read_fuse rom a h = (Ok (fuses h a), h)"
    using assms by (simp add: fuse_array_def read_fuse_def)
  obtain h' where "fuse_program rom a w False h = (0, h')" "fuses h' = (fuses h)(a := fuses h a OR w)"
      "shadow_mem h' = shadow_mem h"
    using assms unfolding fuse_array_def by blast
  then show "\<exists>h'. write_fuse rom a w False h = (Ok (), h') \<and> fuses h' = (fuses h)(a := fuses h a OR w) \<and>
      shadow_mem h' = shadow_mem h"
    by (simp add: write_fuse_def)
qed

text \<open>A register read returns the bytes of its words.\<close>

lemma fuse_read_register:
  assumes "fuse_array rom fuses"
  shows "otp_read_register rom otp i (replicate (4 * n) 0) h =
    (Ok (concat (map (\<lambda>k. u32_to_le_bytes (fuses h (i + of_nat k))) [0..<n])), h)"
proof -
  have cs: "chunks 4 (replicate (4 * n) (0 :: u8)) = replicate n (replicate 4 0)"
    using chunks_replicate [of 4 n] by (simp add: mult.commute)
  have "words_loop (read_fuse rom) i 0 (replicate n (replicate 4 0)) h =
      (Ok (concat (map (\<lambda>k. take (length (replicate n (replicate 4 (0 :: u8)) ! k)) (u32_to_le_bytes (fuses h (i + of_nat k))))
         [0..<n])), h)"
    using words_loop_pure [of "replicate n (replicate 4 0)" "read_fuse rom" i 0 h "\<lambda>k. fuses h (i + of_nat k)"]
    by (simp add: fuse_arrayD(1) [OF assms])
  also have "map (\<lambda>k. take (length (replicate n (replicate 4 (0 :: u8)) ! k)) (u32_to_le_bytes (fuses h (i + of_nat k)))) [0..<n] =
      map (\<lambda>k. u32_to_le_bytes (fuses h (i + of_nat k))) [0..<n]"
    by (rule map_cong) simp_all
  finally show ?thesis by (simp add: otp_read_register_def otp_words_to_data_def cs)
qed

text \<open>Programming different words sets the bits of each and touches no other.\<close>

lemma fuse_write_words_effect:
  assumes "fuse_array rom fuses" and "distinct (map fst ws)"
  shows "\<exists>h'. fuse_write_words rom False ws h = (Ok (), h') \<and> shadow_mem h' = shadow_mem h \<and>
    (\<forall>a. fuses h' a = (case map_of ws a of Some w \<Rightarrow> fuses h a OR w | None \<Rightarrow> fuses h a))"
  using assms(2)
proof (induction ws arbitrary: h)
  case (Cons iw ws)
  obtain i w where iw: "iw = (i, w)" by fastforce
  obtain h1 where w: "write_fuse rom i w False h = (Ok (), h1)" "fuses h1 = (fuses h)(i := fuses h i OR w)"
      "shadow_mem h1 = shadow_mem h"
    using fuse_arrayD(2) [OF assms(1)] by blast
  have i: "map_of ws i = None" using Cons.prems iw by (simp add: map_of_eq_None_iff)
  from Cons.IH [of h1] Cons.prems iw obtain h' where
    h': "fuse_write_words rom False ws h1 = (Ok (), h')" "shadow_mem h' = shadow_mem h1"
      "\<forall>a. fuses h' a = (case map_of ws a of Some w \<Rightarrow> fuses h1 a OR w | None \<Rightarrow> fuses h1 a)"
    by auto
  with w i show ?case by (auto simp: iw split: option.splits)
qed simp

text \<open>The words of a register value that is itself made of words.\<close>

lemma chunks_words: "chunks 4 (concat (map u32_to_le_bytes ws)) = map u32_to_le_bytes ws"
  by (induction ws) (simp_all add: chunks_step u32_to_le_bytes_def)

lemma data_to_otp_words_words:
  "data_to_otp_words i (concat (map u32_to_le_bytes ws)) = map (\<lambda>k. (i + of_nat k, ws ! k)) [0..<length ws]"
proof -
  have "chunk_to_word (u32_to_le_bytes w) = w" for w by (simp add: chunk_to_word_def)
  then show ?thesis
    by (simp add: data_to_otp_words_def chunks_words enumerate_eq_zip)
      (rule nth_equalityI; simp)
qed

lemma words_bytes_inj: "concat (map u32_to_le_bytes ws) = concat (map u32_to_le_bytes vs) \<longleftrightarrow> ws = vs"
  using bytes_to_u32_le_concat by metis

lemma zero_words: "replicate (4 * n) 0 = concat (map u32_to_le_bytes (replicate n 0))"
proof (induction n)
  case (Suc n)
  have "replicate (4 * Suc n) (0 :: u8) = replicate 4 0 @ replicate (4 * n) 0"
    by (simp add: replicate_add [symmetric])
  with Suc show ?case by (simp add: u32_to_le_bytes_def eval_nat_numeral)
qed simp

lemma otp_write_words:
  assumes rom: "fuse_array rom fuses" and len: "length ws < 2 ^ 32"
  shows "\<exists>h'. otp_write_register rom (fuses_writable False) i (concat (map u32_to_le_bytes ws)) h = (Ok (), h') \<and>
    shadow_mem h' = shadow_mem h \<and>
    (\<forall>k < length ws. fuses h' (i + of_nat k) = fuses h (i + of_nat k) OR ws ! k) \<and>
    (\<forall>a. (\<forall>k < length ws. a \<noteq> i + of_nat k) \<longrightarrow> fuses h' a = fuses h a)"
proof -
  let ?ws = "map (\<lambda>k. (i + of_nat k, ws ! k)) [0..<length ws]"
  have inj: "inj_on (\<lambda>k. i + of_nat k :: u32) {0..<length ws}"
    using len by (auto intro!: inj_onI of_nat_u32_inj)
  then have dist: "distinct (map fst ?ws)" by (simp add: comp_def distinct_map)
  obtain h' where h': "fuse_write_words rom False ?ws h = (Ok (), h')" "shadow_mem h' = shadow_mem h"
      "\<forall>a. fuses h' a = (case map_of ?ws a of Some w \<Rightarrow> fuses h a OR w | None \<Rightarrow> fuses h a)"
    using fuse_write_words_effect [OF rom dist] by blast
  have "map_of ?ws (i + of_nat k) = Some (ws ! k)" if "k < length ws" for k
    using that by (intro map_of_is_SomeI [OF dist]) (auto simp: image_iff)
  moreover have "map_of ?ws a = None" if "\<forall>k < length ws. a \<noteq> i + of_nat k" for a
    using that by (auto simp: map_of_eq_None_iff)
  moreover have "otp_write_register rom (fuses_writable False) i (concat (map u32_to_le_bytes ws)) h = (Ok (), h')"
    using h'(1) by (simp add: otp_write_register_def fuses_writable_def data_to_otp_words_words)
  ultimately show ?thesis using h'(2,3) by (intro exI [of _ h']) auto
qed

text \<open>The eight words of the root key hash, in the shadow registers and in the fuses.\<close>

definition shadow_words :: "'x hw \<Rightarrow> u32 list" where
  "shadow_words h = map (\<lambda>k. shadow_mem h (0x401301E0 + 4 * of_nat k)) [0..<8]"

definition fuse_words :: "('x hw \<Rightarrow> u32 \<Rightarrow> u32) \<Rightarrow> 'x hw \<Rightarrow> u32 list" where
  "fuse_words fuses h = map (\<lambda>k. fuses h (120 + of_nat k)) [0..<8]"

lemma burn_rkth_effect:
  assumes rom: "fuse_array rom fuses" and S: "S = shadow_words h" and F: "F = fuse_words fuses h"
  shows "\<exists>h'. burn_rkth rom (fuses_writable False) h = (Ok (), h') \<and> shadow_mem h' = shadow_mem h \<and>
    (\<forall>k < 8. fuses h' (120 + of_nat k) = (if S \<noteq> F \<and> S \<noteq> replicate 8 0 then F ! k OR S ! k else F ! k)) \<and>
    (\<forall>a. (\<forall>k < 8. a \<noteq> 120 + of_nat k) \<longrightarrow> fuses h' a = fuses h a)"
proof -
  have shadow: "shadow_rkth h = (Ok (concat (map u32_to_le_bytes S)), h)"
    by (rule shadow_rkth_words) (simp_all add: S shadow_words_def)
  have otp: "otp_read_register rom (fuses_writable False) 120 (replicate 32 0) h = (Ok (concat (map u32_to_le_bytes F)), h)"
    using fuse_read_register [OF rom, of _ 120 8 h] by (simp add: F fuse_words_def comp_def)
  have zero: "concat (map u32_to_le_bytes S) = replicate 32 0 \<longleftrightarrow> S = replicate 8 0"
    using zero_words [of 8] words_bytes_inj [of S "replicate 8 0"] by simp
  have eq: "burn_rkth rom (fuses_writable False) h =
      (if S \<noteq> F \<and> S \<noteq> replicate 8 0
       then unwrap_ok (otp_write_register rom (fuses_writable False) 120 (concat (map u32_to_le_bytes S)) h)
       else (Ok (), h))"
    unfolding burn_rkth_def fuse_register_def fuse_register_write_def register_ops_eqs new_zero_simps shadow unwrap_ok.simps and_then.simps otp zero words_bytes_inj by auto
  have nth: "F ! k = fuses h (120 + of_nat k)" if "k < 8" for k using that by (simp add: F fuse_words_def)
  have len: "length S = 8" by (simp add: S shadow_words_def)
  then have "length S < 2 ^ 32" by simp
  from otp_write_words [OF rom this, of 120 h] len nth show ?thesis
    by (auto simp: eq)
qed

lemma app_boot_cfg_0_zero: "app_boot_cfg_0 (replicate 4 0) = u32_to_le_bytes run_boot0"
proof -
  have "app_boot_cfg_0 (u32_to_le_bytes 0) = u32_to_le_bytes
      (set_field 27 32 7 (set_field 24 27 5 (set_field 23 24 1 (set_field 20 22 1 (set_field 13 15 2
        (set_field 4 7 7 (set_field 0 4 5 0)))))))"
    by (simp add: app_boot_cfg_0_def) (simp add: manifest_defs)
  then show ?thesis by (simp add: zero_word_bytes run_boot0_def set_field_def mask_eq_exp_minus_1)
qed

lemma burn_boot_cfg_0_effect:
  assumes rom: "fuse_array rom fuses"
  shows "\<exists>h'. burn_boot_cfg_0 rom (fuses_writable False) h = (Ok (), h') \<and> shadow_mem h' = shadow_mem h \<and>
    fuses h' 96 = (if fuses h 96 = 0 then run_boot0 else fuses h 96) \<and> (\<forall>a. a \<noteq> 96 \<longrightarrow> fuses h' a = fuses h a)"
proof -
  have otp: "otp_read_register rom (fuses_writable False) 96 (replicate 4 0) h =
      (Ok (concat (map u32_to_le_bytes [fuses h 96])), h)"
    using fuse_read_register [OF rom, of _ 96 1 h] by simp
  have zero: "concat (map u32_to_le_bytes [w]) = replicate 4 0 \<longleftrightarrow> w = 0" for w
    using zero_words [of 1] words_bytes_inj [of "[w]" "[0]"] by simp
  have eq: "burn_boot_cfg_0 rom (fuses_writable False) h =
      (if fuses h 96 \<noteq> 0 then (Ok (), h)
       else unwrap_ok (otp_write_register rom (fuses_writable False) 96 (concat (map u32_to_le_bytes [run_boot0])) h))"
    unfolding burn_boot_cfg_0_def fuse_register_def fuse_register_write_def register_ops_eqs new_zero_simps otp
      app_boot_cfg_0_zero using zero by simp
  have "length [run_boot0] < 2 ^ 32" by simp
  from otp_write_words [OF rom this, of 96 h] show ?thesis
    by (auto simp: eq)
qed

section \<open>Properties\<close>

text \<open>
  The example's flash layout fits its own code: the partitions are page aligned, inside the flash,
  behind the prelude and the bootloader, and disjoint; the state partition has the two pages the journal
  needs; and the slots are below the limit above which the bootloader rejects a slot outright, so that
  an image of any size a slot can hold lies inside \<open>LOAD_RANGE\<close> when it is linked to its start.
\<close>

lemma example_layout_fits:
  "\<exists>state slots. example_partitions ext_flash = (state, slots) \<and> length slots \<le> MAX_SLOT_COUNT \<and>
     (\<forall>p \<in> set (state # slots). part_offset p mod disk_alignment = 0 \<and> part_size p mod disk_alignment = 0 \<and>
        0xb000 \<le> part_offset p \<and> part_offset p + part_size p \<le> disk_size) \<and>
     sorted_wrt (\<lambda>p q. part_offset p + part_size p \<le> part_offset q) (state # slots) \<and>
     2 \<le> part_size state div disk_alignment \<and>
     (\<forall>p \<in> set slots. part_size p < snd (SLOT_SIZE_RANGE (example_config crc non_secure evk buf)) \<and>
        (\<forall>len. unat len \<le> part_size p \<longrightarrow>
           (\<exists>e. target_end_ptr \<lparr>image_len = len, image_type = t, header_offset = ho, target_ptr = 0x10020000\<rparr> = Some e \<and>
              range_contains (LOAD_RANGE (example_config crc non_secure evk buf)) e)))"
proof -
  have ends: "\<exists>e. target_end_ptr \<lparr>image_len = len, image_type = t, header_offset = ho, target_ptr = 0x10020000\<rparr> = Some e \<and>
      range_contains (LOAD_RANGE (example_config crc non_secure evk buf)) e" if "unat len \<le> 0xec000" for len :: u32
  proof -
    have "unat (0x10020000 + len) = 0x10020000 + unat len"
      using that by (simp add: unat_word_ariths(1) take_bit_nat_eq_self)
    then show ?thesis
      using that
      by (intro exI [of _ "0x10020000 + len"])
        (simp add: target_end_ptr_Some example_config_def word_le_nat_alt word_less_nat_alt)
  qed
  then show ?thesis
    by (simp add: example_partitions_def ext_flash_def disk_alignment_def disk_size_def MAX_SLOT_COUNT_def
        example_config_def)
qed

text \<open>
  C11. What a long press does to a chip whose ROM programs fuses as documented: it succeeds and closes
  the driver again; the boot configuration is burnt only into a blank word, and is then the very value
  the host tool puts into the shadow register for a trial run; the root key hash is burnt only when the
  shadow registers hold one that differs from the fuses and is not zero, and then every word of it has
  the bits of the shadow register added to what was burnt before, so that a second, different hash does
  not replace the first but is mixed into it; no other fuse and no shadow register changes.
\<close>

theorem burn_fuses_effect:
  assumes "fuse_array rom fuses" and "\<not> otp_initialized h"
  shows "\<exists>h'. burn_fuses rom h = (Ok (), h') \<and> \<not> otp_initialized h' \<and> shadow_mem h' = shadow_mem h \<and>
    fuses h' 96 = (if fuses h 96 = 0 then run_boot0 else fuses h 96) \<and>
    (\<forall>k < 8. fuses h' (120 + of_nat k) =
       (if shadow_words h \<noteq> fuse_words fuses h \<and> shadow_words h \<noteq> replicate 8 0
        then fuse_words fuses h ! k OR shadow_words h ! k else fuse_words fuses h ! k)) \<and>
    (\<forall>a. a \<noteq> 96 \<longrightarrow> (\<forall>k < 8. a \<noteq> 120 + of_nat k) \<longrightarrow> fuses h' a = fuses h a)"
proof -
  have flag: "fuses (h\<lparr>otp_initialized := b\<rparr>) = fuses h" for b h
    using assms(1) unfolding fuse_array_def by blast
  obtain h1 where init: "otp_init rom APP_CLOCK_HZ h = (Ok (), h1)" "fuses h1 = fuses h" "shadow_mem h1 = shadow_mem h"
  proof -
    obtain st h1 where "otp_driver_init rom APP_CLOCK_HZ (h\<lparr>otp_initialized := True\<rparr>) = (st, h1)"
        "fuses h1 = fuses (h\<lparr>otp_initialized := True\<rparr>)" "shadow_mem h1 = shadow_mem (h\<lparr>otp_initialized := True\<rparr>)"
      using assms(1) unfolding fuse_array_def by blast
    with assms(2) flag show thesis by (intro that [of h1]) (simp_all add: otp_init_def)
  qed
  have tables: "shadow_words h = shadow_words h1" "fuse_words fuses h = fuse_words fuses h1"
    using init by (simp_all add: shadow_words_def fuse_words_def)
  obtain h2 where h2: "burn_rkth rom (fuses_writable False) h1 = (Ok (), h2)" "shadow_mem h2 = shadow_mem h1"
      "\<forall>k < 8. fuses h2 (120 + of_nat k) =
         (if shadow_words h1 \<noteq> fuse_words fuses h1 \<and> shadow_words h1 \<noteq> replicate 8 0
          then fuse_words fuses h1 ! k OR shadow_words h1 ! k else fuse_words fuses h1 ! k)"
      "\<forall>a. (\<forall>k < 8. a \<noteq> 120 + of_nat k) \<longrightarrow> fuses h2 a = fuses h1 a"
    using burn_rkth_effect [OF assms(1) refl refl] by blast
  obtain h3 where h3: "burn_boot_cfg_0 rom (fuses_writable False) h2 = (Ok (), h3)" "shadow_mem h3 = shadow_mem h2"
      "fuses h3 96 = (if fuses h2 96 = 0 then run_boot0 else fuses h2 96)" "\<forall>a. a \<noteq> 96 \<longrightarrow> fuses h3 a = fuses h2 a"
    using burn_boot_cfg_0_effect [OF assms(1)] by blast
  obtain st h4 where h4: "otp_driver_deinit rom h3 = (st, h4)" "fuses h4 = fuses h3" "shadow_mem h4 = shadow_mem h3"
    using assms(1) unfolding fuse_array_def by blast
  have apart: "(96 :: u32) \<noteq> 120 + of_nat k" if "k < 8" for k :: nat
  proof -
    from that consider "k = 0" | "k = 1" | "k = 2" | "k = 3" | "k = 4" | "k = 5" | "k = 6" | "k = 7" by linarith
    then show ?thesis by cases simp_all
  qed
  have "burn_fuses rom h = (Ok (), h4\<lparr>otp_initialized := False\<rparr>)"
    using init(1) h2(1) h3(1) h4(1) by (simp add: burn_fuses_def otp_drop_def)
  moreover have "fuses h4 (120 + of_nat k) = fuses h2 (120 + of_nat k)" if "k < 8" for k
    using apart [OF that] h3(4) h4(2) by metis
  ultimately show ?thesis
    using apart flag init h2 h3 h4 unfolding tables
    by (intro exI [of _ "h4\<lparr>otp_initialized := False\<rparr>"]) auto
qed

text \<open>A ROM with an array of fuses, for the witness.\<close>

definition array_rom :: "(u32 \<Rightarrow> u32) rom_api" where
  "array_rom =
     \<lparr>iap_init = (\<lambda>_ h. ((0, 0), h)),
      iap_deinit = (\<lambda>_ h. (0, h)),
      rom_authenticate = (\<lambda>_ _ h. ((0, 0), h)),
      mask_hashcrypt = (\<lambda>h. h),
      otp_driver_init = (\<lambda>_ h. (0, h)),
      otp_driver_deinit = (\<lambda>h. (0, h)),
      fuse_read = (\<lambda>a h. ((0, u32_to_le_bytes (rom_state h a)), h)),
      fuse_program = (\<lambda>a w _ h. (0, h\<lparr>rom_state := (rom_state h)(a := rom_state h a OR w)\<rparr>)),
      otp_reload = (\<lambda>h. (0, h)),
      sha256 = (\<lambda>_ h. (Ok (replicate 32 0), h))\<rparr>"

theorem burn_fuses_effect_witness:
  "\<exists>h'. burn_fuses array_rom \<lparr>ram = (\<lambda>_. 0), shadow_mem = (\<lambda>_. 5), otp_initialized = False, rom_state = (\<lambda>_. 0)\<rparr> = (Ok (), h') \<and>
     rom_state h' 96 = run_boot0"
proof -
  have rom: "fuse_array array_rom rom_state" by (simp add: fuse_array_def array_rom_def)
  let ?h = "\<lparr>ram = (\<lambda>_. 0), shadow_mem = (\<lambda>_. 5), otp_initialized = False, rom_state = (\<lambda>_. 0)\<rparr>"
  have "\<not> otp_initialized ?h" by simp
  from burn_fuses_effect [OF rom this] show ?thesis by auto
qed

end
