(* ===== verification/Lifecycle.thy ===== *)
theory Lifecycle
  imports Example_App
begin

text \<open>
  The example device over its whole life: resets, boots, button presses and power failures in any
  order. A state of the device is what it is doing (\<open>phase\<close>), its machine, and, as history that no
  code reads, the slots that were vouched for: the factory image in slot 0 and every slot whose running
  image the user confirmed. \<open>device_step\<close> has one rule per kind of step; a boot is \<open>start\<close> with the
  configuration of the example bootloader followed by \<open>app_init\<close>, and a press is \<open>button1_press\<close>; a running
  application may run into a hard fault at any time.
  The reset rule takes any contents of the image slots, the machine and the processor, and any rule may
  run into a power failure, since the number of bytes until the flash fails is set by the environment.
\<close>

section \<open>The device\<close>

datatype phase = Halted mock_flash | Running slot "mock_flash app"

fun phase_flash :: "phase \<Rightarrow> mock_flash" where
  "phase_flash (Halted f) = f"
| "phase_flash (Running sl a) = inner (app_journal a)"

record 'x device =
  dev_phase :: phase
  dev_hw :: "'x hw"
  dev_vouched :: "slot set"

text \<open>
  The panic and the hard fault handler of the application: both wait for events for ever, so that the
  storage stays as it is until the next reset.
\<close>

definition panic_handler :: "mock_flash \<Rightarrow> phase" where
  "panic_handler f = Halted f"

definition hard_fault :: "mock_flash \<Rightarrow> phase" where
  "hard_fault f = Halted f"

text \<open>
  From reset to the application: a panic, an abort or a failed \<open>app_init\<close> ends in the endless loop of
  the panic handler.
\<close>

definition power_on ::
    "crc8 \<Rightarrow> mock_geometry \<Rightarrow> nat \<Rightarrow> imxrt_config \<Rightarrow> 'x rom_api \<Rightarrow> ('p, 'e) nor_flash \<Rightarrow>
     mock_flash \<Rightarrow> 'p list \<Rightarrow> 'x hw \<Rightarrow> cpu \<Rightarrow> phase \<times> 'x hw" where
  "power_on crc g ptr cfg rom pops f slots h c =
     (case start crc (mock_ops g ptr) BL_JOURNAL_BUFFER_SIZE (mock_board crc g ptr cfg rom pops) (f, slots, h, c) of
        (_, None) \<Rightarrow> (Halted f, h)
      | (r, Some b) \<Rightarrow>
          (case r of
             Ok (Started sl) \<Rightarrow>
               (case app_init crc (mock_ops g ptr) (inner (im_journal b)) of
                  Ok a \<Rightarrow> (Running sl a, im_hw b)
                | _ \<Rightarrow> (panic_handler (inner (im_journal b)), im_hw b))
           | _ \<Rightarrow> (Halted (inner (im_journal b)), im_hw b)))"

text \<open>A short press on an image that is neither confirmed nor the backup is the user's confirmation.\<close>

definition confirms :: "nat \<Rightarrow> nat \<Rightarrow> 'f app \<Rightarrow> bool" where
  "confirms tick_hz held a \<longleftrightarrow> held \<le> FUSE_DELAY tick_hz \<and> \<not> is_confirmed a \<and> \<not> is_backup a"

inductive device_step ::
    "crc8 \<Rightarrow> mock_geometry \<Rightarrow> nat \<Rightarrow> imxrt_config \<Rightarrow> 'x rom_api \<Rightarrow> ('p, 'e) nor_flash \<Rightarrow> nat \<Rightarrow>
     'x device \<Rightarrow> 'x device \<Rightarrow> bool"
  for crc g ptr cfg rom pops tick_hz where
  reset:
    "power_on crc g ptr cfg rom pops ((phase_flash (dev_phase d))\<lparr>bytes_until_shutoff := n\<rparr>) slots h c = (p, h') \<Longrightarrow>
     device_step crc g ptr cfg rom pops tick_hz d (d\<lparr>dev_phase := p, dev_hw := h'\<rparr>)"
| press:
    "dev_phase d = Running sl a \<Longrightarrow>
     button1_press crc (mock_ops g ptr) rom tick_hz held a (dev_hw d) = (Ok (), a', h') \<Longrightarrow>
     V = (if confirms tick_hz held a then {app_slot a} else {}) \<Longrightarrow>
     device_step crc g ptr cfg rom pops tick_hz d
       (d\<lparr>dev_phase := Running sl a', dev_hw := h', dev_vouched := dev_vouched d \<union> V\<rparr>)"
| press_fails:
    "dev_phase d = Running sl a \<Longrightarrow>
     button1_press crc (mock_ops g ptr) rom tick_hz held a (dev_hw d) = (r, a', h') \<Longrightarrow> r \<noteq> Ok () \<Longrightarrow>
     V = (if confirms tick_hz held a then {app_slot a} else {}) \<Longrightarrow>
     device_step crc g ptr cfg rom pops tick_hz d
       (d\<lparr>dev_phase := panic_handler (inner (app_journal a')), dev_hw := h', dev_vouched := dev_vouched d \<union> V\<rparr>)"
| fault:
    "dev_phase d = Running sl a \<Longrightarrow>
     device_step crc g ptr cfg rom pops tick_hz d (d\<lparr>dev_phase := hard_fault (inner (app_journal a)), dev_hw := h'\<rparr>)"
| brownout:
    "dev_phase d = Running sl a \<Longrightarrow>
     device_step crc g ptr cfg rom pops tick_hz d
       (d\<lparr>dev_phase := Running sl (a\<lparr>app_journal := (app_journal a)\<lparr>inner := (inner (app_journal a))\<lparr>bytes_until_shutoff := n\<rparr>\<rparr>\<rparr>)\<rparr>)"

text \<open>A device that left the factory: no state in the journal, slot 0 vouched for.\<close>

inductive device_reachable ::
    "crc8 \<Rightarrow> mock_geometry \<Rightarrow> nat \<Rightarrow> imxrt_config \<Rightarrow> 'x rom_api \<Rightarrow> ('p, 'e) nor_flash \<Rightarrow> nat \<Rightarrow> 'x device \<Rightarrow> bool"
  for crc g ptr cfg rom pops tick_hz where
  factory:
    "mock_storage_ok g BL_JOURNAL_BUFFER_SIZE f \<Longrightarrow> latest_state crc (mf_data f) = None \<Longrightarrow>
     device_reachable crc g ptr cfg rom pops tick_hz \<lparr>dev_phase = Halted f, dev_hw = h, dev_vouched = {S0}\<rparr>"
| step:
    "device_reachable crc g ptr cfg rom pops tick_hz d \<Longrightarrow> device_step crc g ptr cfg rom pops tick_hz d d' \<Longrightarrow>
     device_reachable crc g ptr cfg rom pops tick_hz d'"

inductive_cases device_stepE: "device_step crc g ptr cfg rom pops tick_hz d d'"

text \<open>A device that halted, in a panic or in a fault, does nothing until it is reset; only a press can vouch for a slot.\<close>

lemma halted_until_reset:
  assumes "device_step crc g ptr cfg rom pops tick_hz d d'" and "dev_phase d = Halted f"
  shows "\<exists>n slots h c p h'. power_on crc g ptr cfg rom pops (f\<lparr>bytes_until_shutoff := n\<rparr>) slots h c = (p, h') \<and>
    d' = d\<lparr>dev_phase := p, dev_hw := h'\<rparr>"
  using assms by (elim device_stepE) (simp_all, blast)

lemma vouched_by_press:
  assumes "device_step crc g ptr cfg rom pops tick_hz d d'" and "sl \<in> dev_vouched d'" and "sl \<notin> dev_vouched d"
  shows "\<exists>sl' a held. dev_phase d = Running sl' a \<and> confirms tick_hz held a \<and> sl = app_slot a"
  using assms by (elim device_stepE) (auto split: if_splits)

section \<open>The invariant\<close>

text \<open>The state the next boot starts from, and what makes it a safe one.\<close>

definition next_state :: "crc8 \<Rightarrow> mock_flash \<Rightarrow> state" where
  "next_state crc f = (case latest_state crc (mf_data f) of Some s \<Rightarrow> s | None \<Rightarrow> state_new crc Initial S0 S0)"

definition safe_state :: "slot set \<Rightarrow> state \<Rightarrow> bool" where
  "safe_state V s \<longleftrightarrow> state_target s \<in> {S0, S1} \<and> state_backup s \<in> {S0, S1} \<and> state_backup s \<in> V \<and>
     (state_status s = Confirmed \<longrightarrow> state_target s \<in> V)"

text \<open>
  A running application: its journal is in order, the state it read at start is safe and says which
  slot runs, and the journal holds that state or the one its button writes.
\<close>

definition running_inv :: "crc8 \<Rightarrow> mock_geometry \<Rightarrow> nat \<Rightarrow> slot set \<Rightarrow> slot \<Rightarrow> mock_flash app \<Rightarrow> bool" where
  "running_inv crc g ptr V sl a \<longleftrightarrow>
     mock_journal_ok crc g ptr APP_JOURNAL_BUFFER_SIZE (app_journal a) \<and> app_wf a \<and> app_slot a = sl \<and>
     state_status (app_state a) \<noteq> Initial \<and> safe_state V (app_state a) \<and>
     (journal_get (app_journal a) = Some (app_state a) \<or>
      journal_get (app_journal a) = Some (app_new_state crc a) \<and> safe_state V (app_new_state crc a))"

definition device_inv :: "crc8 \<Rightarrow> mock_geometry \<Rightarrow> nat \<Rightarrow> 'x device \<Rightarrow> bool" where
  "device_inv crc g ptr d \<longleftrightarrow>
     mock_storage_ok g BL_JOURNAL_BUFFER_SIZE (phase_flash (dev_phase d)) \<and>
     safe_state (dev_vouched d) (next_state crc (phase_flash (dev_phase d))) \<and>
     (case dev_phase d of Halted f \<Rightarrow> True | Running sl a \<Rightarrow> running_inv crc g ptr (dev_vouched d) sl a)"

lemma handlers [simp]: "panic_handler f = Halted f" "hard_fault f = Halted f"
  by (simp_all add: panic_handler_def hard_fault_def)

lemma safe_state_mono: "safe_state V s \<Longrightarrow> V \<subseteq> W \<Longrightarrow> safe_state W s"
  by (auto simp: safe_state_def)

lemma safe_default [simp]: "S0 \<in> V \<Longrightarrow> safe_state V (state_new crc Initial S0 S0)"
  by (simp add: safe_state_def)

lemma safe_with_status:
  "safe_state V s \<Longrightarrow> st \<noteq> Confirmed \<or> state_status s = Confirmed \<Longrightarrow> safe_state V (with_status crc s st)"
  by (auto simp: safe_state_def)

text \<open>The state the button writes is safe once the confirmation it may express is counted.\<close>

lemma safe_new_state:
  assumes "app_wf a" and "safe_state V (app_state a)"
  shows "safe_state (V \<union> (if \<not> is_confirmed a \<and> \<not> is_backup a then {app_slot a} else {})) (app_new_state crc a)"
  using assms by (cases "state_status (app_state a)") (auto simp: app_wf_def app_role_def app_new_state_def safe_state_def)

lemma mock_journal_ok_any:
  "mock_journal_ok crc g ptr N j \<Longrightarrow> even M \<Longrightarrow> 2 \<le> M \<Longrightarrow> mock_journal_ok crc g ptr M j"
  by (simp add: mock_journal_ok_def)

lemma mock_storage_ok_any: "mock_storage_ok g N f \<Longrightarrow> even M \<Longrightarrow> 2 \<le> M \<Longrightarrow> mock_storage_ok g M f"
  by (simp add: mock_storage_ok_def)

lemma storage_shutoff [simp]:
  "mock_storage_ok g N (f\<lparr>bytes_until_shutoff := n\<rparr>) = mock_storage_ok g N f"
  "next_state crc (f\<lparr>bytes_until_shutoff := n\<rparr>) = next_state crc f"
  by (simp_all add: mock_storage_ok_def next_state_def)

lemma journal_ok_shutoff [simp]:
  "mock_journal_ok crc g ptr N (j\<lparr>inner := (inner j)\<lparr>bytes_until_shutoff := n\<rparr>\<rparr>) = mock_journal_ok crc g ptr N j"
  by (simp add: mock_journal_ok_def journal_inv_def page_count_def mock_ops_def)

lemma next_state_journal:
  assumes "mock_journal_ok crc g ptr N j" and "journal_get j = Some s"
  shows "next_state crc (inner j) = s"
proof -
  have "latest_state crc (mf_data (inner j)) = Some s" using mock_journal.get_persisted [OF assms(1)] assms(2) by simp
  then show ?thesis by (simp add: next_state_def)
qed

section \<open>Boots\<close>

text \<open>
  A boot from storage that can be opened: the storage stays so, the next state is the old one or the
  old one marked, and when an image runs the journal says which.
\<close>

lemma boot_example:
  assumes f: "mock_storage_ok g BL_JOURNAL_BUFFER_SIZE f"
    and run: "start crc (mock_ops g ptr) BL_JOURNAL_BUFFER_SIZE
      (mock_board crc g ptr (example_config crc non_secure evk buf) rom pops) (f, slots, h, c) = (r, ob)"
  obtains b where "ob = Some b" "mock_storage_ok g BL_JOURNAL_BUFFER_SIZE (inner (im_journal b))"
    "next_state crc (inner (im_journal b)) \<in>
       {next_state crc f, with_status crc (next_state crc f) Failed, with_status crc (next_state crc f) Attempting}"
    "state_status (next_state crc f) = Confirmed \<Longrightarrow>
       next_state crc (inner (im_journal b)) \<in> {next_state crc f, with_status crc (next_state crc f) Failed}"
    "\<And>sl. r = Ok (Started sl) \<Longrightarrow> mock_journal_ok crc g ptr BL_JOURNAL_BUFFER_SIZE (im_journal b) \<and>
       journal_get (im_journal b) = Some (next_state crc (inner (im_journal b))) \<and>
       state_status (next_state crc (inner (im_journal b))) \<noteq> Initial \<and>
       fst (app_role (next_state crc (inner (im_journal b)))) = sl"
proof -
  let ?cfg = "example_config crc non_secure evk buf"
  let ?B = "mock_board crc g ptr ?cfg rom pops" and ?s = "next_state crc f"
  have dflt: "default_state ?B = Ok (state_new crc Initial S0 S0)" "\<And>s. is_valid_state ?B s"
    by (simp_all add: example_config_def policy_is_valid_state_def)
  from mock_storage_open [OF f] obtain j f' where
    new: "journal_new crc (mock_ops g ptr) BL_JOURNAL_BUFFER_SIZE f = (Ok j, f')"
    and j: "mock_journal_ok crc g ptr BL_JOURNAL_BUFFER_SIZE j" "journal_get j = latest_state crc (mf_data f)"
    by blast
  let ?b = "\<lparr>im_journal = j, im_slots = slots, im_hw = h, im_cpu = c\<rparr>"
  have rec: "device_records crc g ptr BL_JOURNAL_BUFFER_SIZE ?cfg rom pops ?s ?b"
    using j dflt by (auto simp: recorded_iff fetch_state_def next_state_def split: option.splits)
  obtain r' b where sb: "start_board crc (mock_ops g ptr) BL_JOURNAL_BUFFER_SIZE ?B ?b = (r', b)" by fastforce
  with run new have ob: "ob = Some b" "r = r'" by (auto simp: start_def imxrt_init_def)
  from imxrt.start_board_persisted [OF example_policy rec sb] j(2)
  have out: "next_state crc (inner (im_journal b)) \<in> {?s, with_status crc ?s Failed} \<union>
      (if state_status ?s = Initial then {with_status crc ?s Attempting} else {})"
    by (auto simp: imxrt.outcomes_def next_state_def split: if_splits)
  have started: "mock_journal_ok crc g ptr BL_JOURNAL_BUFFER_SIZE (im_journal b) \<and>
      journal_get (im_journal b) = Some (next_state crc (inner (im_journal b))) \<and>
      state_status (next_state crc (inner (im_journal b))) \<noteq> Initial \<and>
      fst (app_role (next_state crc (inner (im_journal b)))) = sl" if "r = Ok (Started sl)" for sl
  proof -
    from imxrt.start_board_Ok [OF example_policy rec sb [folded ob(2), unfolded that]] obtain s' where
      rec': "device_records crc g ptr BL_JOURNAL_BUFFER_SIZE ?cfg rom pops s' b"
      and s': "state_status s' \<noteq> Initial" "fst (app_role s') = sl"
      by (cases "state_status ?s") (auto simp: app_role_def)
    from rec' have ok: "mock_journal_ok crc g ptr BL_JOURNAL_BUFFER_SIZE (im_journal b)"
      and fetch: "fetch_state ?B b = Ok s'" by (simp_all add: recorded_iff)
    from fetch s'(1) dflt have get: "journal_get (im_journal b) = Some s'"
      by (auto simp: fetch_state_def split: option.splits)
    from ok get s' next_state_journal [OF ok get] show ?thesis by simp
  qed
  from device.start_board_storage [OF example_policy rec sb]
  have "mock_storage_ok g BL_JOURNAL_BUFFER_SIZE (inner (im_journal b))" by simp
  with out started show thesis by (intro that [OF ob(1)]) (auto split: if_splits)
qed

text \<open>The application finds the journal the bootloader left, and runs from the slot that was started.\<close>

lemma app_init_example:
  assumes ok: "mock_journal_ok crc g ptr N j" and get: "journal_get j = Some s"
  obtains a where "app_init crc (mock_ops g ptr) (inner j) = Ok a" "app_wf a" "app_state a = s"
    "mock_journal_ok crc g ptr APP_JOURNAL_BUFFER_SIZE (app_journal a)" "journal_get (app_journal a) = Some s"
    "app_slot a = fst (app_role s)" "mf_data (inner (app_journal a)) = mf_data (inner j)"
    "mock_reliable (inner j) \<Longrightarrow> mock_reliable (inner (app_journal a))"
proof -
  have st: "mock_inv g (inner j)" "2 \<le> PAGES g"
    using mock_journal_ok_storage [OF ok] by (simp_all add: mock_storage_ok_def)
  from mock_journal_new [OF st, of APP_JOURNAL_BUFFER_SIZE crc ptr] obtain j' f' where
    new: "journal_new crc (mock_ops g ptr) APP_JOURNAL_BUFFER_SIZE (inner j) = (Ok j', f')"
    and j': "mock_journal_inv crc g ptr j'" "inner j' = f'" "mf_data f' = mf_data (inner j)"
      "journal_get j' = latest_state crc (mf_data (inner j))"
      "mock_reliable (inner j) \<longrightarrow> mock_reliable f'"
    by auto
  from new have "\<exists>a. app_init crc (mock_ops g ptr) (inner j) = Ok a"
    by (simp add: app_init_def Let_def split: prod.splits)
  then obtain a where a: "app_init crc (mock_ops g ptr) (inner j) = Ok a" by blast
  then obtain f'' where "journal_new crc (mock_ops g ptr) APP_JOURNAL_BUFFER_SIZE (inner j) = (Ok (app_journal a), f'')"
    and fields: "app_state a = app_fetch crc (app_journal a)" "app_wf a" by (rule app_init_Ok)
  with new have aj: "app_journal a = j'" by simp
  have get': "journal_get (app_journal a) = Some s"
    unfolding aj using j'(4) get mock_journal.get_persisted [OF ok] by simp
  with fields(1) have state: "app_state a = s" by (simp add: app_fetch_def)
  with fields(2) have slot: "app_slot a = fst (app_role s)" by (simp add: app_wf_def)
  have ok': "mock_journal_ok crc g ptr APP_JOURNAL_BUFFER_SIZE (app_journal a)"
    unfolding aj using j'(1) by (simp add: mock_journal_ok_def)
  have "mf_data (inner (app_journal a)) = mf_data (inner j)" unfolding aj j'(2) by (rule j'(3))
  moreover have "mock_reliable (inner (app_journal a))" if "mock_reliable (inner j)"
    unfolding aj j'(2) using that j'(5) by simp
  ultimately show thesis by (rule that [OF a fields(2) state ok' get' slot])
qed

section \<open>Every step keeps the invariant\<close>

lemma power_on_inv:
  assumes f: "mock_storage_ok g BL_JOURNAL_BUFFER_SIZE f" and safe: "safe_state V (next_state crc f)"
    and run: "power_on crc g ptr (example_config crc non_secure evk buf) rom pops f slots h c = (p, h')"
  shows "device_inv crc g ptr \<lparr>dev_phase = p, dev_hw = hw, dev_vouched = V\<rparr>"
proof -
  obtain r ob where st: "start crc (mock_ops g ptr) BL_JOURNAL_BUFFER_SIZE
      (mock_board crc g ptr (example_config crc non_secure evk buf) rom pops) (f, slots, h, c) = (r, ob)"
    by fastforce
  obtain b where ob: "ob = Some b" and stor: "mock_storage_ok g BL_JOURNAL_BUFFER_SIZE (inner (im_journal b))"
    and nxt: "next_state crc (inner (im_journal b)) \<in>
       {next_state crc f, with_status crc (next_state crc f) Failed, with_status crc (next_state crc f) Attempting}"
    and started: "\<And>sl. r = Ok (Started sl) \<Longrightarrow> mock_journal_ok crc g ptr BL_JOURNAL_BUFFER_SIZE (im_journal b) \<and>
       journal_get (im_journal b) = Some (next_state crc (inner (im_journal b))) \<and>
       state_status (next_state crc (inner (im_journal b))) \<noteq> Initial \<and>
       fst (app_role (next_state crc (inner (im_journal b)))) = sl"
    by (rule boot_example [OF f st]) blast
  have safe': "safe_state V (next_state crc (inner (im_journal b)))"
    using nxt safe safe_with_status [OF safe] by auto
  have halted: ?thesis if "p = Halted (inner (im_journal b))"
    using that stor safe' by (simp add: device_inv_def)
  show ?thesis
  proof (cases "\<exists>sl. r = Ok (Started sl)")
    case True
    then obtain sl where sl: "r = Ok (Started sl)" by blast
    note s = started [OF sl]
    obtain a where a: "app_init crc (mock_ops g ptr) (inner (im_journal b)) = Ok a" "app_wf a"
        "app_state a = next_state crc (inner (im_journal b))"
        "mock_journal_ok crc g ptr APP_JOURNAL_BUFFER_SIZE (app_journal a)"
        "journal_get (app_journal a) = Some (next_state crc (inner (im_journal b)))"
        "app_slot a = fst (app_role (next_state crc (inner (im_journal b))))"
        "mf_data (inner (app_journal a)) = mf_data (inner (im_journal b))"
      using app_init_example s by blast
    have p: "p = Running sl a" using run st ob sl a(1) by (simp add: power_on_def)
    have "mock_storage_ok g BL_JOURNAL_BUFFER_SIZE (inner (app_journal a))"
      using mock_storage_ok_any [OF mock_journal_ok_storage [OF a(4)]] by simp
    with p a s safe' show ?thesis by (simp add: device_inv_def running_inv_def next_state_def)
  next
    case False
    with run st ob have "p = Halted (inner (im_journal b))"
      by (auto simp: power_on_def split: res.splits start_result.splits)
    then show ?thesis by (rule halted)
  qed
qed

text \<open>A press: the journal holds the state from before or the new one, and what the press confirmed counts.\<close>

lemma press_inv:
  assumes inv: "running_inv crc g ptr V sl a" and V: "V \<subseteq> W" "confirms tick_hz held a \<Longrightarrow> app_slot a \<in> W"
    and run: "button1_press crc (mock_ops g ptr) rom tick_hz held a h = (r, a', h')"
  shows "mock_storage_ok g BL_JOURNAL_BUFFER_SIZE (inner (app_journal a')) \<and>
    safe_state W (next_state crc (inner (app_journal a'))) \<and> (r = Ok () \<longrightarrow> running_inv crc g ptr W sl a')"
proof -
  have ok: "mock_journal_ok crc g ptr APP_JOURNAL_BUFFER_SIZE (app_journal a)" and wf: "app_wf a"
    and safe: "safe_state W (app_state a)" and get: "journal_get (app_journal a) = Some (app_state a) \<or>
      journal_get (app_journal a) = Some (app_new_state crc a) \<and> safe_state W (app_new_state crc a)"
    using inv safe_state_mono [OF _ V(1)] by (auto simp: running_inv_def)
  have inv': "running_inv crc g ptr W sl a" using inv safe get by (simp add: running_inv_def)
  note stor = mock_storage_ok_any [OF mock_journal_ok_storage [OF ok], of BL_JOURNAL_BUFFER_SIZE]
  have now: "safe_state W (next_state crc (inner (app_journal a)))"
    using get safe next_state_journal [OF ok] by auto
  show ?thesis
  proof (cases "held > FUSE_DELAY tick_hz")
    case True
    with run have "a' = a" by (auto simp: button1_press_def split: prod.splits)
    with inv' stor now show ?thesis by simp
  next
    case False
    let ?n = "app_new_state crc a"
    obtain rj j' where set: "journal_set crc (mock_ops g ptr) APP_JOURNAL_BUFFER_SIZE ?n (app_journal a) = (rj, j')"
      by fastforce
    have a': "a' = a\<lparr>app_journal := j'\<rparr>" and r: "r = Ok () \<longrightarrow> rj = Ok ()"
      using run False set by (auto simp: button1_press_def split: res.splits)
    have new: "safe_state W ?n"
      using safe_new_state [OF wf safe, of crc] V(2) False
      by (auto simp: confirms_def insert_absorb split: if_splits)
    have "latest_state crc (mf_data (inner j')) = journal_get (app_journal a) \<or>
        latest_state crc (mf_data (inner j')) = Some ?n"
      using mock_journal.set_atomic [OF ok app_new_state_valid set] .
    with get safe new have "safe_state W (next_state crc (inner j'))" by (auto simp: next_state_def)
    moreover have "mock_storage_ok g BL_JOURNAL_BUFFER_SIZE (inner j')"
      using mock_storage_ok_any [OF mock_journal_set_storage [OF ok app_new_state_valid set]] by simp
    moreover have "running_inv crc g ptr W sl a'" if "r = Ok ()"
    proof -
      have "journal_set crc (mock_ops g ptr) APP_JOURNAL_BUFFER_SIZE ?n (app_journal a) = (Ok (), j')"
        using set r that by simp
      from mock_journal.set_success [OF ok app_new_state_valid this] inv' new show ?thesis
        by (simp add: running_inv_def a')
    qed
    ultimately show ?thesis by (simp add: a')
  qed
qed

lemma device_step_inv:
  assumes "device_step crc g ptr (example_config crc non_secure evk buf) rom pops tick_hz d d'"
    and "device_inv crc g ptr d"
  shows "device_inv crc g ptr d'"
  using assms
proof (induction rule: device_step.induct)
  case (reset n d slots h c p h')
  then have "mock_storage_ok g BL_JOURNAL_BUFFER_SIZE ((phase_flash (dev_phase d))\<lparr>bytes_until_shutoff := n\<rparr>)"
    "safe_state (dev_vouched d) (next_state crc ((phase_flash (dev_phase d))\<lparr>bytes_until_shutoff := n\<rparr>))"
    by (simp_all add: device_inv_def)
  from power_on_inv [OF this reset.hyps, of h'] show ?case by (simp add: device_inv_def split: phase.splits)
next
  case (press d sl a held a' h' V)
  then have "running_inv crc g ptr (dev_vouched d) sl a" by (simp add: device_inv_def)
  from press_inv [OF this _ _ press.hyps(2), of "dev_vouched d \<union> V"] press.hyps(3) show ?case
    by (simp add: device_inv_def)
next
  case (press_fails d sl a held r a' h' V)
  then have "running_inv crc g ptr (dev_vouched d) sl a" by (simp add: device_inv_def)
  from press_inv [OF this _ _ press_fails.hyps(2), of "dev_vouched d \<union> V"] press_fails.hyps(4) show ?case
    by (simp add: device_inv_def)
next
  case (fault d sl a h')
  then show ?case by (simp add: device_inv_def)
next
  case (brownout d sl a n)
  then show ?case by (simp add: device_inv_def running_inv_def) (simp add: journal_get_def)
qed

lemma device_reachable_inv:
  assumes "device_reachable crc g ptr (example_config crc non_secure evk buf) rom pops tick_hz d"
  shows "device_inv crc g ptr d"
  using assms
proof (induction rule: device_reachable.induct)
  case (factory f h)
  then show ?case by (simp add: device_inv_def next_state_def)
next
  case (step d d')
  then show ?case by (blast intro: device_step_inv)
qed

section \<open>A device that does not fail\<close>

text \<open>
  \<open>verdicts\<close>: on boards with these slots and a machine in order, the check of a slot ends as \<open>bootable\<close>
  says and keeps the board so.
\<close>

definition verdicts ::
    "imxrt_config \<Rightarrow> 'x rom_api \<Rightarrow> ('p, 'e) nor_flash \<Rightarrow> 'p list \<Rightarrow> ('x hw \<Rightarrow> bool) \<Rightarrow> (slot \<Rightarrow> bool) \<Rightarrow> bool" where
  "verdicts cfg rom pops slots ready bootable \<longleftrightarrow>
     (\<forall>sl (b :: (mock_flash, 'p, 'x) imxrt). im_slots b = slots \<longrightarrow> ready (im_hw b) \<longrightarrow>
        (\<exists>b' e. imxrt_check_and_boot cfg rom pops sl b = (Ok (if bootable sl then Booted else Returned e), b') \<and>
           im_slots b' = slots \<and> ready (im_hw b')))"

lemma power_on_reliable:
  assumes f: "mock_storage_ok g BL_JOURNAL_BUFFER_SIZE f" "mock_reliable f"
    and v: "verdicts (example_config crc non_secure evk buf) rom pops slots ready bootable" "ready h"
    and abs: "abstract_boot bootable (next_state crc f) = (Started sl, st)"
  obtains a h' where
    "power_on crc g ptr (example_config crc non_secure evk buf) rom pops f slots h c = (Running sl a, h')"
    "app_wf a" "app_state a = with_status crc (next_state crc f) st" "app_slot a = fst (app_role (app_state a))"
    "mock_journal_ok crc g ptr APP_JOURNAL_BUFFER_SIZE (app_journal a)"
    "journal_get (app_journal a) = Some (app_state a)" "mock_reliable (inner (app_journal a))"
proof -
  let ?cfg = "example_config crc non_secure evk buf" and ?N = BL_JOURNAL_BUFFER_SIZE
  let ?B = "mock_board crc g ptr ?cfg rom pops" and ?s = "next_state crc f"
  let ?P = "\<lambda>b. im_slots b = slots \<and> ready (im_hw b)"
  from mock_storage_open [OF f(1), of crc ptr] f(2) obtain j f' where
    new: "journal_new crc (mock_ops g ptr) ?N f = (Ok j, f')" and j: "mock_journal_ok crc g ptr ?N j"
      "journal_get j = latest_state crc (mf_data f)" "mock_reliable (inner j)"
    by auto
  let ?b = "\<lparr>im_journal = j, im_slots = slots, im_hw = h, im_cpu = c\<rparr>"
  have rec: "device_records crc g ptr ?N ?cfg rom pops ?s ?b"
    using j by (auto simp: recorded_iff fetch_state_def next_state_def example_config_def
        policy_is_valid_state_def split: option.splits)
  have rel: "mock_reliable (inner (board_journal ?B ?b))" and P: "?P ?b" using j(3) v(2) by simp_all
  have keep: "?P (set_board_journal ?B j b)" if "?P b" for j b using that by (simp add: imxrt_board_def)
  have boots: "\<exists>b' e. check_and_boot ?B sl b = (Ok (if bootable sl then Booted else Returned e), b') \<and> ?P b'"
    if "?P b" for sl b using v(1) that by (simp add: verdicts_def)
  obtain b where run: "start_board crc (mock_ops g ptr) ?N ?B ?b = (Ok (Started sl), b)"
    and recb: "device_records crc g ptr ?N ?cfg rom pops (with_status crc ?s st) b"
    and relb: "mock_reliable (inner (im_journal b))"
    using imxrt.start_board_refines [where P = ?P, OF example_policy rec rel P keep boots abs] by auto
  from recb have ok: "mock_journal_ok crc g ptr ?N (im_journal b)" by (simp add: recorded_iff)
  have st: "st \<noteq> Initial"
    using abs by (cases "state_status ?s") (auto simp: abstract_boot_def Let_def split: if_splits)
  then have "with_status crc ?s st \<noteq> state_new crc Initial S0 S0" by (auto dest: arg_cong [of _ _ state_status])
  then have get: "journal_get (im_journal b) = Some (with_status crc ?s st)"
    using recb by (auto simp: recorded_iff fetch_state_def example_config_def policy_is_valid_state_def split: option.splits)
  obtain a where a: "app_init crc (mock_ops g ptr) (inner (im_journal b)) = Ok a" "app_wf a"
      "app_state a = with_status crc ?s st" "mock_journal_ok crc g ptr APP_JOURNAL_BUFFER_SIZE (app_journal a)"
      "journal_get (app_journal a) = Some (with_status crc ?s st)" "app_slot a = fst (app_role (with_status crc ?s st))"
      "mock_reliable (inner (app_journal a))"
    by (rule app_init_example [OF ok get]) (use relb in blast)
  have "power_on crc g ptr ?cfg rom pops f slots h c = (Running sl a, im_hw b)"
    using new run a(1) by (simp add: power_on_def start_def imxrt_init_def)
  then show thesis by (rule that) (use a in simp_all)
qed

lemma press_reliable:
  assumes "mock_journal_ok crc g ptr APP_JOURNAL_BUFFER_SIZE (app_journal a)"
    and "mock_reliable (inner (app_journal a))" and "held \<le> FUSE_DELAY tick_hz"
  obtains j where
    "button1_press crc (mock_ops g ptr) rom tick_hz held a h = (Ok (), a\<lparr>app_journal := j\<rparr>, h)"
    "mock_journal_ok crc g ptr APP_JOURNAL_BUFFER_SIZE j" "next_state crc (inner j) = app_new_state crc a"
proof -
  from mock_journal.set_reliable [OF assms(1) app_new_state_valid assms(2)] obtain j where
    set: "journal_set crc (mock_ops g ptr) APP_JOURNAL_BUFFER_SIZE (app_new_state crc a) (app_journal a) = (Ok (), j)"
    by blast
  from mock_journal.set_success [OF assms(1) app_new_state_valid this] have
    j: "mock_journal_ok crc g ptr APP_JOURNAL_BUFFER_SIZE j" "journal_get j = Some (app_new_state crc a)" by auto
  from j have "next_state crc (inner j) = app_new_state crc a" by (rule next_state_journal)
  moreover have "button1_press crc (mock_ops g ptr) rom tick_hz held a h = (Ok (), a\<lparr>app_journal := j\<rparr>, h)"
    using set assms(3) by (simp add: button1_press_def)
  ultimately show thesis using j(1) by (intro that)
qed

text \<open>The two steps of an undisturbed device: a short press, and a reset with power for the whole boot.\<close>

lemma press_step:
  assumes d: "dev_phase d = Running sl a" and ok: "mock_journal_ok crc g ptr APP_JOURNAL_BUFFER_SIZE (app_journal a)"
    and rel: "mock_reliable (inner (app_journal a))" and held: "held \<le> FUSE_DELAY tick_hz"
  obtains d' a' where "device_step crc g ptr cfg rom pops tick_hz d d'" "dev_phase d' = Running sl a'"
    "mock_journal_ok crc g ptr APP_JOURNAL_BUFFER_SIZE (app_journal a')"
    "next_state crc (inner (app_journal a')) = app_new_state crc a"
proof -
  obtain j where press: "button1_press crc (mock_ops g ptr) rom tick_hz held a (dev_hw d) = (Ok (), a\<lparr>app_journal := j\<rparr>, dev_hw d)"
    and j: "mock_journal_ok crc g ptr APP_JOURNAL_BUFFER_SIZE j" "next_state crc (inner j) = app_new_state crc a"
    by (rule press_reliable [OF ok rel held])
  show thesis
    by (rule that [where a' = "a\<lparr>app_journal := j\<rparr>", OF device_step.press [OF d press refl]]) (use j in simp_all)
qed

lemma reset_reliable:
  assumes ok: "mock_journal_ok crc g ptr APP_JOURNAL_BUFFER_SIZE (app_journal a0)"
    and v: "verdicts (example_config crc non_secure evk buf) rom pops slots ready bootable" "ready h"
    and abs: "abstract_boot bootable (next_state crc (inner (app_journal a0))) = (Started sl, st)"
  obtains a h' where
    "power_on crc g ptr (example_config crc non_secure evk buf) rom pops
       ((inner (app_journal a0))\<lparr>bytes_until_shutoff := None\<rparr>) slots h c = (Running sl a, h')"
    "app_wf a" "app_state a = with_status crc (next_state crc (inner (app_journal a0))) st"
    "mock_journal_ok crc g ptr APP_JOURNAL_BUFFER_SIZE (app_journal a)"
    "next_state crc (inner (app_journal a)) = app_state a" "mock_reliable (inner (app_journal a))"
proof -
  let ?f = "(inner (app_journal a0))\<lparr>bytes_until_shutoff := None\<rparr>"
  have f: "mock_storage_ok g BL_JOURNAL_BUFFER_SIZE ?f" "mock_reliable ?f"
    using mock_storage_ok_any [OF mock_journal_ok_storage [OF ok]] by (simp_all add: mock_reliable_def)
  have same: "next_state crc ?f = next_state crc (inner (app_journal a0))" by (simp add: next_state_def)
  show thesis
    by (rule power_on_reliable [OF f v abs [folded same], where ptr = ptr and c = c])
      (rule that, simp_all add: same next_state_journal)
qed

lemma reset_step:
  assumes d: "dev_phase d = Running sl0 a0" and ok: "mock_journal_ok crc g ptr APP_JOURNAL_BUFFER_SIZE (app_journal a0)"
    and v: "verdicts (example_config crc non_secure evk buf) rom pops slots ready bootable" "ready h"
    and abs: "abstract_boot bootable (next_state crc (inner (app_journal a0))) = (Started sl, st)"
  obtains d' a where "device_step crc g ptr (example_config crc non_secure evk buf) rom pops tick_hz d d'"
    "dev_phase d' = Running sl a" "app_wf a" "app_state a = with_status crc (next_state crc (inner (app_journal a0))) st"
    "mock_reliable (inner (app_journal a))"
proof -
  let ?f = "(inner (app_journal a0))\<lparr>bytes_until_shutoff := None\<rparr>" and ?cfg = "example_config crc non_secure evk buf"
  obtain a h' where on: "power_on crc g ptr ?cfg rom pops ?f slots h undefined = (Running sl a, h')"
    and a: "app_wf a" "app_state a = with_status crc (next_state crc (inner (app_journal a0))) st"
      "mock_reliable (inner (app_journal a))"
    by (rule reset_reliable [OF ok v abs, where c = undefined])
  have "device_step crc g ptr ?cfg rom pops tick_hz d (d\<lparr>dev_phase := Running sl a, dev_hw := h'\<rparr>)"
    by (rule device_step.reset [where n = None]) (use d on in simp)
  then show thesis by (rule that) (use a in simp_all)
qed

section \<open>A concrete device\<close>

abbreviation demo_example :: imxrt_config where
  "demo_example \<equiv> example_config crc8_opensafety False False 0x30176000"

lemma demo_example_eq: "demo_example = demo_config"
  by (simp add: example_config_def demo_config_def)

lemma demo_verdicts:
  "verdicts demo_example demo_rom slot_ops [demo_image, demo_image] (\<lambda>h. \<not> otp_initialized h) (\<lambda>sl. sl \<in> {S0, S1})"
  using demo_verdict by (auto simp: verdicts_def demo_example_eq demo_ready_def)

lemma demo_flash:
  "mock_storage_ok tiny_geometry BL_JOURNAL_BUFFER_SIZE (mock_new tiny_geometry None False)"
  "latest_state crc (mf_data (mock_new tiny_geometry None False)) = None"
  using tiny_mock_inv [of None]
  by (simp_all add: mock_storage_ok_def mock_new_def latest_fresh) (simp add: tiny_geometry_def)

lemma demo_first_power_on:
  obtains a h' where
    "power_on crc8_opensafety tiny_geometry 0 demo_example demo_rom slot_ops (mock_new tiny_geometry None False)
       [demo_image, demo_image] blank_hw demo_cpu = (Running S0 a, h')"
    "app_wf a" "app_state a = state_new crc8_opensafety Attempting S0 S0"
    "mock_journal_ok crc8_opensafety tiny_geometry 0 APP_JOURNAL_BUFFER_SIZE (app_journal a)"
    "mock_reliable (inner (app_journal a))"
proof -
  let ?f = "mock_new tiny_geometry None False"
  have s: "next_state crc8_opensafety ?f = state_new crc8_opensafety Initial S0 S0"
    by (simp add: next_state_def demo_flash)
  have dev: "mock_reliable ?f" "\<not> otp_initialized (blank_hw :: unit hw)"
    by (simp_all add: mock_reliable_def mock_new_def blank_hw_def)
  have "abstract_boot (\<lambda>sl. sl \<in> {S0, S1}) (next_state crc8_opensafety ?f) = (Started S0, Attempting)"
    unfolding s by (simp add: abstract_boot_def)
  then show thesis
    by (rule power_on_reliable [OF demo_flash(1) dev(1) demo_verdicts dev(2), where ptr = 0 and c = demo_cpu])
      (rule that, simp_all add: s with_status_def)
qed

lemma demo_first_boot:
  "\<exists>ob. start crc8_opensafety (mock_ops tiny_geometry 0) BL_JOURNAL_BUFFER_SIZE
     (mock_board crc8_opensafety tiny_geometry 0 demo_example demo_rom slot_ops)
     (mock_new tiny_geometry None False, [demo_image, demo_image], blank_hw, demo_cpu) = (Ok (Started S0), ob)"
proof -
  obtain a h' where "power_on crc8_opensafety tiny_geometry 0 demo_example demo_rom slot_ops
      (mock_new tiny_geometry None False) [demo_image, demo_image] blank_hw demo_cpu = (Running S0 a, h')"
    by (rule demo_first_power_on)
  then show ?thesis
    by (auto simp: power_on_def split: prod.splits option.splits res.splits start_result.splits)
qed

text \<open>Powered on, confirmed by a press, reset: it runs slot 0 as confirmed.\<close>

lemma demo_confirmed:
  obtains d a where
    "device_reachable crc8_opensafety tiny_geometry 0 demo_example demo_rom slot_ops 1 d"
    "dev_phase d = Running S0 a" "is_confirmed a" "mock_reliable (inner (app_journal a))"
proof -
  let ?crc = crc8_opensafety and ?g = tiny_geometry and ?cfg = demo_example
  let ?reach = "device_reachable ?crc ?g 0 ?cfg demo_rom slot_ops 1"
  let ?f = "mock_new ?g None False"
  have ready: "\<not> otp_initialized (blank_hw :: unit hw)" by (simp add: blank_hw_def)
  let ?d0 = "\<lparr>dev_phase = Halted ?f, dev_hw = blank_hw, dev_vouched = {S0}\<rparr> :: unit device"
  have r0: "?reach ?d0" by (rule device_reachable.factory [OF demo_flash])
  obtain a1 h1 where
    p1: "power_on ?crc ?g 0 ?cfg demo_rom slot_ops ?f [demo_image, demo_image] blank_hw demo_cpu = (Running S0 a1, h1)"
    and a1: "app_wf a1" "app_state a1 = state_new ?crc Attempting S0 S0"
      "mock_journal_ok ?crc ?g 0 APP_JOURNAL_BUFFER_SIZE (app_journal a1)" "mock_reliable (inner (app_journal a1))"
    by (rule demo_first_power_on)
  let ?d1 = "?d0\<lparr>dev_phase := Running S0 a1, dev_hw := h1\<rparr>"
  have "?f\<lparr>bytes_until_shutoff := None\<rparr> = ?f" by (simp add: mock_new_def)
  with p1 have r1: "?reach ?d1"
    by (intro device_reachable.step [OF r0] device_step.reset [where n = None]) simp
  have d1: "dev_phase ?d1 = Running S0 a1" "0 \<le> FUSE_DELAY 1" by simp_all
  obtain d2 a2 where d2: "device_step ?crc ?g 0 ?cfg demo_rom slot_ops 1 ?d1 d2" "dev_phase d2 = Running S0 a2"
      "mock_journal_ok ?crc ?g 0 APP_JOURNAL_BUFFER_SIZE (app_journal a2)"
      "next_state ?crc (inner (app_journal a2)) = app_new_state ?crc a1"
    by (rule press_step [OF d1(1) a1(3,4) d1(2)])
  have s2: "next_state ?crc (inner (app_journal a2)) = state_new ?crc Confirmed S0 S0"
    using d2(4) a1(1,2) by (auto simp: app_wf_def app_role_def app_new_state_def with_status_def)
  have abs: "abstract_boot (\<lambda>sl. sl \<in> {S0, S1}) (next_state ?crc (inner (app_journal a2))) = (Started S0, Confirmed)"
    unfolding s2 by (simp add: abstract_boot_def)
  obtain d3 a3 where d3: "device_step ?crc ?g 0 ?cfg demo_rom slot_ops 1 d2 d3" "dev_phase d3 = Running S0 a3"
    and a3: "app_wf a3" "app_state a3 = with_status ?crc (next_state ?crc (inner (app_journal a2))) Confirmed"
      "mock_reliable (inner (app_journal a3))"
    by (rule reset_step [OF d2(2,3) demo_verdicts ready abs])
  have "is_confirmed a3" using a3(1,2) by (auto simp: app_wf_def app_role_def)
  with d3(2) a3(3) show thesis
    by (intro that [OF device_reachable.step [OF device_reachable.step [OF r1 d2(1)] d3(1)]])
qed

section \<open>Properties\<close>

text \<open>
  C10. The application knows which image it is: when the example bootloader starts the image of a slot,
  the application that then opens the journal finds its state and takes exactly that slot as its own,
  considers itself the backup exactly when the journal says \<open>Failed\<close> and confirmed exactly when it says
  \<open>Confirmed\<close>. Its LEDs say so: the blue one blinks once more than the number of the slot, the green one
  is lit from the start exactly for a confirmed image, and the red one blinks exactly for the backup.
\<close>

theorem app_runs_booted_slot:
  assumes "mock_storage_ok g BL_JOURNAL_BUFFER_SIZE f"
    and "start crc (mock_ops g ptr) BL_JOURNAL_BUFFER_SIZE
      (mock_board crc g ptr (example_config crc non_secure evk buf) rom pops) (f, slots, h, c) = (Ok (Started sl), ob)"
  shows "\<exists>b a. ob = Some b \<and> app_init crc (mock_ops g ptr) (inner (im_journal b)) = Ok a \<and>
    journal_get (im_journal b) = Some (app_state a) \<and> app_slot a = sl \<and>
    (is_backup a \<longleftrightarrow> state_status (app_state a) = Failed) \<and>
    (is_confirmed a \<longleftrightarrow> state_status (app_state a) = Confirmed) \<and>
    count_list (led_round a) BlueHigh = Suc (unat (slot_as_u8 sl)) \<and>
    (out_level (led_green (app_leds a)) = High \<longleftrightarrow> state_status (app_state a) = Confirmed) \<and>
    (backup_led_round a = None \<longleftrightarrow> state_status (app_state a) \<noteq> Failed)"
proof -
  obtain b where b: "ob = Some b" "mock_journal_ok crc g ptr BL_JOURNAL_BUFFER_SIZE (im_journal b)"
      "journal_get (im_journal b) = Some (next_state crc (inner (im_journal b)))"
      "fst (app_role (next_state crc (inner (im_journal b)))) = sl"
    by (rule boot_example [OF assms]) blast
  obtain a where a: "app_init crc (mock_ops g ptr) (inner (im_journal b)) = Ok a" "app_wf a"
      "app_state a = next_state crc (inner (im_journal b))"
      "app_slot a = fst (app_role (next_state crc (inner (im_journal b))))"
    by (rule app_init_example [OF b(2,3)])
  have rounds: "count_list (concat (replicate n [BlueHigh, After_millis 200, BlueLow, After_millis 200])) BlueHigh = n" for n
    by (induction n) simp_all
  have "unat (slot_as_u8 sl + 1) = Suc (unat (slot_as_u8 sl))" by (cases sl) simp_all
  then have "count_list (led_round a) BlueHigh = Suc (unat (slot_as_u8 sl))"
    using a(4) b(4) by (simp add: led_round_def rounds Let_def)
  moreover have "(is_backup a \<longleftrightarrow> state_status (app_state a) = Failed) \<and>
      (is_confirmed a \<longleftrightarrow> state_status (app_state a) = Confirmed)"
    using a(2) by (cases "state_status (app_state a)") (auto simp: app_wf_def app_role_def)
  ultimately show ?thesis
    using a b by (intro exI [of _ b] exI [of _ a]) (simp add: app_leds_def backup_led_round_def)
qed

theorem app_runs_booted_slot_witness:
  "\<exists>ob b a. start crc8_opensafety (mock_ops tiny_geometry 0) BL_JOURNAL_BUFFER_SIZE
       (mock_board crc8_opensafety tiny_geometry 0 demo_example demo_rom slot_ops)
       (mock_new tiny_geometry None False, [demo_image, demo_image], blank_hw, demo_cpu) = (Ok (Started S0), ob) \<and>
     ob = Some b \<and> app_init crc8_opensafety (mock_ops tiny_geometry 0) (inner (im_journal b)) = Ok a \<and> app_slot a = S0"
proof -
  obtain ob where "start crc8_opensafety (mock_ops tiny_geometry 0) BL_JOURNAL_BUFFER_SIZE
       (mock_board crc8_opensafety tiny_geometry 0 demo_example demo_rom slot_ops)
       (mock_new tiny_geometry None False, [demo_image, demo_image], blank_hw, demo_cpu) = (Ok (Started S0), ob)"
    using demo_first_boot by blast
  from app_runs_booted_slot [OF demo_flash(1) this] this show ?thesis by blast
qed

text \<open>
  C8. The backup is always an image someone vouched for. In every state the example device can reach,
  through any sequence of boots, button presses, resets and power failures at any byte, with any
  contents of the image slots: the journal can be opened, and the state it holds (or the default) names
  as backup, and if it is \<open>Confirmed\<close> also as target, a slot that is the factory slot or whose running image the
  user confirmed. An image nobody vouched for runs only as a recorded attempt.
\<close>

theorem device_rollback_invariant:
  assumes "device_reachable crc g ptr (example_config crc non_secure evk buf) rom pops tick_hz d"
  shows "(\<exists>j f'. journal_new crc (mock_ops g ptr) BL_JOURNAL_BUFFER_SIZE (phase_flash (dev_phase d)) = (Ok j, f')) \<and>
    safe_state (dev_vouched d) (next_state crc (phase_flash (dev_phase d))) \<and>
    (\<forall>sl a. dev_phase d = Running sl a \<longrightarrow> app_slot a = sl \<and>
       (sl \<in> dev_vouched d \<or>
        state_status (next_state crc (phase_flash (dev_phase d))) = Attempting \<and>
        sl = state_target (next_state crc (phase_flash (dev_phase d)))))"
proof -
  let ?f = "phase_flash (dev_phase d)" and ?V = "dev_vouched d"
  note inv = device_reachable_inv [OF assms]
  have stor: "mock_storage_ok g BL_JOURNAL_BUFFER_SIZE ?f" and safe: "safe_state ?V (next_state crc ?f)"
    using inv by (simp_all add: device_inv_def)
  from mock_storage_open [OF stor, of crc ptr] have "\<exists>j f'. journal_new crc (mock_ops g ptr) BL_JOURNAL_BUFFER_SIZE ?f = (Ok j, f')"
    by blast
  moreover have "app_slot a = sl \<and> (sl \<in> ?V \<or> state_status (next_state crc ?f) = Attempting \<and>
      sl = state_target (next_state crc ?f))" if run: "dev_phase d = Running sl a" for sl a
  proof -
    have r: "running_inv crc g ptr ?V sl a" using inv run by (simp add: device_inv_def)
    then have ok: "mock_journal_ok crc g ptr APP_JOURNAL_BUFFER_SIZE (app_journal a)"
      and wf: "app_wf a" "app_slot a = sl" "state_status (app_state a) \<noteq> Initial" "safe_state ?V (app_state a)"
      and get: "journal_get (app_journal a) \<in> {Some (app_state a), Some (app_new_state crc a)}"
      by (auto simp: running_inv_def)
    have "next_state crc ?f = app_state a \<or> next_state crc ?f = app_new_state crc a"
      using get next_state_journal [OF ok] run by auto
    with wf safe show ?thesis
      by (cases "state_status (app_state a)")
        (auto simp: app_wf_def app_role_def safe_state_def app_new_state_def)
  qed
  ultimately show ?thesis using safe by blast
qed

theorem device_rollback_invariant_witness:
  "\<exists>d a. device_reachable crc8_opensafety tiny_geometry 0 demo_example demo_rom slot_ops 1 d \<and>
     dev_phase d = Running S0 a \<and> safe_state (dev_vouched d) (next_state crc8_opensafety (inner (app_journal a)))"
proof -
  obtain d a where d: "device_reachable crc8_opensafety tiny_geometry 0 demo_example demo_rom slot_ops 1 d"
      "dev_phase d = Running S0 a"
    by (rule demo_confirmed)
  from device_rollback_invariant [OF d(1)] d show ?thesis by auto
qed

text \<open>
  C9. An update goes through: a reachable device runs a confirmed image from storage that does not fail.
  A press of \<open>button1\<close>, of any length up to the fuse delay, is accepted, and the reset that follows
  boots: it starts the other slot, if the image there passes the checks, with the journal at
  \<open>Attempting\<close>; a second short press there is accepted and confirms it, with the old slot as its backup,
  and the reset after it starts the new image as confirmed. If the image does not pass, the first reset is back
  in the old slot, the application there is the backup, and the journal says \<open>Failed\<close>.
\<close>

theorem update_completes:
  assumes reach: "device_reachable crc g ptr (example_config crc non_secure evk buf) rom pops tick_hz d"
    and d: "dev_phase d = Running sl a" "is_confirmed a" "mock_reliable (inner (app_journal a))"
    and held: "held \<le> FUSE_DELAY tick_hz" "held' \<le> FUSE_DELAY tick_hz"
    and v: "verdicts (example_config crc non_secure evk buf) rom pops slots ready bootable" "ready h" "ready h'"
      "bootable sl"
  shows "\<exists>a1 a2 h2.
    button1_press crc (mock_ops g ptr) rom tick_hz held a (dev_hw d) = (Ok (), a1, dev_hw d) \<and>
    power_on crc g ptr (example_config crc non_secure evk buf) rom pops
      ((inner (app_journal a1))\<lparr>bytes_until_shutoff := None\<rparr>) slots h c =
        (Running (if bootable (other_slot a) then other_slot a else sl) a2, h2) \<and>
    (if bootable (other_slot a)
     then next_state crc (inner (app_journal a2)) = state_new crc Attempting (other_slot a) sl \<and>
       (\<exists>a3 a4 h4.
          button1_press crc (mock_ops g ptr) rom tick_hz held' a2 h2 = (Ok (), a3, h2) \<and>
          next_state crc (inner (app_journal a3)) = state_new crc Confirmed (other_slot a) sl \<and>
          power_on crc g ptr (example_config crc non_secure evk buf) rom pops
            ((inner (app_journal a3))\<lparr>bytes_until_shutoff := None\<rparr>) slots h' c' = (Running (other_slot a) a4, h4) \<and>
          is_confirmed a4)
     else is_backup a2 \<and> next_state crc (inner (app_journal a2)) = state_new crc Failed (other_slot a) sl)"
proof -
  let ?power_on = "power_on crc g ptr (example_config crc non_secure evk buf) rom pops"
    and ?press = "button1_press crc (mock_ops g ptr) rom tick_hz"
    and ?reset = "\<lambda>a. (inner (app_journal a))\<lparr>bytes_until_shutoff := None\<rparr>"
  have "running_inv crc g ptr (dev_vouched d) sl a"
    using device_reachable_inv [OF reach] d(1) by (simp add: device_inv_def)
  then have ok: "mock_journal_ok crc g ptr APP_JOURNAL_BUFFER_SIZE (app_journal a)" and sl: "app_slot a = sl"
    by (simp_all add: running_inv_def)
  obtain a1 where a1: "?press held a (dev_hw d) = (Ok (), a1, dev_hw d)"
      "mock_journal_ok crc g ptr APP_JOURNAL_BUFFER_SIZE (app_journal a1)"
      "next_state crc (inner (app_journal a1)) = state_new crc Initial (other_slot a) sl"
    by (rule press_reliable [OF ok d(3) held(1)]) (use d(2) sl in \<open>auto simp: app_new_state_def intro: that\<close>)
  define go where "go = bootable (other_slot a)"
  have abs: "abstract_boot bootable (next_state crc (inner (app_journal a1))) =
      (Started (if go then other_slot a else sl), if go then Attempting else Failed)"
    unfolding a1(3) using v(4) by (simp add: abstract_boot_def go_def)
  obtain a2 h2 where on: "?power_on (?reset a1) slots h c = (Running (if go then other_slot a else sl) a2, h2)"
    and a2: "app_wf a2" "app_state a2 = state_new crc (if go then Attempting else Failed) (other_slot a) sl"
      "mock_journal_ok crc g ptr APP_JOURNAL_BUFFER_SIZE (app_journal a2)"
      "next_state crc (inner (app_journal a2)) = app_state a2" "mock_reliable (inner (app_journal a2))"
    by (rule reset_reliable [OF a1(2) v(1,2) abs, where c = c]) (simp add: a1(3) with_status_def)
  have second: "\<exists>a3 a4 h4. ?press held' a2 h2 = (Ok (), a3, h2) \<and>
      next_state crc (inner (app_journal a3)) = state_new crc Confirmed (other_slot a) sl \<and>
      ?power_on (?reset a3) slots h' c' = (Running (other_slot a) a4, h4) \<and> is_confirmed a4" if go
  proof -
    have new: "app_new_state crc a2 = state_new crc Confirmed (other_slot a) sl"
      using a2(1,2) that by (auto simp: app_new_state_def app_wf_def app_role_def with_status_def)
    obtain a3 where a3: "?press held' a2 h2 = (Ok (), a3, h2)"
        "mock_journal_ok crc g ptr APP_JOURNAL_BUFFER_SIZE (app_journal a3)"
        "next_state crc (inner (app_journal a3)) = state_new crc Confirmed (other_slot a) sl"
      by (rule press_reliable [OF a2(3,5) held(2)]) (auto simp: new intro: that)
    have "abstract_boot bootable (next_state crc (inner (app_journal a3))) = (Started (other_slot a), Confirmed)"
      unfolding a3(3) using that by (simp add: abstract_boot_def go_def)
    then obtain a4 h4 where "?power_on (?reset a3) slots h' c' = (Running (other_slot a) a4, h4)" "app_wf a4"
        "app_state a4 = state_new crc Confirmed (other_slot a) sl"
      by (rule reset_reliable [OF a3(2) v(1,3), where c = c']) (simp add: a3(3) with_status_def)
    moreover from this(2,3) have "is_confirmed a4" by (auto simp: app_wf_def app_role_def)
    ultimately show ?thesis using a3 by blast
  qed
  have "is_backup a2" if "\<not> go" using a2(1,2) that by (auto simp: app_wf_def app_role_def)
  with a1(1) on second a2(2,4) show ?thesis
    unfolding go_def by (intro exI [of _ a1] exI [of _ a2] exI [of _ h2]) simp
qed

theorem update_completes_witness:
  "\<exists>(d :: unit device) a a1 a2 h2 a3 a4 h4. dev_phase d = Running S0 a \<and>
     button1_press crc8_opensafety (mock_ops tiny_geometry 0) demo_rom 1 1 a (dev_hw d) = (Ok (), a1, dev_hw d) \<and>
     power_on crc8_opensafety tiny_geometry 0 demo_example demo_rom slot_ops
       ((inner (app_journal a1))\<lparr>bytes_until_shutoff := None\<rparr>) [demo_image, demo_image] blank_hw demo_cpu =
         (Running S1 a2, h2) \<and>
     button1_press crc8_opensafety (mock_ops tiny_geometry 0) demo_rom 1 5 a2 h2 = (Ok (), a3, h2) \<and>
     next_state crc8_opensafety (inner (app_journal a3)) = state_new crc8_opensafety Confirmed S1 S0 \<and>
     power_on crc8_opensafety tiny_geometry 0 demo_example demo_rom slot_ops
       ((inner (app_journal a3))\<lparr>bytes_until_shutoff := None\<rparr>) [demo_image, demo_image] blank_hw demo_cpu =
         (Running S1 a4, h4) \<and>
     is_confirmed a4"
proof -
  obtain d a where d: "device_reachable crc8_opensafety tiny_geometry 0 demo_example demo_rom slot_ops 1 d"
      "dev_phase d = Running S0 a" "is_confirmed a" "mock_reliable (inner (app_journal a))"
    by (rule demo_confirmed)
  have "running_inv crc8_opensafety tiny_geometry 0 (dev_vouched d) S0 a"
    using device_reachable_inv [OF d(1)] d(2) by (simp add: device_inv_def)
  then have other: "other_slot a = S1" by (simp add: running_inv_def app_wf_def)
  have rest: "1 \<le> FUSE_DELAY 1" "5 \<le> FUSE_DELAY 1" "\<not> otp_initialized (blank_hw :: unit hw)" "S0 \<in> {S0, S1}"
    by (simp_all add: blank_hw_def FUSE_DELAY_def)
  have yes: "(S1 \<in> {S0, S1}) = True" by simp
  from update_completes [OF d rest(1,2) demo_verdicts rest(3,3,4), where c = demo_cpu and c' = demo_cpu] d(2)
  show ?thesis unfolding other yes if_True by blast
qed

end
