(* ===== verification/Cert_Block.thy ===== *)
theory Cert_Block
  imports Tool_Util Mbi_Header
begin

text \<open>
  \<open>bootloader-tool/src/processors/mbi/cert_block.rs\<close>: the certificate block of an image, as read back
  from the file that \<open>nxpimage\<close> wrote, and its consistency check. The cryptographic crates are not
  part of the repository: \<open>crypto\<close> is the dictionary of what the sources call of them (\<open>sha2\<close>,
  \<open>x509-parser\<close>, \<open>rsa\<close>, \<open>hmac\<close>, \<open>aes\<close>), with \<open>'c\<close> a parsed certificate and \<open>'k\<close> an RSA public
  key. The tool runs on a host: \<open>usize\<close> is \<open>nat\<close>, and sums of \<open>u32\<close> values wrap.
\<close>

datatype tool_error =
  CertPadding | CertAlgorithm | CertDer | CertLength nat | RkthMismatch | NoCertificates | KeyParse
| KeyNotRsa | RootNotInTable | RootNotCa | ChainNotCa | ChainVerify nat | SigningCertIsCa | SigningKeyParse
| SignatureLength | SignatureParse | SignatureVerify | OtpMissing | OtpHex hex_error | FileMissing string

record ('c, 'k) crypto =
  sha256_digest :: "u8 list \<Rightarrow> u8 list"
  hmac_sha256 :: "u8 list \<Rightarrow> u8 list \<Rightarrow> u8 list"
  aes256_encrypt :: "u8 list \<Rightarrow> u8 list \<Rightarrow> u8 list"
  x509_from_der :: "u8 list \<Rightarrow> ('c \<times> u8 list) option"
  x509_is_sha256_rsa :: "'c \<Rightarrow> bool"
  x509_is_ca :: "'c \<Rightarrow> bool"
  x509_key_parses :: "'c \<Rightarrow> bool"
  x509_rsa_key :: "'c \<Rightarrow> (u8 list \<times> u8 list) option"
  x509_verify :: "'c \<Rightarrow> 'c \<Rightarrow> bool"
  rsa_public_key :: "'c \<Rightarrow> 'k option"
  rsa_size :: "'k \<Rightarrow> nat"
  rsa_signature_parses :: "u8 list \<Rightarrow> bool"
  rsa_verify :: "'k \<Rightarrow> u8 list \<Rightarrow> u8 list \<Rightarrow> bool"

definition parse_x509_cert :: "('c, 'k) crypto \<Rightarrow> u8 list \<Rightarrow> ('c, tool_error) res" where
  "parse_x509_cert C bytes =
     (case x509_from_der C bytes of
        None \<Rightarrow> Err CertDer
      | Some (cert, rem) \<Rightarrow>
          if length rem \<ge> 4 then Err CertPadding
          else if \<not> x509_is_sha256_rsa C cert then Err CertAlgorithm
          else Ok cert)"

section \<open>Header fields\<close>

text \<open>\<open>CertBlock\<close> owns its bytes. A field is a slice of four of them; a short block panics.\<close>

datatype cert_block = CertBlock (cb_data: "u8 list")

definition field_u32 :: "nat \<Rightarrow> u8 list \<Rightarrow> (u32, tool_error) res" where
  "field_u32 a data = res_bind (unwrap (slice a (a + 4) data)) (\<lambda>bs. Ok (u32_from_le_bytes bs))"

definition cert_count :: "cert_block \<Rightarrow> (u32, tool_error) res" where
  "cert_count b = field_u32 0x18 (cb_data b)"

definition cert_table_len :: "cert_block \<Rightarrow> (u32, tool_error) res" where
  "cert_table_len b = field_u32 0x1c (cb_data b)"

definition header_len :: "cert_block \<Rightarrow> (u32, tool_error) res" where
  "header_len b = field_u32 0x08 (cb_data b)"

definition set_total_image_length_in_bytes :: "nat \<Rightarrow> cert_block \<Rightarrow> (cert_block, tool_error) res" where
  "set_total_image_length_in_bytes len b =
     (if \<not> len < 2 ^ 32 then Panic
      else if \<not> 0x18 \<le> length (cb_data b) then Panic
      else Ok (CertBlock (copy_from_slice 0x14 (u32_to_le_bytes (of_nat len)) (cb_data b))))"

text \<open>The end of the certificate table, where the four root key hashes start.\<close>

definition rkh_start :: "cert_block \<Rightarrow> (nat, tool_error) res" where
  "rkh_start b = res_bind (header_len b) (\<lambda>h. res_bind (cert_table_len b) (\<lambda>t. Ok (unat (h + t))))"

definition root_key_hashes :: "cert_block \<Rightarrow> (u8 list list, tool_error) res" where
  "root_key_hashes b =
     res_bind (rkh_start b) (\<lambda>start.
     res_bind (unwrap (slice_from start (cb_data b))) (\<lambda>data.
     if length data \<noteq> 4 * 32 then Panic else Ok (chunks_exact 32 data)))"

definition cert_block_rkth :: "('c, 'k) crypto \<Rightarrow> cert_block \<Rightarrow> (rkth, tool_error) res" where
  "cert_block_rkth C b = res_bind (root_key_hashes b) (\<lambda>rkhs. Ok (Rkth (sha256_digest C (concat rkhs))))"

section \<open>Certificates\<close>

fun certificates_loop :: "u8 list \<Rightarrow> nat \<Rightarrow> nat \<Rightarrow> nat \<Rightarrow> (nat \<times> u8 list list, tool_error) res" where
  "certificates_loop data 0 i next_cert = Ok (next_cert, [])"
| "certificates_loop data (Suc todo) i next_cert =
     res_bind (field_u32 next_cert data) (\<lambda>cert_len.
     let cert_len = unat cert_len in
     if cert_len mod 4 \<noteq> 0 then Err (CertLength i)
     else
       res_bind (unwrap (slice (next_cert + 4) (next_cert + 4 + cert_len) data)) (\<lambda>cert.
       res_bind (certificates_loop data todo (Suc i) (next_cert + 4 + cert_len)) (\<lambda>(next_cert, out).
       Ok (next_cert, cert # out))))"

definition certificates :: "cert_block \<Rightarrow> (u8 list list, tool_error) res" where
  "certificates b =
     res_bind (header_len b) (\<lambda>h.
     res_bind (cert_count b) (\<lambda>n.
     res_bind (certificates_loop (cb_data b) (unat n) 0 (unat h)) (\<lambda>(next_cert, out).
     res_bind (rkh_start b) (\<lambda>start.
     if next_cert \<noteq> start then Panic else Ok out))))"

text \<open>The loop over the rest of the chain; it returns the signing certificate.\<close>

fun walk_chain :: "('c, 'k) crypto \<Rightarrow> nat \<Rightarrow> 'c \<Rightarrow> u8 list list \<Rightarrow> ('c, tool_error) res" where
  "walk_chain C i signing_cert [] = Ok signing_cert"
| "walk_chain C i signing_cert (raw # rest) =
     (if \<not> x509_is_ca C signing_cert then Err ChainNotCa
      else
        res_bind (parse_x509_cert C raw) (\<lambda>cert.
        if \<not> x509_verify C cert signing_cert then Err (ChainVerify i)
        else walk_chain C (Suc i) cert rest))"

definition strip_zero :: "u8 list \<Rightarrow> u8 list" where
  "strip_zero modulus = (case modulus of b # rest \<Rightarrow> if b = 0 then rest else modulus | [] \<Rightarrow> modulus)"

definition verify :: "('c, 'k) crypto \<Rightarrow> rkth option \<Rightarrow> cert_block \<Rightarrow> (unit, tool_error) res" where
  "verify C expected b =
     res_bind (case expected of
                 Some r \<Rightarrow> res_bind (cert_block_rkth C b) (\<lambda>own. if own \<noteq> r then Err RkthMismatch else Ok ())
               | None \<Rightarrow> Ok ()) (\<lambda>_.
     res_bind (certificates b) (\<lambda>certs.
     case certs of
       [] \<Rightarrow> Err NoCertificates
     | raw_root_cert # rest \<Rightarrow>
         res_bind (parse_x509_cert C raw_root_cert) (\<lambda>root_cert.
         if \<not> x509_key_parses C root_cert then Err KeyParse
         else
           (case x509_rsa_key C root_cert of
              None \<Rightarrow> Err KeyNotRsa
            | Some (modulus, exponent) \<Rightarrow>
                let rkh = sha256_digest C (strip_zero modulus @ exponent) in
                res_bind (root_key_hashes b) (\<lambda>rkhs.
                if rkh \<notin> set rkhs then Err RootNotInTable
                else if \<not> x509_is_ca C root_cert then Err RootNotCa
                else
                  res_bind (walk_chain C 0 root_cert rest) (\<lambda>signing_cert.
                  if x509_is_ca C signing_cert \<and> length certs > 1 then Err SigningCertIsCa
                  else
                    (case rsa_public_key C signing_cert of
                       None \<Rightarrow> Err SigningKeyParse
                     | Some _ \<Rightarrow> Ok ())))))))"

text \<open>\<open>from_file\<close> on the bytes of the file; a file too short for its own lengths panics.\<close>

definition cert_block_from_bytes :: "('c, 'k) crypto \<Rightarrow> rkth option \<Rightarrow> u8 list \<Rightarrow> (cert_block, tool_error) res" where
  "cert_block_from_bytes C expected data =
     (let me = CertBlock data in
      res_bind (header_len me) (\<lambda>h.
      res_bind (cert_table_len me) (\<lambda>t.
      let cert_block_len = h + t + 4 * 32 in
      if \<not> length data \<ge> unat cert_block_len then Panic
      else
        (let me = CertBlock (take (unat cert_block_len) data) in
         res_bind (verify C expected me) (\<lambda>_. Ok me)))))"

definition verifying_key :: "('c, 'k) crypto \<Rightarrow> cert_block \<Rightarrow> ('k, tool_error) res" where
  "verifying_key C b =
     res_bind (unwrap (ok (certificates b))) (\<lambda>certs.
     if certs = [] then Panic
     else
       res_bind (unwrap (ok (parse_x509_cert C (last certs)))) (\<lambda>signing_cert.
       unwrap (rsa_public_key C signing_cert)))"

definition signature_len :: "('c, 'k) crypto \<Rightarrow> cert_block \<Rightarrow> (nat, tool_error) res" where
  "signature_len C b = res_bind (verifying_key C b) (\<lambda>k. Ok (rsa_size C k))"

section \<open>What a verified block guarantees\<close>

text \<open>The abstract chain: every certificate but the last is a CA and signed its successor.\<close>

fun chain_links :: "('c, 'k) crypto \<Rightarrow> 'c list \<Rightarrow> bool" where
  "chain_links C (c # d # rest) \<longleftrightarrow> x509_is_ca C c \<and> x509_verify C d c \<and> chain_links C (d # rest)"
| "chain_links C _ \<longleftrightarrow> True"

definition parsed_as :: "('c, 'k) crypto \<Rightarrow> u8 list list \<Rightarrow> 'c list \<Rightarrow> bool" where
  "parsed_as C raws certs \<longleftrightarrow> list_all2 (\<lambda>raw cert. parse_x509_cert C raw = Ok cert) raws certs"

lemma walk_chain_Ok:
  "walk_chain C i c raws = Ok c' \<Longrightarrow>
   \<exists>certs. parsed_as C raws certs \<and> chain_links C (c # certs) \<and> c' = last (c # certs)"
proof (induction raws arbitrary: i c)
  case Nil
  then show ?case by (simp add: parsed_as_def)
next
  case (Cons raw raws)
  then obtain d where d: "x509_is_ca C c" "parse_x509_cert C raw = Ok d" "x509_verify C d c"
      "walk_chain C (Suc i) d raws = Ok c'"
    by (auto simp: outcome_iffs split: if_splits)
  from Cons.IH [OF d(4)] obtain certs where
    "parsed_as C raws certs" "chain_links C (d # certs)" "c' = last (d # certs)" by blast
  with d show ?case by (intro exI [of _ "d # certs"]) (simp add: parsed_as_def)
qed

lemma parsed_as_last:
  "parsed_as C raws certs \<Longrightarrow> raws \<noteq> [] \<Longrightarrow> parse_x509_cert C (last raws) = Ok (last certs) \<and> certs \<noteq> []"
  unfolding parsed_as_def by (induction rule: list_all2_induct) auto

lemma verify_Ok:
  assumes "verify C expected b = Ok ()"
  obtains raws root certs k modulus exponent rkhs where
    "certificates b = Ok raws" "parsed_as C raws (root # certs)" "chain_links C (root # certs)"
    "x509_is_ca C root" "certs \<noteq> [] \<Longrightarrow> \<not> x509_is_ca C (last certs)"
    "x509_rsa_key C root = Some (modulus, exponent)" "root_key_hashes b = Ok rkhs"
    "sha256_digest C (strip_zero modulus @ exponent) \<in> set rkhs"
    "rsa_public_key C (last (root # certs)) = Some k"
    "\<And>r. expected = Some r \<Longrightarrow> cert_block_rkth C b = Ok r"
proof -
  from assms obtain raws where certs: "certificates b = Ok raws"
    and own: "\<And>r. expected = Some r \<Longrightarrow> cert_block_rkth C b = Ok r"
    by (auto simp: verify_def outcome_iffs split: option.splits if_splits)
  with assms obtain raw rest where raws: "raws = raw # rest"
    by (cases raws) (auto simp: verify_def outcome_iffs)
  from assms certs raws obtain root modulus exponent rkhs signer k where
    r: "parse_x509_cert C raw = Ok root" "x509_rsa_key C root = Some (modulus, exponent)"
      "root_key_hashes b = Ok rkhs" "sha256_digest C (strip_zero modulus @ exponent) \<in> set rkhs"
      "x509_is_ca C root" "walk_chain C 0 root rest = Ok signer"
      "\<not> (x509_is_ca C signer \<and> length raws > 1)" "rsa_public_key C signer = Some k"
    by (auto simp: verify_def outcome_iffs Let_def split: if_splits option.splits prod.splits)
  from walk_chain_Ok [OF r(6)] obtain certs where
    w: "parsed_as C rest certs" "chain_links C (root # certs)" "signer = last (root # certs)" by blast
  have len: "length rest = length certs" using w(1) by (auto simp: parsed_as_def dest: list_all2_lengthD)
  show thesis
  proof (rule that [OF certs _ w(2) r(5) _ r(2,3,4)])
    show "parsed_as C raws (root # certs)" using w(1) r(1) raws by (simp add: parsed_as_def)
    show "\<not> x509_is_ca C (last certs)" if "certs \<noteq> []" using that w(3) r(7) raws len by simp
    show "rsa_public_key C (last (root # certs)) = Some k" using r(8) w(3) by simp
    show "cert_block_rkth C b = Ok r" if "expected = Some r" for r using own that .
  qed
qed

lemma verify_verifying_key:
  assumes "verify C expected b = Ok ()"
  shows "\<exists>k. verifying_key C b = Ok k"
proof -
  from assms obtain raws root certs k where
    "certificates b = Ok raws" "parsed_as C raws (root # certs)" "rsa_public_key C (last (root # certs)) = Some k"
    by (rule verify_Ok) auto
  moreover from this(2) have "raws \<noteq> []" by (auto simp: parsed_as_def)
  ultimately show ?thesis
    using parsed_as_last [of C raws "root # certs"] by (auto simp: verifying_key_def)
qed

end
