(* ===== verification/Mbi_Image.thy ===== *)
theory Mbi_Image
  imports Cert_Block
begin

unbundle bit_operations_syntax

text \<open>
  \<open>bootloader-tool/src/processors/mbi/mod.rs\<close>: building, checking and signing a master boot image. The
  file operations work on \<open>fs\<close>, a map from paths to contents, so that the steps that hand their
  results to each other through files can be composed; a missing file is the only input error. The
  private key and its signature function are a parameter.
\<close>

section \<open>Image header\<close>

datatype image_kind = Plain | PlainSigned | PlainWithCrc | EncryptedSigned | XipPlainSigned | XipPlainWithCrc

fun image_kind_as_u32 :: "image_kind \<Rightarrow> u32" where
  "image_kind_as_u32 Plain = 0"
| "image_kind_as_u32 PlainSigned = 1"
| "image_kind_as_u32 PlainWithCrc = 2"
| "image_kind_as_u32 EncryptedSigned = 3"
| "image_kind_as_u32 XipPlainSigned = 4"
| "image_kind_as_u32 XipPlainWithCrc = 5"

definition image_kind_from_u8 :: "u8 \<Rightarrow> image_kind option" where
  "image_kind_from_u8 v =
     (if v = 0 then Some Plain
      else if v = 1 then Some PlainSigned
      else if v = 2 then Some PlainWithCrc
      else if v = 3 then Some EncryptedSigned
      else if v = 4 then Some XipPlainSigned
      else if v = 5 then Some XipPlainWithCrc
      else None)"

fun has_hmac :: "image_kind \<Rightarrow> bool" where
  "has_hmac PlainSigned = True"
| "has_hmac EncryptedSigned = True"
| "has_hmac _ = False"

datatype trust_zone = TzEnabled | TzDisabled

datatype trust_zone_preset = NotIncluded | Included

fun trust_zone_as_u32 :: "trust_zone \<Rightarrow> u32" where
  "trust_zone_as_u32 TzEnabled = 0"
| "trust_zone_as_u32 TzDisabled = 1"

fun trust_zone_preset_as_u32 :: "trust_zone_preset \<Rightarrow> u32" where
  "trust_zone_preset_as_u32 NotIncluded = 0"
| "trust_zone_preset_as_u32 Included = 1"

record image_type_bits =
  key_store_included :: bool
  tz_m_image_type :: trust_zone
  tz_m_preset :: trust_zone_preset
  enable_hw_user_mode_keys :: bool
  type_image_kind :: image_kind

definition image_type_new :: "image_kind \<Rightarrow> image_type_bits" where
  "image_type_new kind =
     \<lparr>key_store_included = False, tz_m_image_type = TzEnabled, tz_m_preset = NotIncluded,
      enable_hw_user_mode_keys = False, type_image_kind = kind\<rparr>"

definition image_type_as_u32 :: "image_type_bits \<Rightarrow> u32" where
  "image_type_as_u32 t =
     (let out = 0;
          out = out OR push_bit 15 (of_bool (key_store_included t) AND 1);
          out = out OR push_bit 14 (trust_zone_as_u32 (tz_m_image_type t) AND 1);
          out = out OR push_bit 13 (trust_zone_preset_as_u32 (tz_m_preset t) AND 1);
          out = out OR push_bit 12 (of_bool (enable_hw_user_mode_keys t) AND 1)
      in out OR image_kind_as_u32 (type_image_kind t))"

datatype image_header = ImageHeader (header_raw: "u8 list")

definition image_header_new :: "u8 list \<Rightarrow> image_type_bits \<Rightarrow> u32 \<Rightarrow> u32 \<Rightarrow> (image_header, tool_error) res" where
  "image_header_new ivt type offset load_addr =
     (if length ivt \<noteq> 0x40 then Panic
      else
        (let ivt = copy_from_slice 0x24 (u32_to_le_bytes (image_type_as_u32 type)) ivt;
             ivt = copy_from_slice 0x28 (u32_to_le_bytes offset) ivt;
             ivt = copy_from_slice 0x34 (u32_to_le_bytes load_addr) ivt
         in Ok (ImageHeader ivt)))"

definition set_image_length :: "nat \<Rightarrow> image_header \<Rightarrow> (image_header, tool_error) res" where
  "set_image_length len hdr =
     (if \<not> len < 2 ^ 32 then Panic
      else Ok (ImageHeader (copy_from_slice 0x20 (u32_to_le_bytes (of_nat len)) (header_raw hdr))))"

definition header_image_kind :: "image_header \<Rightarrow> (image_kind, tool_error) res" where
  "header_image_kind hdr = unwrap (image_kind_from_u8 (header_raw hdr ! 0x24))"

section \<open>Image\<close>

record image =
  img_header :: image_header
  img_data :: "u8 list"
  img_cert_block :: cert_block

definition DATA_ALIGN :: nat where
  "DATA_ALIGN = 4"

function pad_data :: "u8 list \<Rightarrow> u8 list" where
  "pad_data data = (if length data mod DATA_ALIGN \<noteq> 0 then pad_data (data @ [0]) else data)"
  by pat_completeness auto
termination
proof (relation "measure (\<lambda>data. (4 - length data mod 4) mod 4)")
  fix data :: "u8 list"
  assume "length data mod DATA_ALIGN \<noteq> 0"
  then have "length data mod 4 \<noteq> 0" by (simp add: DATA_ALIGN_def)
  then have "length data mod 4 = 1 \<or> length data mod 4 = 2 \<or> length data mod 4 = 3" by linarith
  then have "(4 - Suc (length data) mod 4) mod 4 < (4 - length data mod 4) mod 4"
    by (auto simp: mod_Suc)
  then show "(data @ [0], data) \<in> measure (\<lambda>data. (4 - length data mod 4) mod 4)" by simp
qed simp

declare pad_data.simps [simp del]

definition image_new ::
    "('c, 'k) crypto \<Rightarrow> u8 list \<Rightarrow> u32 \<Rightarrow> image_type_bits \<Rightarrow> cert_block \<Rightarrow> (image, tool_error) res" where
  "image_new C img base_addr type cb =
     (if length img < 0x40 then Panic
      else
        (let ivt = take 0x40 img;
             data = pad_data (drop 0x40 img);
             image_length = length ivt + length data
         in res_bind (image_header_new ivt type (of_nat image_length) base_addr) (\<lambda>hdr.
            let signed_len = image_length + length (cb_data cb) in
            res_bind (set_total_image_length_in_bytes signed_len cb) (\<lambda>cb.
            let hmac_len = (if has_hmac (type_image_kind type) then 32 else 0) in
            res_bind (signature_len C cb) (\<lambda>sig_len.
            res_bind (set_image_length (signed_len + hmac_len + sig_len) hdr) (\<lambda>hdr.
            Ok \<lparr>img_header = hdr, img_data = data, img_cert_block = cb\<rparr>))))))"

definition image_hmac :: "('c, 'k) crypto \<Rightarrow> otp \<Rightarrow> image \<Rightarrow> u8 list" where
  "image_hmac C k img = hmac_sha256 C (hmac_key (aes256_encrypt C) k) (header_raw (img_header img))"

definition sign_me :: "image \<Rightarrow> u8 list" where
  "sign_me img = header_raw (img_header img) @ img_data img @ cb_data (img_cert_block img)"

definition image_check :: "('c, 'k) crypto \<Rightarrow> u8 list \<Rightarrow> rkth \<Rightarrow> image \<Rightarrow> (unit, tool_error) res" where
  "image_check C sig expected img =
     res_bind (signature_len C (img_cert_block img)) (\<lambda>sig_len.
     if length sig \<noteq> sig_len then Err SignatureLength
     else
       res_bind (cert_block_rkth C (img_cert_block img)) (\<lambda>own.
       if own \<noteq> expected then Err RkthMismatch
       else if \<not> rsa_signature_parses C sig then Err SignatureParse
       else
         res_bind (verifying_key C (img_cert_block img)) (\<lambda>key.
         if \<not> rsa_verify C key (sign_me img) sig then Err SignatureVerify else Ok ())))"

definition image_merge :: "('c, 'k) crypto \<Rightarrow> u8 list \<Rightarrow> otp option \<Rightarrow> image \<Rightarrow> (u8 list, tool_error) res" where
  "image_merge C sig k img =
     res_bind (cert_block_rkth C (img_cert_block img)) (\<lambda>own.
     res_bind (image_check C sig own img) (\<lambda>_.
     let out = header_raw (img_header img) in
     res_bind (header_image_kind (img_header img)) (\<lambda>kind.
     res_bind (if has_hmac kind then res_bind (ok_or OtpMissing k) (\<lambda>k. Ok (out @ image_hmac C k img)) else Ok out) (\<lambda>out.
     Ok (out @ img_data img @ cb_data (img_cert_block img) @ sig)))))"

section \<open>Files\<close>

type_synonym fs = "string \<Rightarrow> u8 list option"

definition fs_read :: "string \<Rightarrow> fs \<Rightarrow> (u8 list, tool_error) res" where
  "fs_read path fs = ok_or (FileMissing path) (fs path)"

definition tool_load_image ::
    "('c, 'k) crypto \<Rightarrow> string \<Rightarrow> u32 \<Rightarrow> bool \<Rightarrow> cert_block \<Rightarrow> fs \<Rightarrow> (image, tool_error) res" where
  "tool_load_image C input_path base_addr is_bootloader cb fs =
     res_bind (fs_read input_path fs) (\<lambda>plain_image.
     let kind = (if is_bootloader then XipPlainSigned else XipPlainSigned) in
     image_new C plain_image base_addr (image_type_new kind) cb)"

definition prepare_to_sign ::
    "('c, 'k) crypto \<Rightarrow> string \<Rightarrow> u32 \<Rightarrow> string \<Rightarrow> bool \<Rightarrow> cert_block \<Rightarrow> fs \<Rightarrow> (unit, tool_error) res \<times> fs" where
  "prepare_to_sign C input_path base_addr output_path is_bootloader cb fs =
     and_then (tool_load_image C input_path base_addr is_bootloader cb fs, fs) (\<lambda>img fs.
     (Ok (), fs(output_path \<mapsto> sign_me img)))"

definition merge_with_signature ::
    "('c, 'k) crypto \<Rightarrow> string \<Rightarrow> u32 \<Rightarrow> string \<Rightarrow> string \<Rightarrow> bool \<Rightarrow> otp option \<Rightarrow> cert_block \<Rightarrow> fs \<Rightarrow>
     (unit, tool_error) res \<times> fs" where
  "merge_with_signature C input_path base_addr signature_path output_path is_bootloader k cb fs =
     and_then (tool_load_image C input_path base_addr is_bootloader cb fs, fs) (\<lambda>img fs.
     and_then (fs_read signature_path fs, fs) (\<lambda>sig fs.
     and_then (image_merge C sig k img, fs) (\<lambda>out fs.
     (Ok (), fs(output_path \<mapsto> out)))))"

text \<open>\<open>sign\<close>; \<open>rsa_sign\<close> parses the key file and signs.\<close>

definition sign ::
    "(u8 list \<Rightarrow> (u8 list \<Rightarrow> u8 list) option) \<Rightarrow> string \<Rightarrow> string \<Rightarrow> string \<Rightarrow> fs \<Rightarrow> (unit, tool_error) res \<times> fs" where
  "sign rsa_sign signature_path prepared_path private_key_path fs =
     and_then (fs_read private_key_path fs, fs) (\<lambda>pem fs.
     and_then (ok_or KeyParse (rsa_sign pem), fs) (\<lambda>signing_key fs.
     and_then (fs_read prepared_path fs, fs) (\<lambda>signing_body fs.
     (Ok (), fs(signature_path \<mapsto> signing_key signing_body)))))"

text \<open>
  \<open>PathBuf::set_extension\<close> for a path that names a file: what follows the last dot of the file name,
  if that dot is not its first character, is replaced.
\<close>

definition file_name :: "string \<Rightarrow> string" where
  "file_name path = rev (takeWhile (\<lambda>c. c \<noteq> CHR ''/'') (rev path))"

definition file_stem :: "string \<Rightarrow> string" where
  "file_stem name =
     (let ext = rev (takeWhile (\<lambda>c. c \<noteq> CHR ''.'') (rev name)) in
      if CHR ''.'' \<in> set name \<and> Suc (length ext) < length name
      then take (length name - Suc (length ext)) name else name)"

definition set_extension :: "string \<Rightarrow> string \<Rightarrow> string" where
  "set_extension ext path =
     (let name = file_name path in
      if name = [] \<or> name = ''..'' then path
      else take (length path - length name) path @ file_stem name @ (if ext = [] then [] else CHR ''.'' # ext))"

definition generate_pure ::
    "('c, 'k) crypto \<Rightarrow> (u8 list \<Rightarrow> (u8 list \<Rightarrow> u8 list) option) \<Rightarrow>
     string \<Rightarrow> u32 \<Rightarrow> string \<Rightarrow> bool \<Rightarrow> otp option \<Rightarrow> cert_block \<Rightarrow> string \<Rightarrow> fs \<Rightarrow> (unit, tool_error) res \<times> fs" where
  "generate_pure C rsa_sign input_path base_addr output_path is_bootloader k cb private_key_path fs =
     (let prepared_path = set_extension ''.prepared.bin'' output_path in
      and_then (prepare_to_sign C input_path base_addr prepared_path is_bootloader cb fs) (\<lambda>_ fs.
      let signature_path = set_extension ''.signature.bin'' output_path in
      and_then (sign rsa_sign signature_path prepared_path private_key_path fs) (\<lambda>_ fs.
      merge_with_signature C input_path base_addr signature_path output_path is_bootloader k cb fs)))"

section \<open>Layout\<close>

lemma u32_at_copy_same:
  "a + 4 \<le> length xs \<Longrightarrow> u32_at a (copy_from_slice a (u32_to_le_bytes w) xs) = w"
  by (simp add: u32_at_def copy_from_slice_def min_def)

lemma u32_at_copy_other:
  assumes "a + 4 \<le> length xs" and "b + 4 \<le> length xs" and "a + 4 \<le> b \<or> b + 4 \<le> a"
  shows "u32_at a (copy_from_slice b (u32_to_le_bytes w) xs) = u32_at a xs"
proof -
  have "take 4 (drop a (copy_from_slice b (u32_to_le_bytes w) xs)) = take 4 (drop a xs)"
    by (rule nth_equalityI) (use assms in \<open>auto simp: nth_copy_from_slice\<close>)
  then show ?thesis by (simp add: u32_at_def)
qed

lemma drop_copy_from_slice:
  assumes "a + length ys \<le> n" and "n \<le> length xs"
  shows "drop n (copy_from_slice a ys xs) = drop n xs"
  by (rule nth_equalityI) (use assms in \<open>auto simp: nth_copy_from_slice\<close>)

lemma image_type_XipPlainSigned: "image_type_as_u32 (image_type_new XipPlainSigned) = 4"
  by (simp add: image_type_as_u32_def image_type_new_def)

lemma pad_data_eq: "\<exists>n < 4. pad_data data = data @ replicate n 0 \<and> length (pad_data data) mod 4 = 0"
proof (induction data rule: pad_data.induct)
  case (1 data)
  show ?case
  proof (cases "length data mod 4 = 0")
    case True
    then show ?thesis by (auto simp: pad_data.simps [of data] DATA_ALIGN_def intro: exI [of _ 0])
  next
    case False
    with 1 obtain n where n: "n < 4" "pad_data (data @ [0]) = (data @ [0]) @ replicate n 0"
        "length (pad_data (data @ [0])) mod 4 = 0"
      by (auto simp: DATA_ALIGN_def)
    have eq: "pad_data data = pad_data (data @ [0])"
      using False by (simp add: pad_data.simps [of data] DATA_ALIGN_def)
    have "Suc n < 4"
    proof (rule ccontr)
      assume "\<not> Suc n < 4"
      with n(1) have "n = 3" by simp
      with n(2,3) have "(length data + 4) mod 4 = 0" by simp
      with False show False by simp
    qed
    with n eq show ?thesis by (intro exI [of _ "Suc n"]) simp
  qed
qed

lemma image_header_fields:
  assumes "length ivt = 0x40" and "image_header_new ivt type offset load_addr = Ok hdr0"
    and "set_image_length len hdr0 = Ok hdr"
  shows "length (header_raw hdr) = 0x40" and "len < 2 ^ 32"
    and "u32_at 0x20 (header_raw hdr) = of_nat len"
    and "u32_at 0x24 (header_raw hdr) = image_type_as_u32 type"
    and "u32_at 0x28 (header_raw hdr) = offset"
    and "u32_at 0x34 (header_raw hdr) = load_addr"
  using assms
  by (auto simp: image_header_new_def set_image_length_def Let_def u32_at_copy_same u32_at_copy_other
      split: if_splits)

lemma image_new_Ok:
  assumes "image_new C img base_addr type cb = Ok im"
  obtains sig_len where
    "0x40 \<le> length img" "img_data im = pad_data (drop 0x40 img)"
    "length (header_raw (img_header im)) = 0x40"
    "0x18 \<le> length (cb_data cb)"
    "cb_data (img_cert_block im) =
       copy_from_slice 0x14 (u32_to_le_bytes (of_nat (0x40 + length (img_data im) + length (cb_data cb)))) (cb_data cb)"
    "signature_len C (img_cert_block im) = Ok sig_len"
    "length (sign_me im) + (if has_hmac (type_image_kind type) then 32 else 0) + sig_len < 2 ^ 32"
    "u32_at 0x20 (header_raw (img_header im)) =
       of_nat (length (sign_me im) + (if has_hmac (type_image_kind type) then 32 else 0) + sig_len)"
    "u32_at 0x24 (header_raw (img_header im)) = image_type_as_u32 type"
    "u32_at 0x28 (header_raw (img_header im)) = of_nat (0x40 + length (img_data im))"
    "u32_at 0x34 (header_raw (img_header im)) = base_addr"
proof -
  let ?ivt = "take 0x40 img" and ?data = "pad_data (drop 0x40 img)"
  let ?hm = "if has_hmac (type_image_kind type) then 32 else 0 :: nat"
  let ?signed = "length ?ivt + length ?data + length (cb_data cb)"
  from assms have img: "0x40 \<le> length img" by (auto simp: image_new_def split: if_splits)
  then have ivt: "length ?ivt = 0x40" by simp
  from assms img obtain hdr0 cb' sig_len hdr where
    h: "image_header_new ?ivt type (of_nat (length ?ivt + length ?data)) base_addr = Ok hdr0"
      "set_total_image_length_in_bytes ?signed cb = Ok cb'" "signature_len C cb' = Ok sig_len"
      "set_image_length (?signed + ?hm + sig_len) hdr0 = Ok hdr"
      "im = \<lparr>img_header = hdr, img_data = ?data, img_cert_block = cb'\<rparr>"
    by (auto simp: image_new_def Let_def outcome_iffs)
  from h(2) have cb: "0x18 \<le> length (cb_data cb)"
    "cb_data cb' = copy_from_slice 0x14 (u32_to_le_bytes (of_nat ?signed)) (cb_data cb)"
    by (auto simp: set_total_image_length_in_bytes_def split: if_splits)
  note f = image_header_fields [OF ivt h(1,4)]
  have len: "length (sign_me im) = ?signed" using f(1) cb ivt by (simp add: sign_me_def h(5))
  show thesis
    by (rule that [of sig_len]) (use img cb h(3) f ivt len in \<open>simp_all add: h(5)\<close>)
qed

end
