(* ===== verification/Tool_Boot.thy ===== *)
theory Tool_Boot
  imports Mbi_Image Demo_Device
begin

text \<open>
  The tool and the bootloader agree: an image that \<open>bootloader-tool\<close> builds and signs is one whose
  headers the bootloader reads as the tool wrote them, and whose root key table hashes to the value
  the tool computed.
\<close>

lemma field_u32_Ok [outcome_iffs]: "field_u32 a data = Ok w \<longleftrightarrow> a + 4 \<le> length data \<and> w = u32_at a data"
  by (auto simp: field_u32_def u32_at_def slice_def outcome_iffs)

lemma header_fields_set_total:
  assumes "0x20 \<le> length xs" and "a \<in> {0x08, 0x18, 0x1c}"
  shows "u32_at a (copy_from_slice 0x14 (u32_to_le_bytes w) xs) = u32_at a xs"
  using assms by (auto simp: u32_at_copy_other)

lemma rkh_start_Ok:
  "rkh_start b = Ok n \<longleftrightarrow> 0x20 \<le> length (cb_data b) \<and> n = unat (u32_at 0x08 (cb_data b) + u32_at 0x1c (cb_data b))"
  by (auto simp: rkh_start_def header_len_def cert_table_len_def outcome_iffs)

lemma root_key_hashes_Ok:
  "root_key_hashes b = Ok rkhs \<longleftrightarrow>
     (\<exists>n. rkh_start b = Ok n \<and> length (cb_data b) = n + 128 \<and> rkhs = chunks_exact 32 (drop n (cb_data b)))"
  by (cases "rkh_start b") (auto simp: root_key_hashes_def slice_from_def)

text \<open>Recording the total length leaves the table of root key hashes alone.\<close>

lemma set_total_keeps_hashes:
  assumes "root_key_hashes cb = Ok rkhs" and "rkh_start cb = Ok n" and "0x18 \<le> n"
    and "cb_data cb' = copy_from_slice 0x14 (u32_to_le_bytes w) (cb_data cb)"
  shows "root_key_hashes cb' = Ok rkhs" and "rkh_start cb' = Ok n" and "length (cb_data cb') = n + 128"
proof -
  from assms(1,2) have len: "length (cb_data cb) = n + 128" "0x20 \<le> length (cb_data cb)"
    and r: "rkhs = chunks_exact 32 (drop n (cb_data cb))"
    by (auto simp: root_key_hashes_Ok rkh_start_Ok)
  show len': "length (cb_data cb') = n + 128" using len assms(4) by simp
  show start: "rkh_start cb' = Ok n"
    using assms(2,4) len by (simp add: rkh_start_Ok header_fields_set_total)
  have "drop n (cb_data cb') = drop n (cb_data cb)"
    using assms(3,4) len by (simp add: drop_copy_from_slice)
  with start len' r show "root_key_hashes cb' = Ok rkhs" by (simp add: root_key_hashes_Ok)
qed

lemma chunks_exact_128:
  assumes "length xs = 128"
  shows "read_all_from_slice (xs @ ys) = Some (chunks_exact 32 xs)"
proof -
  have "chunks_exact 32 xs = [take 32 xs, take 32 (drop 32 xs), take 32 (drop 64 xs), take 32 (drop 96 xs)]"
    using assms by (simp add: chunks_exact.simps)
  with assms show ?thesis by (simp add: read_all_from_slice_def)
qed

lemma image_merge_Ok:
  assumes "image_merge C sig k im = Ok out" and "header_image_kind (img_header im) = Ok kind" and "\<not> has_hmac kind"
  shows "out = sign_me im @ sig \<and> (\<exists>key. verifying_key C (img_cert_block im) = Ok key \<and>
    length sig = rsa_size C key \<and> rsa_verify C key (sign_me im) sig)"
  using assms
  by (auto simp: image_merge_def image_check_def signature_len_def sign_me_def outcome_iffs Let_def split: if_splits)

lemma header_kind_XipPlainSigned:
  assumes "u32_at 0x24 hdr = 4" and "length hdr = 0x40"
  shows "header_image_kind (ImageHeader hdr) = Ok XipPlainSigned"
proof -
  have "u32_to_le_bytes (u32_at 0x24 hdr) = take 4 (drop 0x24 hdr)"
    unfolding u32_at_def by (rule u32_to_from_le_bytes_length) (use assms(2) in simp)
  then have "take 4 (drop 0x24 hdr) = [4, 0, 0, 0]" using assms(1) by (simp add: u32_to_le_bytes_def)
  then have "take 4 (drop 0x24 hdr) ! 0 = 4" by simp
  then have "hdr ! 0x24 = 4" using assms(2) by simp
  then show ?thesis by (simp add: header_image_kind_def image_kind_from_u8_def)
qed

section \<open>Reading a signed image\<close>

lemma signed_image_ivt:
  assumes new: "image_new C plain base_addr (image_type_new XipPlainSigned) cb = Ok im"
    and merge: "image_merge C sig k im = Ok out"
  shows "out = sign_me im @ sig \<and> length out < 2 ^ 32 \<and>
    ivt_read_from_slice out = Ok \<lparr>image_len = of_nat (length out), image_type = IMAGE_TYPE_TZ_XIP_SIGNED,
      header_offset = of_nat (0x40 + length (img_data im)), target_ptr = base_addr\<rparr>"
proof -
  let ?hdr = "header_raw (img_header im)"
  from new obtain sig_len where f: "length ?hdr = 0x40" "signature_len C (img_cert_block im) = Ok sig_len"
      "length (sign_me im) + sig_len < 2 ^ 32" "u32_at 0x20 ?hdr = of_nat (length (sign_me im) + sig_len)"
      "u32_at 0x24 ?hdr = 4" "u32_at 0x28 ?hdr = of_nat (0x40 + length (img_data im))" "u32_at 0x34 ?hdr = base_addr"
    by (rule image_new_Ok) (simp add: image_type_XipPlainSigned, simp add: image_type_new_def)
  have "header_image_kind (img_header im) = Ok XipPlainSigned"
    using header_kind_XipPlainSigned [OF f(5,1)] by simp
  from image_merge_Ok [OF merge this] f(2) have out: "out = sign_me im @ sig" "length sig = sig_len"
    by (auto simp: signature_len_def outcome_iffs)
  have "u32_at a out = u32_at a ?hdr" if "a + 4 \<le> 0x40" for a
    using that f(1) by (simp add: out sign_me_def u32_at_append_left)
  with f out show ?thesis
    by (simp add: ivt_read_from_slice_def IMAGE_TYPE_TZ_XIP_SIGNED_def) (simp add: sign_me_def)
qed

lemma image_rkth_layout:
  assumes ram: "ram_slice (target_ptr i) (image_len i) h = front @ cb_data cb @ sig"
    and off: "header_offset i = of_nat (length front)" and small: "length (front @ cb_data cb @ sig) < 2 ^ 32"
    and rkhs: "root_key_hashes cb = Ok rkhs"
  shows "image_rkth rom i h = to_rkth rom rkhs h"
proof -
  from rkhs obtain n where n: "rkh_start cb = Ok n" "length (cb_data cb) = n + 128"
      "rkhs = chunks_exact 32 (drop n (cb_data cb))"
    by (auto simp: root_key_hashes_Ok)
  then have nw: "n = unat (u32_at 0x08 (cb_data cb) + u32_at 0x1c (cb_data cb))" by (simp add: rkh_start_Ok)
  have uoff: "unat (header_offset i) = length front" using off small by simp
  have hdr: "\<exists>hd. cert_header_read_from_slice (cb_data cb @ sig) = Some hd \<and>
      header_length hd = u32_at 0x08 (cb_data cb) \<and> certificate_table_length hd = u32_at 0x1c (cb_data cb)"
    using n(2) by (simp add: cert_header_read_from_slice_def cert_header_size_def u32_at_append_left)
  have sum: "unat (header_offset i + (u32_at 0x08 (cb_data cb) + u32_at 0x1c (cb_data cb))) = length front + n"
    using uoff nw n(2) small by (simp add: unat_word_ariths(1) take_bit_nat_eq_self)
  have rest: "drop (length front + n) (front @ cb_data cb @ sig) = drop n (cb_data cb) @ sig" using n(2) by simp
  have "read_all_from_slice (drop n (cb_data cb) @ sig) = Some rkhs"
    unfolding n(3) by (rule chunks_exact_128) (use n(2) in simp)
  with ram uoff hdr sum rest n(2) show ?thesis
    by (auto simp: image_rkth_def slice_from_def Let_def add.assoc)
qed

lemma signed_image_rkth:
  assumes new: "image_new C plain base_addr (image_type_new XipPlainSigned) cb = Ok im"
    and merge: "image_merge C sig k im = Ok out"
    and table: "root_key_hashes cb = Ok rkhs" "rkh_start cb = Ok n" "0x18 \<le> n"
    and i: "ivt_read_from_slice out = Ok i" and ram: "ram_slice (target_ptr i) (image_len i) h = out"
  shows "image_rkth rom i h = to_rkth rom rkhs h"
proof -
  note out = signed_image_ivt [OF new merge]
  have offset: "header_offset i = of_nat (0x40 + length (img_data im))" using out i by auto
  from new obtain w where hdr: "length (header_raw (img_header im)) = 0x40"
    and cb: "cb_data (img_cert_block im) = copy_from_slice 0x14 (u32_to_le_bytes w) (cb_data cb)"
    by (rule image_new_Ok) auto
  show ?thesis
  proof (rule image_rkth_layout)
    show "ram_slice (target_ptr i) (image_len i) h =
        (header_raw (img_header im) @ img_data im) @ cb_data (img_cert_block im) @ sig"
      using ram out by (simp add: sign_me_def)
    show "header_offset i = of_nat (length (header_raw (img_header im) @ img_data im))"
      using offset hdr by simp
    show "length ((header_raw (img_header im) @ img_data im) @ cb_data (img_cert_block im) @ sig) < 2 ^ 32"
      using out by (auto simp: sign_me_def)
    show "root_key_hashes (img_cert_block im) = Ok rkhs"
      using set_total_keeps_hashes(1) [OF table cb] .
  qed
qed

section \<open>A small signed image\<close>

text \<open>
  For the witnesses: a certificate block with one (empty) certificate, a cipher suite that accepts one
  signature, and a program of 65 bytes, which the tool pads.
\<close>

definition demo_crypto :: "(unit, unit) crypto" where
  "demo_crypto =
     \<lparr>sha256_digest = (\<lambda>_. replicate 32 0), hmac_sha256 = (\<lambda>_ _. replicate 32 0), aes256_encrypt = (\<lambda>_ b. b),
      x509_from_der = (\<lambda>_. Some ((), [])), x509_is_sha256_rsa = (\<lambda>_. True), x509_is_ca = (\<lambda>_. True),
      x509_key_parses = (\<lambda>_. True), x509_rsa_key = (\<lambda>_. Some ([0, 1], [3])), x509_verify = (\<lambda>_ _. True),
      rsa_public_key = (\<lambda>_. Some ()), rsa_size = (\<lambda>_. 4), rsa_signature_parses = (\<lambda>_. True),
      rsa_verify = (\<lambda>_ body sig. sig = [1, 2, 3, 4])\<rparr>"

definition demo_block :: "u32 \<Rightarrow> cert_block" where
  "demo_block tot =
     CertBlock (replicate 8 0 @ u32_to_le_bytes 32 @ replicate 8 0 @ u32_to_le_bytes tot @
       u32_to_le_bytes 1 @ u32_to_le_bytes 8 @ u32_to_le_bytes 4 @ replicate 4 0 @ replicate 128 0)"

lemma length_demo_block [simp]: "length (cb_data (demo_block w)) = 168"
  by (simp add: demo_block_def)

lemma demo_block_fields:
  "u32_at 0x08 (cb_data (demo_block w)) = 32" "u32_at 0x18 (cb_data (demo_block w)) = 1"
  "u32_at 0x1c (cb_data (demo_block w)) = 8" "u32_at 0x20 (cb_data (demo_block w)) = 4"
  by (simp_all add: demo_block_def u32_at_def)

lemma demo_block_set_total: "len < 2 ^ 32 \<Longrightarrow> set_total_image_length_in_bytes len (demo_block w) = Ok (demo_block (of_nat len))"
  by (simp add: set_total_image_length_in_bytes_def) (simp add: demo_block_def copy_from_slice_def)

lemma demo_block_rkh_start: "rkh_start (demo_block w) = Ok 40"
  by (simp add: rkh_start_Ok demo_block_fields)

lemma demo_block_hashes: "root_key_hashes (demo_block w) = Ok (chunks_exact 32 (replicate 128 0))"
  by (simp add: root_key_hashes_Ok demo_block_rkh_start) (simp add: demo_block_def)

lemma demo_block_key: "verifying_key demo_crypto (demo_block w) = Ok ()"
proof -
  have "field_u32 32 (cb_data (demo_block w)) = Ok 4" "header_len (demo_block w) = Ok 32" "cert_count (demo_block w) = Ok 1"
    by (simp_all add: header_len_def cert_count_def field_u32_Ok demo_block_fields)
  then have "\<exists>cert. certificates (demo_block w) = Ok [cert]"
    by (simp add: certificates_def demo_block_rkh_start slice_def Let_def)
  then show ?thesis
    by (auto simp: verifying_key_def parse_x509_cert_def demo_crypto_def)
qed

lemma demo_pad: "pad_data [0] = [0, 0, 0, 0]"
  by (simp add: pad_data.simps DATA_ALIGN_def)

lemma demo_signed:
  "\<exists>im out. image_new demo_crypto (replicate 65 0) 0x10020000 (image_type_new XipPlainSigned) (demo_block 0) = Ok im \<and>
    (\<forall>k. image_merge demo_crypto [1, 2, 3, 4] k im = Ok out) \<and> length out = 240"
proof -
  have key: "signature_len demo_crypto (demo_block w) = Ok 4" for w
    by (simp add: signature_len_def demo_block_key) (simp add: demo_crypto_def)
  have drop65: "drop 64 (replicate 65 (0 :: u8)) = [0]" by (simp add: drop_replicate)
  have "\<exists>im. image_new demo_crypto (replicate 65 0) 0x10020000 (image_type_new XipPlainSigned) (demo_block 0) = Ok im \<and>
      img_cert_block im = demo_block 236"
    by (simp add: image_new_def image_header_new_def set_image_length_def drop65 demo_pad demo_block_set_total key
        image_type_new_def)
  then obtain im where
    new: "image_new demo_crypto (replicate 65 0) 0x10020000 (image_type_new XipPlainSigned) (demo_block 0) = Ok im"
    and cb: "img_cert_block im = demo_block 236"
    by blast
  from new have hdr: "length (header_raw (img_header im)) = 0x40" "u32_at 0x24 (header_raw (img_header im)) = 4"
      "img_data im = [0, 0, 0, 0]"
    by (rule image_new_Ok; simp add: image_type_XipPlainSigned drop65 demo_pad)+
  have kind: "header_image_kind (img_header im) = Ok XipPlainSigned"
    using header_kind_XipPlainSigned [OF hdr(2,1)] by simp
  have "image_check demo_crypto [1, 2, 3, 4] r im = Ok ()" if "cert_block_rkth demo_crypto (demo_block 236) = Ok r" for r
    using that by (simp add: image_check_def cb key demo_block_key) (simp add: demo_crypto_def)
  then have "\<forall>k. image_merge demo_crypto [1, 2, 3, 4] k im = Ok (sign_me im @ [1, 2, 3, 4])"
    using kind by (simp add: image_merge_def cb cert_block_rkth_def demo_block_hashes sign_me_def)
  moreover have "length (sign_me im) = 236" using hdr cb by (simp add: sign_me_def)
  ultimately show ?thesis using new by simp
qed

lemma signed_image_loads:
  assumes new: "image_new C plain base_addr (image_type_new XipPlainSigned) cb = Ok im"
    and merge: "image_merge C sig k im = Ok out"
    and table: "root_key_hashes cb = Ok rkhs" "rkh_start cb = Ok n" "0x18 \<le> n"
    and slot: "capacity pops p = length (out @ padding)"
      "\<And>m. m \<le> length (out @ padding) \<Longrightarrow> flash_read pops 0 m p = (Ok (take m (out @ padding)), p)"
    and size: "length (out @ padding) < snd (SLOT_SIZE_RANGE cfg)" "fst (SLOT_SIZE_RANGE cfg) \<le> length out"
    and range: "unat base_addr + length out < 2 ^ 32" "range_contains (LOAD_RANGE cfg) base_addr"
      "range_contains (LOAD_RANGE cfg) (base_addr + of_nat (length out))"
  shows "\<exists>i h'. load_image cfg pops p h = (Ok i, p, h') \<and> target_ptr i = base_addr \<and>
    ram_slice (target_ptr i) (image_len i) h' = out \<and> image_rkth rom i h' = to_rkth rom rkhs h'"
proof -
  let ?i = "\<lparr>image_len = of_nat (length out), image_type = IMAGE_TYPE_TZ_XIP_SIGNED,
      header_offset = of_nat (0x40 + length (img_data im)), target_ptr = base_addr\<rparr>"
  note out = signed_image_ivt [OF new merge]
  then have i: "ivt_read_from_slice out = Ok ?i" and "length out < 2 ^ 32" by blast+
  from unat_of_nat_u32 [OF this(2)] have small: "unat (of_nat (length out) :: u32) = length out" .
  let ?h = "write_ram base_addr out h"
  have "range_contains (LOAD_RANGE cfg) (target_ptr ?i + image_len ?i)" using range(3) by simp
  from stored_image_loads [OF i _ _ slot size _ _ this] small range
  have "load_image cfg pops p h = (Ok ?i, p, ?h)" and ram: "ram_slice base_addr (of_nat (length out)) ?h = out" by auto
  moreover have "image_rkth rom ?i ?h = to_rkth rom rkhs ?h"
    by (rule signed_image_rkth [OF new merge table i]) (use ram in simp)
  ultimately show ?thesis using ram by (intro exI [of _ ?i] exI [of _ ?h]) simp
qed

section \<open>Properties\<close>

text \<open>
  C22. End to end: an image that the tool builds and signs as an application, stored at the start of a
  slot it fits in and linked to run inside \<open>LOAD_RANGE\<close>, passes every check of the bootloader up to
  authentication: \<open>load_image\<close> accepts it and copies exactly the signed bytes to the address the tool
  put into the header, and the bootloader derives its root key hash from the same four hashes the
  tool's certificate block holds.
\<close>

theorem tool_image_loads:
  assumes new: "image_new C plain base_addr (image_type_new XipPlainSigned) cb = Ok im"
    and merge: "image_merge C sig k im = Ok out"
    and table: "root_key_hashes cb = Ok rkhs" "rkh_start cb = Ok n" "0x18 \<le> n"
    and slot: "capacity pops p = length (out @ padding)"
      "\<And>m. m \<le> length (out @ padding) \<Longrightarrow> flash_read pops 0 m p = (Ok (take m (out @ padding)), p)"
    and size: "length (out @ padding) < snd (SLOT_SIZE_RANGE cfg)" "fst (SLOT_SIZE_RANGE cfg) \<le> length out"
    and range: "unat base_addr + length out < 2 ^ 32" "range_contains (LOAD_RANGE cfg) base_addr"
      "range_contains (LOAD_RANGE cfg) (base_addr + of_nat (length out))"
  shows "\<exists>i h'. load_image cfg pops p h = (Ok i, p, h') \<and> target_ptr i = base_addr \<and>
    ram_slice (target_ptr i) (image_len i) h' = out \<and> image_rkth rom i h' = to_rkth rom rkhs h'"
  using assms by (rule signed_image_loads)

theorem tool_image_loads_witness:
  "\<exists>im out. image_new demo_crypto (replicate 65 0) 0x10020000 (image_type_new XipPlainSigned) (demo_block 0) = Ok im \<and>
     image_merge demo_crypto [1, 2, 3, 4] None im = Ok out \<and>
     (\<exists>i h'. load_image demo_config slot_ops out blank_hw = (Ok i, out, h'))"
proof -
  obtain im out where
    new: "image_new demo_crypto (replicate 65 0) 0x10020000 (image_type_new XipPlainSigned) (demo_block 0) = Ok im"
    and merge: "image_merge demo_crypto [1, 2, 3, 4] None im = Ok out" and len: "length out = 240"
    using demo_signed by blast
  have start: "0x18 \<le> (40 :: nat)" by simp
  have slot: "capacity slot_ops out = length (out @ [])"
    "\<And>m. m \<le> length (out @ []) \<Longrightarrow> flash_read slot_ops 0 m out = (Ok (take m (out @ [])), out)"
    by (simp_all add: slot_ops_def)
  have size: "length (out @ []) < snd (SLOT_SIZE_RANGE demo_config)" "fst (SLOT_SIZE_RANGE demo_config) \<le> length out"
    "unat (0x10020000 :: u32) + length out < 2 ^ 32" "range_contains (LOAD_RANGE demo_config) 0x10020000"
    "range_contains (LOAD_RANGE demo_config) (0x10020000 + of_nat (length out))"
    using len by (simp_all add: demo_config_def)
  from tool_image_loads [OF new merge demo_block_hashes demo_block_rkh_start start slot size, of blank_hw demo_rom]
  show ?thesis using new merge by blast
qed

text \<open>
  C23. No unverified image leaves the tool: \<open>merge\<close> only succeeds when the signature has the length of
  the signing key and verifies, under the key of the last certificate of the block, against exactly
  the bytes that were handed out for signing; the output is those bytes and the signature, with the
  HMAC of the header behind the header for the image kinds that have one.
\<close>

theorem merge_only_verified:
  assumes "image_merge C sig k im = Ok out"
  shows "\<exists>kind key. header_image_kind (img_header im) = Ok kind \<and>
    verifying_key C (img_cert_block im) = Ok key \<and> length sig = rsa_size C key \<and>
    rsa_verify C key (sign_me im) sig \<and>
    (if has_hmac kind
     then \<exists>otp. k = Some otp \<and> out = header_raw (img_header im) @ image_hmac C otp im @ drop (length (header_raw (img_header im))) (sign_me im) @ sig
     else out = sign_me im @ sig)"
  using assms
  by (auto simp: image_merge_def image_check_def signature_len_def sign_me_def outcome_iffs Let_def split: if_splits)

theorem merge_only_verified_witness:
  "\<exists>im out. image_merge demo_crypto [1, 2, 3, 4] None im = Ok out \<and> length out = 240 \<and>
     rsa_verify demo_crypto () (sign_me im) [1, 2, 3, 4]"
proof -
  obtain im out where merge: "image_merge demo_crypto [1, 2, 3, 4] None im = Ok out" "length out = 240"
    using demo_signed by blast
  from merge_only_verified [OF merge(1)] merge show ?thesis by auto
qed

text \<open>
  C24. A certificate block that passes \<open>from_file\<close> is sound: its certificates parse, each one but the
  last is a CA that signed its successor, the root is a CA whose key hash is in the root key table, a
  signing certificate that is not the root is no CA, the table hashes to the expected RKTH when one is
  given, and the signing key exists, so that the \<open>expect\<close> calls of \<open>verifying_key\<close> cannot panic.
\<close>

theorem verified_cert_block_sound:
  assumes "cert_block_from_bytes C expected file = Ok b"
  shows "\<exists>raws root certs modulus exponent rkhs key.
    certificates b = Ok raws \<and> parsed_as C raws (root # certs) \<and> chain_links C (root # certs) \<and>
    x509_is_ca C root \<and> (certs \<noteq> [] \<longrightarrow> \<not> x509_is_ca C (last certs)) \<and>
    x509_rsa_key C root = Some (modulus, exponent) \<and> root_key_hashes b = Ok rkhs \<and>
    sha256_digest C (strip_zero modulus @ exponent) \<in> set rkhs \<and>
    (\<forall>r. expected = Some r \<longrightarrow> cert_block_rkth C b = Ok r) \<and>
    verifying_key C b = Ok key"
proof -
  from assms have v: "verify C expected b = Ok ()"
    by (auto simp: cert_block_from_bytes_def Let_def outcome_iffs split: if_splits)
  from verify_verifying_key [OF v] obtain key where "verifying_key C b = Ok key" by blast
  with v show ?thesis by (elim verify_Ok) blast
qed

lemma demo_block_verified: "cert_block_from_bytes demo_crypto None (cb_data (demo_block 0)) = Ok (demo_block 0)"
proof -
  have "field_u32 32 (cb_data (demo_block 0)) = Ok 4" "header_len (demo_block 0) = Ok 32" "cert_count (demo_block 0) = Ok 1"
    "cert_table_len (demo_block 0) = Ok 8"
    by (simp_all add: header_len_def cert_count_def cert_table_len_def field_u32_Ok demo_block_fields)
  moreover from this have "\<exists>cert. certificates (demo_block 0) = Ok [cert]"
    by (simp add: certificates_def demo_block_rkh_start slice_def Let_def)
  moreover have "replicate 32 0 \<in> set (chunks_exact 32 (replicate 128 (0 :: u8)))"
    by (subst chunks_exact.simps) simp
  ultimately have "verify demo_crypto None (demo_block 0) = Ok ()"
    by (auto simp: verify_def demo_block_hashes parse_x509_cert_def demo_crypto_def)
  with \<open>header_len _ = _\<close> \<open>cert_table_len _ = _\<close> show ?thesis
    by (simp add: cert_block_from_bytes_def)
qed

theorem verified_cert_block_sound_witness:
  "\<exists>key. verifying_key demo_crypto (demo_block 0) = Ok key"
  using verified_cert_block_sound [OF demo_block_verified] by blast

text \<open>
  C25. The three steps of \<open>generate_pure\<close> fit together through the files they leave: when the key file
  holds a key that matches the block's signing certificate, preparing, signing and merging succeed and
  the output file holds the prepared body followed by its signature, provided the intermediate files
  do not overwrite the input or the key.
\<close>

theorem generate_pure_correct:
  fixes output_path :: string
  defines "prepared \<equiv> set_extension ''.prepared.bin'' output_path"
    and "sigfile \<equiv> set_extension ''.signature.bin'' output_path"
  assumes files: "fs input_path = Some plain" "fs key_path = Some pem"
    and paths: "input_path \<notin> {prepared, sigfile}" "key_path \<noteq> prepared" "prepared \<noteq> sigfile"
    and new: "image_new C plain base_addr (image_type_new XipPlainSigned) cb = Ok im"
    and block: "cert_block_rkth C (img_cert_block im) = Ok r" "verifying_key C (img_cert_block im) = Ok key"
    and key: "rsa_sign pem = Some signer"
    and matching: "\<And>body. length (signer body) = rsa_size C key \<and> rsa_signature_parses C (signer body) \<and>
      rsa_verify C key body (signer body)"
  shows "\<exists>fs'. generate_pure C rsa_sign input_path base_addr output_path is_bootloader k cb key_path fs = (Ok (), fs') \<and>
    fs' output_path = Some (sign_me im @ signer (sign_me im))"
proof -
  let ?fs1 = "fs(prepared \<mapsto> sign_me im)"
  let ?fs2 = "?fs1(sigfile \<mapsto> signer (sign_me im))"
  have load: "tool_load_image C input_path base_addr is_bootloader cb f = Ok im" if "f input_path = Some plain" for f
    using that new by (simp add: tool_load_image_def fs_read_def)
  have prep: "prepare_to_sign C input_path base_addr prepared is_bootloader cb fs = (Ok (), ?fs1)"
    using load files(1) by (simp add: prepare_to_sign_def)
  have sig: "sign rsa_sign sigfile prepared key_path ?fs1 = (Ok (), ?fs2)"
    using files(2) paths(2) key by (simp add: sign_def fs_read_def)
  from new have hdr: "length (header_raw (img_header im)) = 0x40" "u32_at 0x24 (header_raw (img_header im)) = 4"
    by (rule image_new_Ok; simp add: image_type_XipPlainSigned)+
  have "image_check C (signer (sign_me im)) r im = Ok ()"
    using block matching [of "sign_me im"] by (simp add: image_check_def signature_len_def)
  then have "image_merge C (signer (sign_me im)) k im = Ok (sign_me im @ signer (sign_me im))"
    using block header_kind_XipPlainSigned [OF hdr(2,1)] by (simp add: image_merge_def sign_me_def)
  then have merge: "merge_with_signature C input_path base_addr sigfile output_path is_bootloader k cb ?fs2 =
      (Ok (), ?fs2(output_path \<mapsto> sign_me im @ signer (sign_me im)))"
    using load [of ?fs2] files(1) paths(1) by (simp add: merge_with_signature_def fs_read_def)
  show ?thesis
    using prep sig merge by (simp add: generate_pure_def Let_def prepared_def sigfile_def)
qed

theorem generate_pure_correct_witness:
  "\<exists>fs' out. generate_pure demo_crypto (\<lambda>_. Some (\<lambda>_. [1, 2, 3, 4])) ''app.elf'' 0x10020000 ''app.bin'' False None
       (demo_block 0) ''key.pem'' [''app.elf'' \<mapsto> replicate 65 0, ''key.pem'' \<mapsto> []] = (Ok (), fs') \<and>
     fs' ''app.bin'' = Some out"
proof -
  let ?fs = "[''app.elf'' \<mapsto> replicate 65 0, ''key.pem'' \<mapsto> []] :: fs"
  have names: "set_extension ''.prepared.bin'' ''app.bin'' = ''app..prepared.bin''"
    "set_extension ''.signature.bin'' ''app.bin'' = ''app..signature.bin''"
    by (simp_all add: set_extension_def file_name_def file_stem_def)
  have files: "?fs ''app.elf'' = Some (replicate 65 0)" "?fs ''key.pem'' = Some []" by simp_all
  have paths: "''app.elf'' \<notin> {set_extension ''.prepared.bin'' ''app.bin'', set_extension ''.signature.bin'' ''app.bin''}"
    "''key.pem'' \<noteq> set_extension ''.prepared.bin'' ''app.bin''"
    "set_extension ''.prepared.bin'' ''app.bin'' \<noteq> set_extension ''.signature.bin'' ''app.bin''"
    by (simp_all add: names)
  obtain im out where
    new: "image_new demo_crypto (replicate 65 0) 0x10020000 (image_type_new XipPlainSigned) (demo_block 0) = Ok im"
    and merge: "image_merge demo_crypto [1, 2, 3, 4] None im = Ok out"
    using demo_signed by blast
  from merge obtain r where block: "cert_block_rkth demo_crypto (img_cert_block im) = Ok r"
      "verifying_key demo_crypto (img_cert_block im) = Ok ()"
    by (auto simp: image_merge_def image_check_def outcome_iffs split: if_splits)
  have key: "(\<lambda>_. Some (\<lambda>_. [1, 2, 3, 4 :: u8])) [] = Some (\<lambda>_. [1, 2, 3, 4])" by simp
  have matching: "length ((\<lambda>_. [1, 2, 3, 4 :: u8]) body) = rsa_size demo_crypto () \<and>
      rsa_signature_parses demo_crypto ((\<lambda>_. [1, 2, 3, 4]) body) \<and>
      rsa_verify demo_crypto () body ((\<lambda>_. [1, 2, 3, 4]) body)" for body :: "u8 list"
    by (simp add: demo_crypto_def)
  from generate_pure_correct [where fs = ?fs and rsa_sign = "\<lambda>_. Some (\<lambda>_. [1, 2, 3, 4])" and
      signer = "\<lambda>_. [1, 2, 3, 4]", OF files paths new block key matching, of False None]
  show ?thesis by blast
qed

end
