(* ===== verification/Tool_Config.thy ===== *)
theory Tool_Config
  imports Mbi_Image
begin

text \<open>
  The configuration of the host tool (\<open>bootloader-tool/src/config.rs\<close>) and the arguments of its commands
  (\<open>lib.rs\<close>) as \<open>serde\<close> and \<open>clap\<close> hand them over, with the defaults the argument types add. Fields the
  code never reads are kept, since the repository's \<open>config.toml\<close> is one of these values.
\<close>

section \<open>Configuration\<close>

datatype key_type = Rsa2048 | Rsa3072 | Rsa4096

fun key_type_as_str :: "key_type \<Rightarrow> string" where
  "key_type_as_str Rsa2048 = ''rsa2048''"
| "key_type_as_str Rsa3072 = ''rsa3072''"
| "key_type_as_str Rsa4096 = ''rsa4096''"

record certificate_prototype =
  proto_key_type :: key_type
  proto_key_path :: string

record certificate =
  certificate_path :: string
  certificate_proto :: "certificate_prototype option"

type_synonym certificate_chain = "certificate list"

record memory_range =
  range_start :: u64
  range_size :: u64

record bootloader_args =
  boot_flash_start :: u64
  boot_run_start :: u64
  boot_max_size :: u64
  boot_state :: memory_range

record application_args =
  slot_starts :: "u64 list"
  appl_run_start :: u64
  appl_slot_size :: u64

record config =
  artifacts_path :: string
  otp_path :: string
  config_certificates :: "certificate_chain list"
  config_bootloader :: "bootloader_args option"
  config_application :: "application_args option"

section \<open>Arguments\<close>

record generate_certificates_arguments =
  nxpcrypto_path :: string
  generate_nxpimage_path :: string

record sign_arguments =
  input_path :: string
  signature_path :: "string option"
  output_unsigned_path :: "string option"
  output_prestage_path :: "string option"
  output_path :: "string option"
  dont_sign :: bool
  certificate_idx :: nat
  prelude_path :: "string option"
  nxpimage_path :: string

record probe_args =
  probe_selector :: "string option"
  probe_chip :: string

record run_arguments =
  sign_args :: sign_arguments
  run_probe_args :: probe_args
  probe_rs_path :: string

datatype generate_commands = Certificates generate_certificates_arguments | GenerateOtp

datatype sign_commands = SignBootloader sign_arguments | SignApplication sign_arguments

datatype run_commands = RunBootloader run_arguments | RunApplication run_arguments u8

datatype download_commands = Prelude string probe_args | Other run_commands

datatype commands =
  Generate generate_commands | Sign sign_commands | Download download_commands | Run run_commands | Fuse

record cli =
  cli_config :: string
  cli_commands :: "commands option"

section \<open>Defaults\<close>

text \<open>\<open>with_extension\<close> on a path is \<open>set_extension\<close> on its copy.\<close>

definition unwrap_or_extension :: "string option \<Rightarrow> string \<Rightarrow> sign_arguments \<Rightarrow> string" where
  "unwrap_or_extension p ext args = (case p of Some p \<Rightarrow> p | None \<Rightarrow> set_extension ext (input_path args))"

definition output_unsigned_path_with_default :: "sign_arguments \<Rightarrow> string" where
  "output_unsigned_path_with_default args = unwrap_or_extension (output_unsigned_path args) ''unsigned.bin'' args"

definition output_prestage_path_with_default :: "sign_arguments \<Rightarrow> string" where
  "output_prestage_path_with_default args = unwrap_or_extension (output_prestage_path args) ''mbi-proto.bin'' args"

definition output_path_with_default :: "sign_arguments \<Rightarrow> string" where
  "output_path_with_default args = unwrap_or_extension (output_path args) ''signed.bin'' args"

definition prelude_path_with_default :: "sign_arguments \<Rightarrow> string" where
  "prelude_path_with_default args = unwrap_or_extension (prelude_path args) ''prelude.elf'' args"

text \<open>The configuration file of the repository, \<open>config.toml\<close>.\<close>

definition shipped_config :: config where
  "shipped_config =
     \<lparr>artifacts_path = ''./artifacts'',
      otp_path = ''./artifacts/otp_master_key.txt'',
      config_certificates =
        [[\<lparr>certificate_path = ''./artifacts/cert-rot1.pem'',
           certificate_proto = Some \<lparr>proto_key_type = Rsa3072, proto_key_path = ''./artifacts/cert-rot1-ca-key.pem''\<rparr>\<rparr>,
          \<lparr>certificate_path = ''./artifacts/cert-img1.pem'',
           certificate_proto = Some \<lparr>proto_key_type = Rsa3072, proto_key_path = ''./artifacts/cert-img1-user-key.pem''\<rparr>\<rparr>],
         [\<lparr>certificate_path = ''./artifacts/cert-rot2.pem'',
           certificate_proto = Some \<lparr>proto_key_type = Rsa3072, proto_key_path = ''./artifacts/cert-rot2-ca-key.pem''\<rparr>\<rparr>,
          \<lparr>certificate_path = ''./artifacts/cert-img2.pem'',
           certificate_proto = Some \<lparr>proto_key_type = Rsa3072, proto_key_path = ''./artifacts/cert-img2-user-key.pem''\<rparr>\<rparr>]],
      config_bootloader =
        Some \<lparr>boot_flash_start = 0x08001000, boot_run_start = 0x10170000, boot_max_size = 0x8000,
              boot_state = \<lparr>range_start = 0x0800B000, range_size = 0x2000\<rparr>\<rparr>,
      config_application =
        Some \<lparr>slot_starts = [0x800D000, 0x80F9000], appl_run_start = 0x10020000, appl_slot_size = 0xec000\<rparr>\<rparr>"

section \<open>Lemmas\<close>

text \<open>The default names differ from each other: they keep the stem and have different extensions.\<close>

lemma set_extension_inj:
  assumes "file_name path \<noteq> []" and "file_name path \<noteq> ''..''" and "e \<noteq> []" and "f \<noteq> []"
  shows "set_extension e path = set_extension f path \<longleftrightarrow> e = f"
  using assms by (simp add: set_extension_def Let_def)

end
