(* ===== verification/Tool_Text.thy ===== *)
theory Tool_Text
  imports Tool_Util
begin

text \<open>
  The text handling of the Rust standard library that the host tool uses on the output of other
  programs: UTF-8 decoding (\<open>String::from_utf8\<close>), \<open>lines\<close>, \<open>contains\<close>, \<open>trim\<close> and
  \<open>trim_start_matches\<close>. A decoded text is the list of its code points.
\<close>

type_synonym chars = "nat list"

section \<open>UTF-8\<close>

definition is_cont :: "u8 \<Rightarrow> bool" where
  "is_cont b \<longleftrightarrow> 0x80 \<le> b \<and> b \<le> 0xbf"

definition cont_bits :: "u8 \<Rightarrow> nat" where
  "cont_bits b = unat b - 0x80"

text \<open>One well-formed sequence at a time; overlong forms, surrogates and values past \<open>0x10ffff\<close> are rejected.\<close>

fun decode_utf8 :: "u8 list \<Rightarrow> chars option" where
  "decode_utf8 [] = Some []"
| "decode_utf8 (b0 # bs) =
     (if b0 < 0x80 then map_option (Cons (unat b0)) (decode_utf8 bs)
      else
        case bs of
          [] \<Rightarrow> None
        | b1 # bs1 \<Rightarrow>
            if 0xc2 \<le> b0 \<and> b0 \<le> 0xdf then
              if is_cont b1 then map_option (Cons ((unat b0 - 0xc0) * 64 + cont_bits b1)) (decode_utf8 bs1) else None
            else
              (case bs1 of
                 [] \<Rightarrow> None
               | b2 # bs2 \<Rightarrow>
                   if 0xe0 \<le> b0 \<and> b0 \<le> 0xef then
                     if is_cont b1 \<and> is_cont b2 \<and> (b0 = 0xe0 \<longrightarrow> 0xa0 \<le> b1) \<and> (b0 = 0xed \<longrightarrow> b1 \<le> 0x9f)
                     then map_option (Cons ((unat b0 - 0xe0) * 4096 + cont_bits b1 * 64 + cont_bits b2)) (decode_utf8 bs2)
                     else None
                   else
                     (case bs2 of
                        [] \<Rightarrow> None
                      | b3 # bs3 \<Rightarrow>
                          if 0xf0 \<le> b0 \<and> b0 \<le> 0xf4 \<and> is_cont b1 \<and> is_cont b2 \<and> is_cont b3 \<and>
                             (b0 = 0xf0 \<longrightarrow> 0x90 \<le> b1) \<and> (b0 = 0xf4 \<longrightarrow> b1 \<le> 0x8f)
                          then map_option (Cons ((unat b0 - 0xf0) * 262144 + cont_bits b1 * 4096 + cont_bits b2 * 64 + cont_bits b3))
                                 (decode_utf8 bs3)
                          else None)))"

definition encode_char :: "nat \<Rightarrow> u8 list" where
  "encode_char c =
     (if c < 0x80 then [of_nat c]
      else if c < 0x800 then [of_nat (0xc0 + c div 64), of_nat (0x80 + c mod 64)]
      else if c < 0x10000 then [of_nat (0xe0 + c div 4096), of_nat (0x80 + c div 64 mod 64), of_nat (0x80 + c mod 64)]
      else [of_nat (0xf0 + c div 262144), of_nat (0x80 + c div 4096 mod 64), of_nat (0x80 + c div 64 mod 64),
            of_nat (0x80 + c mod 64)])"

definition encode_utf8 :: "chars \<Rightarrow> u8 list" where
  "encode_utf8 t = concat (map encode_char t)"

text \<open>An ASCII literal as text.\<close>

definition ascii :: "string \<Rightarrow> chars" where
  "ascii s = map of_char s"

section \<open>Lines and matches\<close>

text \<open>\<open>char::is_whitespace\<close>: the code points with the Unicode property \<open>White_Space\<close>.\<close>

definition is_whitespace :: "nat \<Rightarrow> bool" where
  "is_whitespace c \<longleftrightarrow>
     9 \<le> c \<and> c \<le> 13 \<or> c = 0x20 \<or> c = 0x85 \<or> c = 0xa0 \<or> c = 0x1680 \<or> 0x2000 \<le> c \<and> c \<le> 0x200a \<or>
     c = 0x2028 \<or> c = 0x2029 \<or> c = 0x202f \<or> c = 0x205f \<or> c = 0x3000"

definition trim :: "chars \<Rightarrow> chars" where
  "trim t = rev (dropWhile is_whitespace (rev (dropWhile is_whitespace t)))"

text \<open>The lines end at a line feed, before which one carriage return is dropped; no line follows the last line feed.\<close>

fun split_lines :: "chars \<Rightarrow> chars \<Rightarrow> chars list" where
  "split_lines acc [] = (if acc = [] then [] else [rev acc])"
| "split_lines acc (c # cs) =
     (if c = 10 then rev (if acc \<noteq> [] \<and> hd acc = 13 then tl acc else acc) # split_lines [] cs
      else split_lines (c # acc) cs)"

definition lines :: "chars \<Rightarrow> chars list" where
  "lines t = split_lines [] t"

fun starts_with :: "chars \<Rightarrow> chars \<Rightarrow> bool" where
  "starts_with [] t \<longleftrightarrow> True"
| "starts_with (p # ps) [] \<longleftrightarrow> False"
| "starts_with (p # ps) (c # cs) \<longleftrightarrow> p = c \<and> starts_with ps cs"

fun contains :: "chars \<Rightarrow> chars \<Rightarrow> bool" where
  "contains pat [] \<longleftrightarrow> pat = []"
| "contains pat (c # cs) \<longleftrightarrow> starts_with pat (c # cs) \<or> contains pat cs"

text \<open>\<open>trim_start_matches\<close> removes the pattern as often as it stands at the front.\<close>

lemma starts_with_length: "starts_with pat t \<Longrightarrow> length pat \<le> length t"
  by (induction pat t rule: starts_with.induct) simp_all

function trim_start_matches :: "chars \<Rightarrow> chars \<Rightarrow> chars" where
  "trim_start_matches pat t =
     (if pat \<noteq> [] \<and> starts_with pat t then trim_start_matches pat (drop (length pat) t) else t)"
  by pat_completeness auto
termination
  by (relation "measure (\<lambda>(pat, t). length t)") (auto dest!: starts_with_length simp: neq_Nil_conv)

declare trim_start_matches.simps [simp del]

section \<open>Lemmas\<close>

lemma decode_ascii: "\<forall>c \<in> set cs. c < 0x80 \<Longrightarrow> decode_utf8 (encode_utf8 cs) = Some cs"
proof (induction cs)
  case (Cons c cs)
  then have c: "c < 0x80" by simp
  then have "unat (of_nat c :: u8) = c" by (simp add: unat_of_nat take_bit_nat_eq_self)
  moreover from this c have "(of_nat c :: u8) < 0x80" by (simp add: word_less_nat_alt)
  ultimately show ?case using Cons c by (simp add: encode_utf8_def encode_char_def)
qed (simp add: encode_utf8_def)

lemma starts_with_append [simp]: "starts_with pat (pat @ t)"
  by (induction pat) simp_all

lemma contains_append: "contains pat (xs @ pat @ ys)"
proof (induction xs)
  case Nil
  show ?case
  proof (cases "pat @ ys")
    case (Cons c cs)
    have "starts_with pat (pat @ ys)" by simp
    with Cons show ?thesis by simp
  qed simp
qed simp

end
