(* ===== verification/Objcopy.thy ===== *)
theory Objcopy
  imports Slim_Prelude
begin

text \<open>
  \<open>bootloader-tool/src/processors/objcopy.rs\<close>: assembling the flat binary of an ELF file. Reading the
  ELF format is the \<open>object\<close> crate's work; \<open>elf_file\<close> is what it hands over, the entry point and the
  program headers of the loadable segments with their bytes (\<open>None\<close> when they lie outside the file).
  \<open>u32\<close> sums wrap. \<open>remove_non_prelude\<close> acts on the section list of the crate's builder; its deletion
  rule is \<open>section_deleted\<close>.

  The specification is \<open>flat_image\<close>: the segments one after the other, with zeros in the gaps.
\<close>

section \<open>The code\<close>

record segment =
  p_filesz :: u32
  p_memsz :: u32
  p_paddr :: u32
  seg_data :: "u8 list option"

record elf_file =
  elf_segments :: "segment list"
  elf_entry :: u64

datatype objcopy_error = FileszLargerThanMemsz | PartialBss | SegmentsOutOfOrder | WrongEntry

definition in_prelude :: "u32 \<Rightarrow> bool" where
  "in_prelude a \<longleftrightarrow> 0x08000000 \<le> a \<and> a < 0x08001000"

fun scan_segments :: "u32 \<Rightarrow> segment list \<Rightarrow> (segment list, objcopy_error) res" where
  "scan_segments last_paddr [] = Ok []"
| "scan_segments last_paddr (s # rest) =
     (if p_filesz s = 0 then scan_segments last_paddr rest
      else if p_filesz s > p_memsz s then Err FileszLargerThanMemsz
      else if p_memsz s > p_filesz s then Err PartialBss
      else if in_prelude (p_paddr s) then scan_segments last_paddr rest
      else if p_paddr s < last_paddr then Err SegmentsOutOfOrder
      else res_bind (scan_segments (p_paddr s + p_memsz s) rest) (\<lambda>segments. Ok (s # segments)))"

definition base_address :: "segment list \<Rightarrow> u32 option" where
  "base_address segs =
     (case segs of [] \<Rightarrow> None | s # rest \<Rightarrow> Some (fold (\<lambda>s m. min m (p_paddr s)) rest (p_paddr s)))"

definition top_address :: "segment list \<Rightarrow> u32 option" where
  "top_address segs =
     (case segs of [] \<Rightarrow> None
      | s # rest \<Rightarrow> Some (fold (\<lambda>s m. max m (p_paddr s + p_filesz s)) rest (p_paddr s + p_filesz s)))"

fun copy_segments :: "u32 \<Rightarrow> segment list \<Rightarrow> u8 list \<Rightarrow> (u8 list, objcopy_error) res" where
  "copy_segments base_addr [] img = Ok img"
| "copy_segments base_addr (s # rest) img =
     res_bind (unwrap (seg_data s)) (\<lambda>data.
     let a = unat (p_paddr s) - unat base_addr;
         b = a + unat (p_memsz s)
     in if b \<le> length img \<and> length data = b - a
        then copy_segments base_addr rest (copy_from_slice a data img)
        else Panic)"

definition objcopy :: "elf_file \<Rightarrow> (u8 list \<times> u32, objcopy_error) res" where
  "objcopy file =
     res_bind (scan_segments 0 (elf_segments file)) (\<lambda>segments.
     res_bind (unwrap (base_address segments)) (\<lambda>base_addr.
     res_bind (unwrap (top_address segments)) (\<lambda>top_addr.
     let output_size = top_addr - base_addr;
         expected_entry = ucast (base_addr + 0x131)
     in if elf_entry file \<noteq> expected_entry then Err WrongEntry
        else
          res_bind (copy_segments base_addr segments (replicate (unat output_size) 0)) (\<lambda>img.
          Ok (img, base_addr)))))"

text \<open>\<open>remove_non_prelude\<close>: whether a section (its address and type) is deleted.\<close>

definition SHT_PROGBITS :: u32 where
  "SHT_PROGBITS = 1"

definition SHT_NOBITS :: u32 where
  "SHT_NOBITS = 8"

definition section_deleted :: "u64 \<Rightarrow> u32 \<Rightarrow> bool" where
  "section_deleted sh_addr sh_type \<longleftrightarrow>
     \<not> in_prelude (ucast sh_addr) \<and> \<not> (sh_type \<noteq> SHT_PROGBITS \<and> sh_type \<noteq> SHT_NOBITS)"

section \<open>The specification\<close>

text \<open>The end of a segment, and a segment as the linker writes it: no wrap-around, its bytes there.\<close>

definition seg_end :: "segment \<Rightarrow> nat" where
  "seg_end s = unat (p_paddr s) + unat (p_memsz s)"

definition seg_bytes :: "segment \<Rightarrow> u8 list" where
  "seg_bytes s = (case seg_data s of Some bs \<Rightarrow> bs | None \<Rightarrow> [])"

definition wf_segment :: "segment \<Rightarrow> bool" where
  "wf_segment s \<longleftrightarrow> seg_end s < 2 ^ 32 \<and> seg_data s \<noteq> None \<and> length (seg_bytes s) = unat (p_filesz s)"

text \<open>The segments that reach the flash.\<close>

definition kept :: "segment \<Rightarrow> bool" where
  "kept s \<longleftrightarrow> p_filesz s \<noteq> 0 \<and> \<not> in_prelude (p_paddr s)"

fun placed :: "nat \<Rightarrow> segment list \<Rightarrow> bool" where
  "placed pos [] \<longleftrightarrow> True"
| "placed pos (s # rest) \<longleftrightarrow>
     pos \<le> unat (p_paddr s) \<and> wf_segment s \<and> p_memsz s = p_filesz s \<and> placed (seg_end s) rest"

fun flat_image :: "nat \<Rightarrow> segment list \<Rightarrow> u8 list" where
  "flat_image pos [] = []"
| "flat_image pos (s # rest) =
     replicate (unat (p_paddr s) - pos) 0 @ seg_bytes s @ flat_image (seg_end s) rest"

lemma placed_mono: "placed pos segs \<Longrightarrow> pos' \<le> pos \<Longrightarrow> placed pos' segs"
  by (cases segs) auto

lemma seg_end_unat: "wf_segment s \<Longrightarrow> unat (p_paddr s + p_memsz s) = seg_end s"
  by (simp add: wf_segment_def seg_end_def unat_word_ariths(1) take_bit_nat_eq_self)

lemma scan_segments_Ok:
  assumes "scan_segments last_paddr segs = Ok out" and "\<forall>s \<in> set segs. wf_segment s"
  shows "out = filter kept segs \<and> placed (unat last_paddr) out"
  using assms
proof (induction segs arbitrary: last_paddr out)
  case (Cons s segs)
  show ?case
  proof (cases "kept s")
    case False
    with Cons show ?thesis by (auto simp: kept_def split: if_splits)
  next
    case True
    with Cons.prems obtain rest where
      s: "p_memsz s = p_filesz s" "last_paddr \<le> p_paddr s" "out = s # rest"
        "scan_segments (p_paddr s + p_memsz s) segs = Ok rest"
      by (auto simp: kept_def outcome_iffs split: if_splits)
    have wf: "wf_segment s" using Cons.prems by simp
    from Cons.IH [OF s(4)] Cons.prems(2) have "rest = filter kept segs" "placed (seg_end s) rest"
      by (auto simp: seg_end_unat [OF wf])
    with s True wf show ?thesis by (simp add: word_le_nat_alt)
  qed
qed simp

lemma copy_segments_flat:
  assumes "placed (unat base_addr + length pre) segs"
    and "length (flat_image (unat base_addr + length pre) segs) = n"
  shows "copy_segments base_addr segs (pre @ replicate n 0) = Ok (pre @ flat_image (unat base_addr + length pre) segs)"
  using assms
proof (induction segs arbitrary: pre n)
  case (Cons s segs)
  let ?a = "unat (p_paddr s) - unat base_addr" and ?gap = "unat (p_paddr s) - (unat base_addr + length pre)"
  obtain bs where bs: "seg_data s = Some bs" "seg_bytes s = bs" "length bs = unat (p_memsz s)"
    using Cons.prems(1) by (auto simp: wf_segment_def seg_bytes_def)
  have a: "?a = length pre + ?gap" using Cons.prems(1) by simp
  define m where "m = length (flat_image (seg_end s) segs)"
  have n: "n = ?gap + length bs + m" using Cons.prems(2) bs(2) by (simp add: m_def)
  let ?pre = "pre @ replicate ?gap 0 @ bs"
  have pos: "unat base_addr + length ?pre = seg_end s"
    using Cons.prems(1) bs(3) by (simp add: seg_end_def)
  have copy: "copy_from_slice ?a bs (pre @ replicate n 0) = ?pre @ replicate m 0"
    unfolding copy_from_slice_def a n by (simp add: min_def)
  have "copy_segments base_addr segs (?pre @ replicate m 0) = Ok (?pre @ flat_image (seg_end s) segs)"
    using Cons.IH [of ?pre m] Cons.prems(1) pos by (simp add: m_def)
  with bs copy n a show ?case by simp
qed simp

text \<open>Where the last segment ends.\<close>

fun end_pos :: "nat \<Rightarrow> segment list \<Rightarrow> nat" where
  "end_pos pos [] = pos"
| "end_pos pos (s # rest) = end_pos (seg_end s) rest"

lemma end_pos_ge: "placed pos segs \<Longrightarrow> pos \<le> end_pos pos segs"
proof (induction segs arbitrary: pos)
  case (Cons s segs)
  then have "pos \<le> seg_end s" "placed (seg_end s) segs" by (auto simp: seg_end_def)
  with Cons.IH [of "seg_end s"] show ?case by simp
qed simp

lemma length_flat_image: "placed pos segs \<Longrightarrow> length (flat_image pos segs) = end_pos pos segs - pos"
proof (induction segs arbitrary: pos)
  case (Cons s segs)
  then have s: "pos \<le> unat (p_paddr s)" "length (seg_bytes s) = unat (p_memsz s)" "placed (seg_end s) segs"
    by (auto simp: wf_segment_def)
  with Cons.IH [OF s(3)] end_pos_ge [OF s(3)] show ?case by (simp add: seg_end_def)
qed simp

lemma fold_min_placed:
  "placed pos segs \<Longrightarrow> unat x \<le> pos \<Longrightarrow> fold (\<lambda>s m. min m (p_paddr s)) segs x = x"
proof (induction segs arbitrary: pos)
  case (Cons s segs)
  then have "min x (p_paddr s) = x" by (simp add: word_le_nat_alt min_def)
  moreover have "unat x \<le> seg_end s" using Cons.prems by (simp add: seg_end_def)
  ultimately show ?case using Cons.IH [of "seg_end s"] Cons.prems by simp
qed simp

lemma fold_max_placed:
  "placed pos segs \<Longrightarrow> unat x = pos \<Longrightarrow>
   unat (fold (\<lambda>s m. max m (p_paddr s + p_filesz s)) segs x) = end_pos pos segs"
proof (induction segs arbitrary: pos x)
  case (Cons s segs)
  then have e: "unat (p_paddr s + p_filesz s) = seg_end s" using seg_end_unat [of s] by simp
  moreover have "pos \<le> seg_end s" using Cons.prems by (simp add: seg_end_def)
  ultimately have "max x (p_paddr s + p_filesz s) = p_paddr s + p_filesz s"
    using Cons.prems(2) by (auto simp: max_def word_le_nat_alt)
  with Cons.IH [of "seg_end s" "p_paddr s + p_filesz s"] e Cons.prems show ?case by simp
qed simp

lemma addresses_placed:
  assumes "placed pos (s # rest)"
  shows "base_address (s # rest) = Some (p_paddr s)"
    and "\<exists>top. top_address (s # rest) = Some top \<and>
      unat (top - p_paddr s) = length (flat_image (unat (p_paddr s)) (s # rest))"
proof -
  have p: "placed (seg_end s) rest" and e: "unat (p_paddr s + p_filesz s) = seg_end s"
    using assms seg_end_unat [of s] by simp_all
  show "base_address (s # rest) = Some (p_paddr s)"
    using fold_min_placed [OF p, of "p_paddr s"] by (simp add: base_address_def seg_end_def)
  let ?top = "fold (\<lambda>s m. max m (p_paddr s + p_filesz s)) rest (p_paddr s + p_filesz s)"
  have top: "unat ?top = end_pos (seg_end s) rest" using fold_max_placed [OF p e] .
  have ge: "unat (p_paddr s) \<le> end_pos (seg_end s) rest"
    using end_pos_ge [OF p] by (simp add: seg_end_def)
  have "placed (unat (p_paddr s)) (s # rest)" using assms by simp
  then have "length (flat_image (unat (p_paddr s)) (s # rest)) = end_pos (seg_end s) rest - unat (p_paddr s)"
    using length_flat_image by fastforce
  moreover have "unat (?top - p_paddr s) = end_pos (seg_end s) rest - unat (p_paddr s)"
    using ge top by (simp add: unat_sub_if')
  ultimately show "\<exists>top. top_address (s # rest) = Some top \<and>
      unat (top - p_paddr s) = length (flat_image (unat (p_paddr s)) (s # rest))"
    by (simp add: top_address_def)
qed

section \<open>Properties\<close>

text \<open>
  C26. \<open>objcopy\<close> assembles the image: for an ELF file whose segments do not wrap around the address space
  and have their bytes in the file, and of which at least one is to be flashed, it never panics, and
  when it succeeds the binary is the flashed segments at their distances from the first one, zeros in
  the gaps, nothing overlapping, with the entry point where the ROM expects it.
\<close>

theorem objcopy_correct:
  assumes wf: "\<forall>s \<in> set (elf_segments file). wf_segment s" and some: "filter kept (elf_segments file) \<noteq> []"
  shows "objcopy file \<noteq> Panic \<and>
    (\<forall>img base_addr. objcopy file = Ok (img, base_addr) \<longrightarrow>
       base_addr = p_paddr (hd (filter kept (elf_segments file))) \<and>
       placed (unat base_addr) (filter kept (elf_segments file)) \<and>
       img = flat_image (unat base_addr) (filter kept (elf_segments file)) \<and>
       elf_entry file = ucast (base_addr + 0x131))"
proof (cases "scan_segments 0 (elf_segments file)")
  case (Ok out)
  from scan_segments_Ok [OF Ok wf] have out: "out = filter kept (elf_segments file)" "placed 0 out" by auto
  with some obtain s rest where sr: "out = s # rest" by (metis list.exhaust)
  have p: "placed (unat (p_paddr s)) out" using out(2) sr by simp
  obtain top where addr: "base_address out = Some (p_paddr s)" "top_address out = Some top"
      "unat (top - p_paddr s) = length (flat_image (unat (p_paddr s)) out)"
    using addresses_placed [of 0 s rest] out(2) sr by blast
  have "copy_segments (p_paddr s) out (replicate (unat (top - p_paddr s)) 0) = Ok (flat_image (unat (p_paddr s)) out)"
    using copy_segments_flat [of "p_paddr s" "[]" out] p addr(3) by simp
  moreover have "hd (filter kept (elf_segments file)) = s" using out(1) sr by (metis list.sel(1))
  ultimately show ?thesis using Ok addr p out(1) by (simp add: objcopy_def Let_def)
next
  case (Err e)
  then show ?thesis by (simp add: objcopy_def)
next
  case Panic
  moreover have "scan_segments a segs \<noteq> Panic" for a segs
    by (induction segs arbitrary: a) (auto simp: outcome_iffs)
  ultimately show ?thesis by blast
qed

definition demo_elf :: elf_file where
  "demo_elf =
     \<lparr>elf_segments =
        [\<lparr>p_filesz = 2, p_memsz = 2, p_paddr = 0x08000400, seg_data = Some [9, 9]\<rparr>,
         \<lparr>p_filesz = 2, p_memsz = 2, p_paddr = 0x10020000, seg_data = Some [1, 2]\<rparr>,
         \<lparr>p_filesz = 1, p_memsz = 1, p_paddr = 0x10020004, seg_data = Some [3]\<rparr>,
         \<lparr>p_filesz = 0, p_memsz = 64, p_paddr = 0x10030000, seg_data = Some []\<rparr>],
      elf_entry = 0x10020131\<rparr>"

theorem objcopy_correct_witness: "objcopy demo_elf = Ok ([1, 2, 0, 0, 3], 0x10020000)"
proof -
  have wf: "\<forall>s \<in> set (elf_segments demo_elf). wf_segment s"
    by (simp add: demo_elf_def wf_segment_def seg_end_def seg_bytes_def)
  have some: "filter kept (elf_segments demo_elf) \<noteq> []"
    by (simp add: demo_elf_def kept_def in_prelude_def)
  have "\<exists>img b. objcopy demo_elf = Ok (img, b)"
    by (simp add: objcopy_def demo_elf_def in_prelude_def base_address_def top_address_def copy_from_slice_def
        max_def min_def Let_def)
  then obtain img b where run: "objcopy demo_elf = Ok (img, b)" by blast
  have two: "replicate 2 (0 :: u8) = [0, 0]" by (simp add: numeral_eq_Suc)
  from objcopy_correct [OF wf some] run show ?thesis
    by (simp add: demo_elf_def kept_def in_prelude_def seg_end_def seg_bytes_def two)
qed

end
