(* ===== verification/Tool_Host.thy ===== *)
theory Tool_Host
  imports Tool_Config Tool_Text Objcopy
begin

text \<open>
  What the host tool reaches outside itself: other programs, temporary files, random numbers and the
  serializers. \<open>host_env\<close> is the dictionary of these; the definitions of the commands take it as an
  argument. A program is run with a working directory and arguments, may change the files, and ends
  with a flag and its output, or could not be executed at all. \<open>cmd_error\<close> are the errors of the
  commands, with those of the processors wrapped, as \<open>anyhow\<close> does.
\<close>

datatype cmd_error =
  ToolError tool_error | HexError hex_error | ObjcopyError objcopy_error | NotUtf8 | NotExecuted string
| ProcessFailed chars | MissingPrototype string | RkthNotPrinted | ElfParse | ElfBuild
| WrongRunAddress u32 u64 | NoSuchChain nat | EmptyChain | NoLeafPrototype nat | NotConfigured | NoSlot u8
| NotSigned | NoProbe | TooManyProbes | ProbeFailed | FlashFailed | ConfigParse | AddedTooMuch | WrongImageType u32

record exec_output =
  exec_success :: bool
  exec_stdout :: "u8 list"

text \<open>What \<open>nxpcrypto\<close> gets for a certificate, and \<open>nxpimage\<close> for a certificate block.\<close>

record certificate_config =
  issuer_private_key :: string
  subject_public_key :: string
  constraint_ca :: bool

record cert_block_config =
  family :: string
  revision :: string
  block_certificates :: "string \<rightharpoonup> string"
  main_root_cert_id :: nat
  container_output_file :: "string option"

record host_env =
  run_command :: "string \<Rightarrow> string \<Rightarrow> string list \<Rightarrow> fs \<Rightarrow> exec_output option \<times> fs"
  temp_file :: "nat \<Rightarrow> string"
  random_32 :: "u8 list"
  certificate_json :: "certificate_config \<Rightarrow> u8 list"
  cert_block_json :: "cert_block_config \<Rightarrow> u8 list"
  canonicalize :: "string \<Rightarrow> fs \<Rightarrow> string option"
  current_dir :: string

text \<open>
  \<open>Command::output\<close> with the error handling all callers share: a program that cannot be executed, and
  one that reports a failure, whose output becomes the context of the error.
\<close>

definition run_checked :: "host_env \<Rightarrow> string \<Rightarrow> string \<Rightarrow> string list \<Rightarrow> fs \<Rightarrow> (u8 list, cmd_error) res \<times> fs" where
  "run_checked env program dir args fs =
     (case run_command env program dir args fs of
        (None, fs) \<Rightarrow> (Err (NotExecuted program), fs)
      | (Some output, fs) \<Rightarrow>
          if \<not> exec_success output then
            (case decode_utf8 (exec_stdout output) of
               None \<Rightarrow> (Err NotUtf8, fs)
             | Some t \<Rightarrow> (Err (ProcessFailed t), fs))
          else (Ok (exec_stdout output), fs))"

text \<open>
  A temporary file with some contents exists during the body and is deleted afterwards; \<open>n\<close> counts the
  temporary files that exist at the same time.
\<close>

definition with_temp_file ::
    "host_env \<Rightarrow> nat \<Rightarrow> u8 list \<Rightarrow> (string \<Rightarrow> fs \<Rightarrow> ('a, cmd_error) res \<times> fs) \<Rightarrow> fs \<Rightarrow> ('a, cmd_error) res \<times> fs" where
  "with_temp_file env n contents body fs =
     (let path = temp_file env n in
      case body path (fs(path \<mapsto> contents)) of (r, fs) \<Rightarrow> (r, fs(path := None)))"

text \<open>\<open>std::fs::read_to_string\<close>, as the bytes of the string.\<close>

definition fs_read_to_string :: "string \<Rightarrow> fs \<Rightarrow> (u8 list, cmd_error) res" where
  "fs_read_to_string path fs =
     res_bind (map_err ToolError (fs_read path fs)) (\<lambda>bs. if decode_utf8 bs = None then Err NotUtf8 else Ok bs)"

section \<open>Laws of the environment\<close>

text \<open>
  Programs are given the file to write as their last argument and change no other, and a program
  that succeeds has written it.
\<close>

definition writes_last :: "host_env \<Rightarrow> bool" where
  "writes_last env \<longleftrightarrow>
     (\<forall>program dir args fs r fs'. run_command env program dir args fs = (r, fs') \<longrightarrow>
        (\<forall>p. p \<noteq> last args \<longrightarrow> fs' p = fs p) \<and>
        (\<forall>out. r = Some out \<longrightarrow> exec_success out \<longrightarrow> fs' (last args) \<noteq> None))"

lemma run_checked_effect:
  assumes "writes_last env" and "run_checked env program dir args fs = (r, fs')"
  shows "(\<forall>p. p \<noteq> last args \<longrightarrow> fs' p = fs p) \<and> (\<forall>out. r = Ok out \<longrightarrow> fs' (last args) \<noteq> None) \<and> r \<noteq> Panic"
proof -
  obtain out fs1 where run: "run_command env program dir args fs = (out, fs1)" by fastforce
  have "(\<forall>p. p \<noteq> last args \<longrightarrow> fs1 p = fs p) \<and> (\<forall>o'. out = Some o' \<longrightarrow> exec_success o' \<longrightarrow> fs1 (last args) \<noteq> None)"
    using assms(1) run unfolding writes_last_def by blast
  with assms(2) run show ?thesis
    by (cases out) (auto simp: run_checked_def split: if_splits option.splits)
qed

text \<open>A body that leaves its temporary file alone changes what it changes, and nothing else.\<close>

lemma with_temp_file_eq:
  assumes "with_temp_file env n contents body fs = (r, fs')"
  obtains fs2 where "body (temp_file env n) (fs(temp_file env n \<mapsto> contents)) = (r, fs2)"
    "fs' = fs2(temp_file env n := None)"
  using assms by (auto simp: with_temp_file_def Let_def split: prod.splits)

end
