(* ===== verification/Tool_Keys.thy ===== *)
theory Tool_Keys
  imports Tool_Host
begin

text \<open>
  Key material of the host tool: the OTP master key (\<open>generate\<close> and \<open>get_otp\<close> of \<open>processors/otp.rs\<close>) and
  the keys and certificates of the configured chains (\<open>processors/certificates.rs\<close>), made by running
  \<open>nxpcrypto\<close>.
\<close>

section \<open>The OTP key\<close>

definition get_otp :: "config \<Rightarrow> fs \<Rightarrow> (otp, cmd_error) res" where
  "get_otp config fs =
     res_bind (fs_read_to_string (otp_path config) fs) (\<lambda>otp_hex_str. map_err HexError (otp_from_hex otp_hex_str))"

definition otp_generate :: "host_env \<Rightarrow> config \<Rightarrow> fs \<Rightarrow> (otp, cmd_error) res \<times> fs" where
  "otp_generate env config fs =
     (if fs (otp_path config) \<noteq> None then (get_otp config fs, fs)
      else (let k = Otp (random_32 env) in (Ok k, fs(otp_path config \<mapsto> otp_as_hex k))))"

section \<open>Certificates\<close>

definition generate_private_key ::
    "host_env \<Rightarrow> string \<Rightarrow> certificate_prototype \<Rightarrow> fs \<Rightarrow> (unit, cmd_error) res \<times> fs" where
  "generate_private_key env nxpcrypto prototype fs =
     (let out = proto_key_path prototype in
      if fs out \<noteq> None then (Ok (), fs)
      else
        and_then (run_checked env nxpcrypto ''.''
          [''key'', ''generate'', ''-k'', key_type_as_str (proto_key_type prototype), ''-e'', ''PEM'', ''-o'', out] fs)
          (\<lambda>_ fs. (Ok (), fs)))"

definition generate_certificate ::
    "host_env \<Rightarrow> string \<Rightarrow> certificate \<Rightarrow> certificate option \<Rightarrow> bool \<Rightarrow> fs \<Rightarrow> (unit, cmd_error) res \<times> fs" where
  "generate_certificate env nxpcrypto cert parent_certificate is_leaf fs =
     (case certificate_proto cert of
        None \<Rightarrow> (Err (MissingPrototype (certificate_path cert)), fs)
      | Some prototype \<Rightarrow>
          and_then
            (case parent_certificate of
               Some parent \<Rightarrow>
                 (case certificate_proto parent of
                    None \<Rightarrow> (Err (MissingPrototype (certificate_path cert)), fs)
                  | Some parent_prototype \<Rightarrow> (Ok (proto_key_path parent_prototype), fs))
             | None \<Rightarrow> (Ok (proto_key_path prototype), fs))
            (\<lambda>issuer fs.
               let input = \<lparr>issuer_private_key = issuer, subject_public_key = proto_key_path prototype,
                            constraint_ca = \<not> is_leaf\<rparr>
               in with_temp_file env 0 (certificate_json env input) (\<lambda>input_file fs.
                    let out = certificate_path cert in
                    if fs out \<noteq> None then (Ok (), fs)
                    else
                      and_then (run_checked env nxpcrypto ''.''
                        [''cert'', ''generate'', ''-e'', ''PEM'', ''-c'', input_file, ''-o'', out] fs)
                        (\<lambda>_ fs. (Ok (), fs))) fs))"

definition generate_single ::
    "host_env \<Rightarrow> string \<Rightarrow> certificate \<Rightarrow> certificate option \<Rightarrow> bool \<Rightarrow> fs \<Rightarrow> (unit, cmd_error) res \<times> fs" where
  "generate_single env nxpcrypto cert parent_certificate is_leaf fs =
     (case certificate_proto cert of
        None \<Rightarrow> (Err (MissingPrototype (certificate_path cert)), fs)
      | Some prototype \<Rightarrow>
          and_then (generate_private_key env nxpcrypto prototype fs) (\<lambda>_ fs.
          generate_certificate env nxpcrypto cert parent_certificate is_leaf fs))"

text \<open>The loop over a chain and the loop over the chains.\<close>

fun generate_chain ::
    "host_env \<Rightarrow> string \<Rightarrow> certificate option \<Rightarrow> certificate list \<Rightarrow> fs \<Rightarrow> (unit, cmd_error) res \<times> fs" where
  "generate_chain env nxpcrypto parent [] fs = (Ok (), fs)"
| "generate_chain env nxpcrypto parent (cert # rest) fs =
     and_then (generate_single env nxpcrypto cert parent (rest = []) fs) (\<lambda>_ fs.
     generate_chain env nxpcrypto (Some cert) rest fs)"

fun generate_chains :: "host_env \<Rightarrow> string \<Rightarrow> certificate_chain list \<Rightarrow> fs \<Rightarrow> (unit, cmd_error) res \<times> fs" where
  "generate_chains env nxpcrypto [] fs = (Ok (), fs)"
| "generate_chains env nxpcrypto (chain # rest) fs =
     and_then (generate_chain env nxpcrypto None chain fs) (\<lambda>_ fs. generate_chains env nxpcrypto rest fs)"

definition certificates_generate ::
    "host_env \<Rightarrow> generate_certificates_arguments \<Rightarrow> config \<Rightarrow> fs \<Rightarrow> (unit, cmd_error) res \<times> fs" where
  "certificates_generate env args config fs =
     generate_chains env (nxpcrypto_path args) (config_certificates config) fs"

section \<open>Lemmas\<close>

lemma decode_utf8_ascii_bytes: "\<forall>b \<in> set bs. b < 0x80 \<Longrightarrow> \<exists>t. decode_utf8 bs = Some t"
  by (induction bs) auto

lemma generate_hex_ascii: "\<exists>t. decode_utf8 (generate_hex bs) = Some t"
proof (rule decode_utf8_ascii_bytes)
  have "hex_char d < 0x80" if "d < 16" for d using hex_char_cases(2) [OF that] .
  moreover have "unat b div 16 < 16" "unat b mod 16 < 16" for b :: u8 using unat_u8_less [of b] by linarith+
  ultimately show "\<forall>b \<in> set (generate_hex bs). b < 0x80"
    by (auto simp: generate_hex_eq format_02X_def)
qed

text \<open>The files a chain needs: the key and the certificate of every member.\<close>

definition chain_files :: "certificate list \<Rightarrow> string set" where
  "chain_files chain = {p. \<exists>c \<in> set chain. p = certificate_path c \<or>
     (\<exists>proto. certificate_proto c = Some proto \<and> p = proto_key_path proto)}"

definition all_prototyped :: "certificate list \<Rightarrow> bool" where
  "all_prototyped chain \<longleftrightarrow> (\<forall>c \<in> set chain. certificate_proto c \<noteq> None)"

lemma chain_files_Cons:
  "chain_files (c # cs) = {certificate_path c} \<union> proto_key_path ` set_option (certificate_proto c) \<union> chain_files cs"
  by (auto simp: chain_files_def)

text \<open>
  What a run keeps of the files, and what it leaves when it succeeds: only missing files among \<open>files\<close>
  change, and afterwards none of them is missing.
\<close>

definition makes :: "string set \<Rightarrow> fs \<Rightarrow> (unit, cmd_error) res \<Rightarrow> fs \<Rightarrow> bool" where
  "makes files fs r fs' \<longleftrightarrow> (\<forall>p. fs p \<noteq> None \<or> p \<notin> files \<longrightarrow> fs' p = fs p) \<and> r \<noteq> Panic \<and>
     (r = Ok () \<longrightarrow> (\<forall>p \<in> files. fs' p \<noteq> None))"

lemma makes_then:
  assumes "makes A fs (Ok ()) fs1" and "makes B fs1 r fs'"
  shows "makes (A \<union> B) fs r fs'"
proof -
  have "fs' p = fs p" if "fs p \<noteq> None \<or> p \<notin> A \<union> B" for p
    using that assms unfolding makes_def by (metis UnCI)
  moreover have "fs' p \<noteq> None" if "r = Ok ()" "p \<in> A \<union> B" for p
    using that assms unfolding makes_def by (metis UnE)
  ultimately show ?thesis using assms(2) unfolding makes_def by blast
qed

lemma makes_stop: "makes A fs (Err e) fs' \<Longrightarrow> A \<subseteq> B \<Longrightarrow> makes B fs (Err e) fs'"
  by (auto simp: makes_def)

lemma makes_not_Panic: "makes A fs r fs' \<Longrightarrow> r \<noteq> Panic"
  by (simp add: makes_def)

text \<open>Two runs after each other, as \<open>?\<close> composes them.\<close>

lemma makes_seq:
  assumes "and_then (r1, fs1) (\<lambda>_ fs. k fs) = (r, fs')" and "makes A fs r1 fs1"
    and "\<And>r2 fs2. r1 = Ok () \<Longrightarrow> k fs1 = (r2, fs2) \<Longrightarrow> makes B fs1 r2 fs2"
  shows "makes (A \<union> B) fs r fs'"
proof (cases r1)
  case (Ok u)
  obtain r2 fs2 where k: "k fs1 = (r2, fs2)" by fastforce
  with assms Ok show ?thesis using makes_then [of A fs fs1 B r2 fs2] by simp
next
  case (Err e)
  with assms(1,2) show ?thesis using makes_stop [of A fs e fs1 "A \<union> B"] by simp
next
  case Panic
  with assms(2) show ?thesis by (simp add: makes_def)
qed

text \<open>Both generators make a file by running a program, unless the file exists.\<close>

lemma make_missing:
  assumes "writes_last env" and "last args = out"
    and "(if fs out \<noteq> None then (Ok (), fs)
          else and_then (run_checked env program dir args fs) (\<lambda>_ fs. (Ok (), fs))) = (r, fs')"
  shows "makes {out} fs r fs'"
proof (cases "fs out = None")
  case True
  obtain r1 fs1 where run: "run_checked env program dir args fs = (r1, fs1)" by fastforce
  note eff = run_checked_effect [OF assms(1) run, unfolded assms(2)]
  have "fs1 p = fs p" if "fs p \<noteq> None \<or> p \<notin> {out}" for p
    using that True eff by (cases "p = out") auto
  with eff assms(3) True run show ?thesis by (cases r1) (auto simp: makes_def)
qed (use assms(3) in \<open>auto simp: makes_def\<close>)

lemma private_key_makes:
  assumes "writes_last env" and "generate_private_key env nxpcrypto proto fs = (r, fs')"
  shows "makes {proto_key_path proto} fs r fs'"
  by (rule make_missing [OF assms(1) _ assms(2) [unfolded generate_private_key_def Let_def]]) simp

lemma certificate_makes:
  assumes env: "writes_last env" "temp_file env 0 \<noteq> certificate_path cert" "fs (temp_file env 0) = None"
    and run: "generate_certificate env nxpcrypto cert parent is_leaf fs = (r, fs')"
  shows "makes {certificate_path cert} fs r fs'"
proof -
  let ?out = "certificate_path cert" and ?t = "temp_file env 0"
  define body where "body t fs =
    (if fs ?out \<noteq> None then (Ok (), fs)
     else and_then (run_checked env nxpcrypto ''.'' [''cert'', ''generate'', ''-e'', ''PEM'', ''-c'', t, ''-o'', ?out] fs)
       (\<lambda>_ fs. (Ok (), fs)))" for t and fs :: fs
  consider (stop) e where "r = Err e" "fs' = fs" | (go) contents where "with_temp_file env 0 contents body fs = (r, fs')"
    using run unfolding generate_certificate_def body_def [abs_def, symmetric] Let_def
    by (auto split: option.splits)
  then show ?thesis
  proof cases
    case go
    then obtain fs2 where b: "body ?t (fs(?t \<mapsto> contents)) = (r, fs2)" "fs' = fs2(?t := None)"
      by (rule with_temp_file_eq)
    have "makes {?out} (fs(?t \<mapsto> contents)) r fs2"
      by (rule make_missing [OF env(1) _ b(1) [unfolded body_def]]) simp
    with env(2,3) b(2) show ?thesis unfolding makes_def by (metis fun_upd_apply singletonD singletonI)
  qed (simp add: makes_def)
qed

lemma single_makes:
  assumes env: "writes_last env" "temp_file env 0 \<notin> chain_files [cert]" "fs (temp_file env 0) = None"
    and run: "generate_single env nxpcrypto cert parent is_leaf fs = (r, fs')"
  shows "makes (chain_files [cert]) fs r fs' \<and> (r = Ok () \<longrightarrow> certificate_proto cert \<noteq> None)"
proof (cases "certificate_proto cert")
  case None
  with run show ?thesis by (auto simp: generate_single_def makes_def)
next
  case (Some proto)
  have files: "chain_files [cert] = {proto_key_path proto} \<union> {certificate_path cert}"
    using Some by (auto simp: chain_files_def)
  obtain r1 fs1 where k: "generate_private_key env nxpcrypto proto fs = (r1, fs1)" by fastforce
  note K = private_key_makes [OF env(1) k]
  have t: "temp_file env 0 \<noteq> certificate_path cert" "fs1 (temp_file env 0) = None"
    using K env(2,3) files by (auto simp: makes_def)
  have "and_then (r1, fs1) (\<lambda>_ fs. generate_certificate env nxpcrypto cert parent is_leaf fs) = (r, fs')"
    using run Some k by (simp add: generate_single_def)
  then have "makes ({proto_key_path proto} \<union> {certificate_path cert}) fs r fs'"
    by (rule makes_seq [OF _ K]) (rule certificate_makes [where fs = fs1, OF env(1) t])
  with Some files show ?thesis by simp
qed

lemma chain_makes:
  assumes env: "writes_last env"
  shows "temp_file env 0 \<notin> chain_files chain \<Longrightarrow> fs (temp_file env 0) = None \<Longrightarrow>
    generate_chain env nxpcrypto parent chain fs = (r, fs') \<Longrightarrow>
    makes (chain_files chain) fs r fs' \<and> (r = Ok () \<longrightarrow> all_prototyped chain)"
proof (induction chain arbitrary: parent fs r fs')
  case Nil
  then show ?case by (auto simp: makes_def chain_files_def all_prototyped_def)
next
  case (Cons c cs)
  have files: "chain_files (c # cs) = chain_files [c] \<union> chain_files cs" by (auto simp: chain_files_def)
  obtain r1 fs1 where s: "generate_single env nxpcrypto c parent (cs = []) fs = (r1, fs1)" by fastforce
  have S: "makes (chain_files [c]) fs r1 fs1" "r1 = Ok () \<longrightarrow> certificate_proto c \<noteq> None"
    using single_makes [OF env _ Cons.prems(2) s] Cons.prems(1) files by auto
  have t: "temp_file env 0 \<notin> chain_files cs" "fs1 (temp_file env 0) = None"
    using S(1) Cons.prems(1,2) files by (auto simp: makes_def)
  have rest: "makes (chain_files cs) fs1 r2 fs2 \<and> (r2 = Ok () \<longrightarrow> all_prototyped cs)"
    if "generate_chain env nxpcrypto (Some c) cs fs1 = (r2, fs2)" for r2 fs2
    using Cons.IH [OF t that] .
  have run: "and_then (r1, fs1) (\<lambda>_ fs. generate_chain env nxpcrypto (Some c) cs fs) = (r, fs')"
    using Cons.prems(3) s by simp
  from makes_seq [OF run S(1)] rest have "makes (chain_files (c # cs)) fs r fs'" unfolding files by blast
  moreover have "all_prototyped (c # cs)" if "r = Ok ()"
    using run that S(2) rest by (cases r1) (auto simp: all_prototyped_def)
  ultimately show ?case by blast
qed

lemma chain_done:
  "fs (temp_file env 0) = None \<Longrightarrow> all_prototyped chain \<Longrightarrow> \<forall>p \<in> chain_files chain. fs p \<noteq> None \<Longrightarrow>
    (\<And>q. parent = Some q \<Longrightarrow> certificate_proto q \<noteq> None) \<Longrightarrow> generate_chain env nxpcrypto parent chain fs = (Ok (), fs)"
proof (induction chain arbitrary: parent)
  case (Cons c cs)
  obtain proto where proto: "certificate_proto c = Some proto" using Cons.prems(2) by (auto simp: all_prototyped_def)
  have here: "fs (proto_key_path proto) \<noteq> None" "fs (certificate_path c) \<noteq> None"
    using Cons.prems(3) proto by (auto simp: chain_files_def)
  have "with_temp_file env 0 contents
      (\<lambda>input_file fs. if fs (certificate_path c) \<noteq> None then (Ok (), fs) else k input_file fs) fs = (Ok (), fs)" for contents k
    using here(2) Cons.prems(1) by (auto simp: with_temp_file_def Let_def)
  moreover obtain issuer where "(case parent of
       Some parent \<Rightarrow> (case certificate_proto parent of None \<Rightarrow> (Err (MissingPrototype (certificate_path c)), fs)
         | Some parent_prototype \<Rightarrow> (Ok (proto_key_path parent_prototype), fs))
     | None \<Rightarrow> (Ok (proto_key_path proto), fs)) = (Ok issuer, fs)"
    using Cons.prems(4) by (cases parent) auto
  ultimately have "generate_certificate env nxpcrypto c parent (cs = []) fs = (Ok (), fs)"
    using proto by (simp add: generate_certificate_def Let_def)
  with here(1) proto have "generate_single env nxpcrypto c parent (cs = []) fs = (Ok (), fs)"
    by (simp add: generate_single_def generate_private_key_def)
  moreover have "generate_chain env nxpcrypto (Some c) cs fs = (Ok (), fs)"
    using Cons.prems proto by (intro Cons.IH) (auto simp: all_prototyped_def chain_files_def)
  ultimately show ?case by simp
qed simp

lemma chains_make:
  assumes env: "writes_last env"
  shows "temp_file env 0 \<notin> chain_files (concat css) \<Longrightarrow> fs (temp_file env 0) = None \<Longrightarrow>
    generate_chains env nxpcrypto css fs = (r, fs') \<Longrightarrow>
    makes (chain_files (concat css)) fs r fs' \<and> (r = Ok () \<longrightarrow> all_prototyped (concat css))"
proof (induction css arbitrary: fs r fs')
  case Nil
  then show ?case by (auto simp: makes_def chain_files_def all_prototyped_def)
next
  case (Cons c cs)
  have files: "chain_files (concat (c # cs)) = chain_files c \<union> chain_files (concat cs)" by (auto simp: chain_files_def)
  obtain r1 fs1 where s: "generate_chain env nxpcrypto None c fs = (r1, fs1)" by fastforce
  have S: "makes (chain_files c) fs r1 fs1" "r1 = Ok () \<longrightarrow> all_prototyped c"
    using chain_makes [OF env _ Cons.prems(2) s] Cons.prems(1) files by auto
  have t: "temp_file env 0 \<notin> chain_files (concat cs)" "fs1 (temp_file env 0) = None"
    using S(1) Cons.prems(1,2) files by (auto simp: makes_def)
  have rest: "makes (chain_files (concat cs)) fs1 r2 fs2 \<and> (r2 = Ok () \<longrightarrow> all_prototyped (concat cs))"
    if "generate_chains env nxpcrypto cs fs1 = (r2, fs2)" for r2 fs2
    using Cons.IH [OF t that] .
  have run: "and_then (r1, fs1) (\<lambda>_ fs. generate_chains env nxpcrypto cs fs) = (r, fs')"
    using Cons.prems(3) s by simp
  from makes_seq [OF run S(1)] rest have "makes (chain_files (concat (c # cs))) fs r fs'" unfolding files by blast
  moreover have "all_prototyped (concat (c # cs))" if "r = Ok ()"
    using run that S(2) rest by (cases r1) (auto simp: all_prototyped_def)
  ultimately show ?case by blast
qed

lemma chains_done:
  "fs (temp_file env 0) = None \<Longrightarrow> all_prototyped (concat css) \<Longrightarrow> \<forall>p \<in> chain_files (concat css). fs p \<noteq> None \<Longrightarrow>
    generate_chains env nxpcrypto css fs = (Ok (), fs)"
proof (induction css)
  case (Cons c cs)
  have files: "chain_files (concat (c # cs)) = chain_files c \<union> chain_files (concat cs)" by (auto simp: chain_files_def)
  have "generate_chain env nxpcrypto None c fs = (Ok (), fs)"
    by (rule chain_done) (use Cons.prems files in \<open>auto simp: all_prototyped_def\<close>)
  moreover have "generate_chains env nxpcrypto cs fs = (Ok (), fs)"
    by (rule Cons.IH) (use Cons.prems files in \<open>auto simp: all_prototyped_def\<close>)
  ultimately show ?case by simp
qed simp

section \<open>Properties\<close>

text \<open>
  C31. Key material is never overwritten: with programs that write only the file they are told to, and a
  temporary file of its own, generating the keys and certificates changes no file that existed and no
  file that is not configured, also when it fails half way; when it succeeds, the key and the
  certificate of every configured member exist, and running it again changes nothing.
\<close>

theorem certificates_generate_safe:
  assumes "writes_last env" and "fs (temp_file env 0) = None"
    and "temp_file env 0 \<notin> chain_files (concat (config_certificates config))"
    and "certificates_generate env args config fs = (r, fs')"
  shows "(\<forall>p. fs p \<noteq> None \<or> p \<notin> chain_files (concat (config_certificates config)) \<longrightarrow> fs' p = fs p) \<and> r \<noteq> Panic \<and>
    (r = Ok () \<longrightarrow> (\<forall>p \<in> chain_files (concat (config_certificates config)). fs' p \<noteq> None) \<and>
       certificates_generate env args config fs' = (Ok (), fs'))"
proof -
  note eff = chains_make [OF assms(1,3,2) assms(4) [unfolded certificates_generate_def]]
  moreover from eff assms(2,3) have "fs' (temp_file env 0) = None" by (auto simp: makes_def)
  ultimately show ?thesis
    using chains_done [of fs' env "config_certificates config" "nxpcrypto_path args"]
    by (auto simp: makes_def certificates_generate_def)
qed

text \<open>An environment whose programs write an empty file.\<close>

definition touch_env :: host_env where
  "touch_env =
     \<lparr>run_command = (\<lambda>_ _ args fs. (Some \<lparr>exec_success = True, exec_stdout = []\<rparr>, fs(last args \<mapsto> []))),
      temp_file = (\<lambda>n. replicate (Suc n) (CHR ''t'')),
      random_32 = replicate 32 7,
      certificate_json = (\<lambda>_. []),
      cert_block_json = (\<lambda>_. []),
      canonicalize = (\<lambda>_ _. None),
      current_dir = ''/work''\<rparr>"

lemma touch_env_writes: "writes_last touch_env"
  by (auto simp: writes_last_def touch_env_def)

theorem certificates_generate_safe_witness:
  "\<exists>fs'. certificates_generate touch_env \<lparr>nxpcrypto_path = ''nxpcrypto'', generate_nxpimage_path = ''nxpimage''\<rparr>
       shipped_config Map.empty = (Ok (), fs') \<and> fs' ''./artifacts/cert-img1.pem'' \<noteq> None"
proof -
  let ?args = "\<lparr>nxpcrypto_path = ''nxpcrypto'', generate_nxpimage_path = ''nxpimage''\<rparr>"
  have t: "(Map.empty :: fs) (temp_file touch_env 0) = None"
    "temp_file touch_env 0 \<notin> chain_files (concat (config_certificates shipped_config))"
    by (simp_all add: touch_env_def chain_files_def shipped_config_def)
  have "\<exists>fs'. certificates_generate touch_env ?args shipped_config Map.empty = (Ok (), fs')"
    by (simp add: certificates_generate_def shipped_config_def generate_single_def generate_private_key_def
        generate_certificate_def with_temp_file_def run_checked_def touch_env_def)
  then obtain fs' where run: "certificates_generate touch_env ?args shipped_config Map.empty = (Ok (), fs')" by blast
  have "''./artifacts/cert-img1.pem'' \<in> chain_files (concat (config_certificates shipped_config))"
    by (simp add: chain_files_def shipped_config_def)
  with certificates_generate_safe [OF touch_env_writes t run] run show ?thesis by blast
qed

text \<open>
  C35. The OTP key is made once: generating it on a machine without one succeeds and writes the file
  from which every later command reads the same key; where the file exists it is left as it is.
\<close>

theorem otp_generate_stable:
  assumes "length (random_32 env) = 32"
  shows "(fs (otp_path config) = None \<longrightarrow> (\<exists>k fs'. otp_generate env config fs = (Ok k, fs') \<and>
       get_otp config fs' = Ok k \<and> otp_generate env config fs' = (Ok k, fs') \<and>
       (\<forall>p. p \<noteq> otp_path config \<longrightarrow> fs' p = fs p))) \<and>
    (fs (otp_path config) \<noteq> None \<longrightarrow> otp_generate env config fs = (get_otp config fs, fs))"
proof -
  let ?k = "Otp (random_32 env)" and ?fs = "fs(otp_path config \<mapsto> otp_as_hex (Otp (random_32 env)))"
  obtain t where "decode_utf8 (otp_as_hex ?k) = Some t" using generate_hex_ascii by (auto simp: otp_as_hex_def)
  then have "get_otp config ?fs = Ok ?k"
    using assms by (simp add: get_otp_def fs_read_to_string_def fs_read_def otp_from_hex_def otp_as_hex_def
        parse_generate_hex try_into_32_def)
  then show ?thesis by (auto simp: otp_generate_def Let_def)
qed

theorem otp_generate_stable_witness:
  "\<exists>k fs'. otp_generate touch_env shipped_config Map.empty = (Ok k, fs') \<and> get_otp shipped_config fs' = Ok k"
proof -
  have "length (random_32 touch_env) = 32" by (simp add: touch_env_def)
  from otp_generate_stable [OF this, of Map.empty shipped_config] show ?thesis by auto
qed

end
