(* ===== verification/Cert_Generate.thy ===== *)
theory Cert_Generate
  imports Tool_Boot Tool_Keys
begin

text \<open>
  The part of \<open>processors/mbi/cert_block.rs\<close> that makes a certificate block: the configuration for
  \<open>nxpimage\<close> out of the configured chains (\<open>generate_config\<close>), the run of \<open>nxpimage\<close>, the root key table
  hash read from what it prints, and the check of the block it wrote (\<open>generate\<close>).
\<close>

section \<open>The configuration for nxpimage\<close>

text \<open>\<open>{}\<close> of a \<open>usize\<close>: its decimal digits.\<close>

definition digit_char :: "nat \<Rightarrow> char" where
  "digit_char d = char_of (48 + d)"

fun display_nat :: "nat \<Rightarrow> string" where
  "display_nat n = (if n < 10 then [digit_char n] else display_nat (n div 10) @ [digit_char (n mod 10)])"

declare display_nat.simps [simp del]

definition canonicalize_or_leave :: "host_env \<Rightarrow> string \<Rightarrow> fs \<Rightarrow> string" where
  "canonicalize_or_leave env path fs = (case canonicalize env path fs of Some p \<Rightarrow> p | None \<Rightarrow> path)"

definition certificate_name :: "nat \<Rightarrow> nat \<Rightarrow> string" where
  "certificate_name chain_i cert_i =
     (if cert_i = 0 then ''rootCertificate'' @ display_nat chain_i @ ''File''
      else ''chainCertificate'' @ display_nat chain_i @ ''File'' @ display_nat (cert_i - 1))"

text \<open>The two nested loops with their \<open>enumerate\<close> counters, inserting into the map.\<close>

fun insert_chain ::
    "host_env \<Rightarrow> fs \<Rightarrow> nat \<Rightarrow> nat \<Rightarrow> certificate list \<Rightarrow> (string \<rightharpoonup> string) \<Rightarrow> (string \<rightharpoonup> string)" where
  "insert_chain env fs chain_i cert_i [] m = m"
| "insert_chain env fs chain_i cert_i (cert # rest) m =
     insert_chain env fs chain_i (Suc cert_i) rest
       (m(certificate_name chain_i cert_i \<mapsto> canonicalize_or_leave env (certificate_path cert) fs))"

fun insert_chains ::
    "host_env \<Rightarrow> fs \<Rightarrow> nat \<Rightarrow> certificate_chain list \<Rightarrow> (string \<rightharpoonup> string) \<Rightarrow> (string \<rightharpoonup> string)" where
  "insert_chains env fs chain_i [] m = m"
| "insert_chains env fs chain_i (chain # rest) m =
     insert_chains env fs (Suc chain_i) rest (insert_chain env fs chain_i 0 chain m)"

definition generate_config :: "host_env \<Rightarrow> config \<Rightarrow> nat \<Rightarrow> string option \<Rightarrow> fs \<Rightarrow> cert_block_config" where
  "generate_config env config idx output_file fs =
     \<lparr>family = ''mimxrt685s'', revision = ''latest'',
      block_certificates = insert_chains env fs 0 (config_certificates config) Map.empty,
      main_root_cert_id = idx, container_output_file = output_file\<rparr>"

section \<open>Running nxpimage\<close>

definition cert_block_from_file ::
    "('c, 'k) crypto \<Rightarrow> string \<Rightarrow> rkth option \<Rightarrow> fs \<Rightarrow> (cert_block, tool_error) res" where
  "cert_block_from_file C filename expected fs =
     res_bind (fs_read filename fs) (cert_block_from_bytes C expected)"

text \<open>The hash printed by \<open>nxpimage\<close>: the first line that mentions it.\<close>

definition parse_rkth :: "u8 list \<Rightarrow> (rkth, cmd_error) res" where
  "parse_rkth stdout =
     res_bind (ok_or NotUtf8 (decode_utf8 stdout)) (\<lambda>t.
     res_bind (ok_or RkthNotPrinted (find (contains (ascii ''RKTH'')) (lines t))) (\<lambda>line.
     map_err HexError (rkth_from_hex (encode_utf8 (trim_start_matches (ascii ''RKTH: '') (trim line))))))"

definition cert_block_generate ::
    "('c, 'k) crypto \<Rightarrow> host_env \<Rightarrow> string \<Rightarrow> config \<Rightarrow> nat \<Rightarrow> fs \<Rightarrow> (cert_block, cmd_error) res \<times> fs" where
  "cert_block_generate C env nxpimage config idx fs =
     with_temp_file env 0 [] (\<lambda>input_file.
     with_temp_file env 1 [] (\<lambda>output_file fs.
       let fs = fs(input_file \<mapsto> cert_block_json env (generate_config env config idx (Some output_file) fs)) in
       and_then (run_checked env nxpimage ''.'' [''cert-block'', ''export'', ''-c'', input_file] fs) (\<lambda>stdout fs.
       and_then (parse_rkth stdout, fs) (\<lambda>rkth fs.
       (map_err ToolError (cert_block_from_file C output_file (Some rkth) fs), fs))))) fs"

section \<open>Lemmas on names\<close>

definition digits_value :: "string \<Rightarrow> nat" where
  "digits_value s = foldl (\<lambda>a c. 10 * a + (of_char c - 48)) 0 s"

lemma digit_char_value: "d < 10 \<Longrightarrow> of_char (digit_char d) = (48 + d :: nat)"
  by (simp add: digit_char_def)

lemma display_nat_value: "digits_value (display_nat n) = n"
proof (induction n rule: display_nat.induct)
  case (1 n)
  then show ?case
    by (subst display_nat.simps) (auto simp: digits_value_def digit_char_value)
qed

lemma display_nat_inject [simp]: "display_nat m = display_nat n \<longleftrightarrow> m = n"
  using display_nat_value by metis

lemma display_nat_not_F: "c \<in> set (display_nat n) \<Longrightarrow> c \<noteq> CHR ''F''"
proof (induction n rule: display_nat.induct)
  case (1 n)
  have F: "digit_char d \<noteq> CHR ''F''" if "d < 10" for d
    using digit_char_value [OF that] that by auto
  from F [of "n mod 10"] F [of n] 1 show ?case
    by (subst (asm) (2) display_nat.simps) (auto split: if_splits)
qed

lemma takeWhile_display [simp]: "takeWhile (\<lambda>c. c \<noteq> CHR ''F'') (display_nat n @ CHR ''F'' # s) = display_nat n"
  using display_nat_not_F by (simp add: takeWhile_append2)

lemma display_append_inject: "display_nat m @ CHR ''F'' # s = display_nat n @ CHR ''F'' # t \<longleftrightarrow> m = n \<and> s = t"
  by (metis append_same_eq takeWhile_display display_nat_inject same_append_eq list.inject)

lemma certificate_name_inject [simp]: "certificate_name i j = certificate_name i' j' \<longleftrightarrow> i = i' \<and> j = j'"
  by (auto simp: certificate_name_def display_append_inject)

lemma insert_chain_name:
  "insert_chain env fs i k cs m (certificate_name i' j) =
     (if i' = i \<and> k \<le> j \<and> j < k + length cs
      then Some (canonicalize_or_leave env (certificate_path (cs ! (j - k))) fs) else m (certificate_name i' j))"
proof (induction cs arbitrary: k m)
  case (Cons c cs)
  then show ?case by (cases "j = k") (auto simp: nth_Cons')
qed auto

lemma insert_chain_other:
  "(\<And>j. name \<noteq> certificate_name i j) \<Longrightarrow> insert_chain env fs i k cs m name = m name"
  by (induction cs arbitrary: k m) auto

lemma insert_chains_name:
  "insert_chains env fs k css m (certificate_name i j) =
     (if k \<le> i \<and> i < k + length css \<and> j < length (css ! (i - k))
      then Some (canonicalize_or_leave env (certificate_path (css ! (i - k) ! j)) fs) else m (certificate_name i j))"
proof (induction css arbitrary: k m)
  case (Cons cs css)
  then show ?case by (cases "i = k") (auto simp: nth_Cons' insert_chain_name)
qed auto

lemma insert_chains_other:
  "(\<And>i j. name \<noteq> certificate_name i j) \<Longrightarrow> insert_chains env fs k css m name = m name"
  by (induction css arbitrary: k m) (auto simp: insert_chain_other)

section \<open>Lemmas on text\<close>

lemma contains_left: "contains pat xs \<Longrightarrow> contains pat (xs @ ys)"
proof (induction xs)
  case Nil
  then show ?case by (cases ys) simp_all
next
  case (Cons x xs)
  have "starts_with pat zs \<Longrightarrow> starts_with pat (zs @ ys)" for zs
    by (induction pat zs rule: starts_with.induct) simp_all
  from this [of "x # xs"] Cons show ?case by auto
qed

definition strip_cr :: "chars \<Rightarrow> chars" where
  "strip_cr l = (if l \<noteq> [] \<and> last l = 13 then butlast l else l)"

lemma split_lines_line:
  "10 \<notin> set l \<Longrightarrow> split_lines acc (l @ 10 # rest) = strip_cr (rev acc @ l) # split_lines [] rest"
proof (induction l arbitrary: acc)
  case Nil
  then show ?case by (cases acc) (simp_all add: strip_cr_def)
qed simp

lemma split_lines_last: "10 \<notin> set l \<Longrightarrow> split_lines acc l = (if rev acc @ l = [] then [] else [rev acc @ l])"
  by (induction l arbitrary: acc) auto

text \<open>The line that ends the text is taken as it is; one that is followed by a line feed loses a carriage return.\<close>

lemma find_line:
  assumes "\<forall>l \<in> set before. 10 \<notin> set l \<and> \<not> contains pat l" and "10 \<notin> set line" and "line \<noteq> []"
    and "rest = [] \<or> hd rest = 10" and "line' = (if rest = [] then line else strip_cr line)" and "contains pat line'"
  shows "find (contains pat) (lines (concat (map (\<lambda>l. l @ [10]) before) @ line @ rest)) = Some line'"
  using assms(1)
proof (induction before)
  case Nil
  then show ?case using assms(2-) by (cases rest) (simp_all add: lines_def split_lines_line split_lines_last)
next
  case (Cons l ls)
  have "\<not> contains pat (strip_cr l)"
    using Cons.prems contains_left [of pat "butlast l" "[last l]"]
    by (simp add: strip_cr_def) (metis append_butlast_last_id)
  with Cons show ?case by (simp add: lines_def split_lines_line)
qed

lemma trim_around:
  assumes "\<forall>c \<in> set xs \<union> set ys. is_whitespace c" and "t \<noteq> []" "\<not> is_whitespace (hd t)" "\<not> is_whitespace (last t)"
  shows "trim (xs @ t @ ys) = t"
proof -
  have "dropWhile is_whitespace (xs @ t @ ys) = t @ ys" using assms by (subst dropWhile_append2) (auto simp: dropWhile_eq_self_iff)
  moreover have "dropWhile is_whitespace (rev ys @ rev t) = rev t"
    using assms by (subst dropWhile_append2) (auto simp: dropWhile_eq_self_iff hd_rev)
  ultimately show ?thesis by (simp add: trim_def)
qed

section \<open>Printed hexadecimal digits\<close>

text \<open>
  What a program may print for a byte: its two hexadecimal digits, the more significant one first, each
  in either case. The definitions are over the digits themselves and independent of the parser.
\<close>

definition digit_for :: "nat \<Rightarrow> nat \<Rightarrow> bool" where
  "digit_for d c \<longleftrightarrow> c = ascii ''0123456789abcdef'' ! d \<or> c = ascii ''0123456789ABCDEF'' ! d"

fun hex_text :: "u8 list \<Rightarrow> chars \<Rightarrow> bool" where
  "hex_text [] [] \<longleftrightarrow> True"
| "hex_text (b # bs) (c # c' # t) \<longleftrightarrow>
     digit_for (unat b div 16) c \<and> digit_for (unat b mod 16) c' \<and> hex_text bs t"
| "hex_text _ _ \<longleftrightarrow> False"

lemma digit_for_codes:
  "digit_for d c \<longleftrightarrow> c = [48, 49, 50, 51, 52, 53, 54, 55, 56, 57, 97, 98, 99, 100, 101, 102] ! d \<or>
     c = [48, 49, 50, 51, 52, 53, 54, 55, 56, 57, 65, 66, 67, 68, 69, 70] ! d"
  by (simp add: digit_for_def ascii_def)

lemma digit_for_range:
  assumes "digit_for d c" and "d < 16"
  shows "c = 48 + d \<and> d < 10 \<or> c = 87 + d \<and> 10 \<le> d \<or> c = 55 + d \<and> 10 \<le> d"
proof -
  have "d \<in> {0, 1, 2, 3, 4, 5, 6, 7, 8, 9, 10, 11, 12, 13, 14, 15}"
    using assms(2) unfolding insert_iff empty_iff by presburger
  then show ?thesis using assms(1) unfolding digit_for_codes by (elim insertE emptyE; simp)
qed

lemma digit_for_cases:
  assumes "digit_for d c" and "d < 16"
  shows "hex_digit (of_nat c) = Some d" "0x30 \<le> c" "c < 0x80" "c \<noteq> 0x52"
proof -
  note range = digit_for_range [OF assms]
  then show "0x30 \<le> c" "c < 0x80" "c \<noteq> 0x52" using assms(2) by auto
  then have "unat (of_nat c :: u8) = c" by (simp add: unat_of_nat take_bit_nat_eq_self)
  with range assms(2) show "hex_digit (of_nat c) = Some d"
    by (auto simp: hex_digit_def word_le_nat_alt)
qed

lemma hex_text_append: "hex_text bs t \<Longrightarrow> hex_text (bs @ bs') (t @ t') \<longleftrightarrow> hex_text bs' t'"
  by (induction bs t rule: hex_text.induct) simp_all

lemma hex_text_replicate: "hex_text bs t \<Longrightarrow> hex_text (concat (replicate n bs)) (concat (replicate n t))"
  by (induction n) (simp_all add: hex_text_append)

lemma hex_text_chars: "hex_text bs t \<Longrightarrow> c \<in> set t \<Longrightarrow> 0x30 \<le> c \<and> c < 0x80 \<and> c \<noteq> 0x52"
proof (induction bs t rule: hex_text.induct)
  case (2 b bs c1 c2 t)
  have "unat b div 16 < 16" "unat b mod 16 < 16" using unat_u8_less [of b] by linarith+
  with 2 digit_for_cases(2-4) [of "unat b div 16" c1] digit_for_cases(2-4) [of "unat b mod 16" c2] show ?case by auto
qed simp_all

lemma encode_utf8_ascii: "\<forall>c \<in> set t. c < 0x80 \<Longrightarrow> encode_utf8 t = map of_nat t"
  by (induction t) (simp_all add: encode_utf8_def encode_char_def)

lemma from_str_radix_pair:
  assumes "digit_for (unat b div 16) c" and "digit_for (unat b mod 16) c'"
  shows "from_str_radix_16 [of_nat c, of_nat c'] = Some b" "valid_utf8_pair [of_nat c, of_nat c']"
proof -
  have lt: "unat b div 16 < 16" "unat b mod 16 < 16" using unat_u8_less [of b] by linarith+
  note d = digit_for_cases [OF assms(1) lt(1)] digit_for_cases [OF assms(2) lt(2)]
  then have "(of_nat c :: u8) \<noteq> 0x2b" by (auto simp: hex_digit_def)
  with d lt show "from_str_radix_16 [of_nat c, of_nat c'] = Some b" using unat_u8_less [of b] by simp
  show "valid_utf8_pair [of_nat c, of_nat c']"
    using d(3,7) by (simp add: valid_utf8_pair_def word_less_nat_alt unat_of_nat take_bit_nat_eq_self)
qed

lemma parse_hex_text: "hex_text bs t \<Longrightarrow> parse_hex (map of_nat t) = Ok bs"
proof (induction bs t rule: hex_text.induct)
  case (2 b bs c c' t)
  then have "from_str_radix_16 [of_nat c, of_nat c'] = Some b" "valid_utf8_pair [of_nat c, of_nat c']"
    using from_str_radix_pair [of b c c'] by (simp_all del: from_str_radix_16.simps)
  moreover have "chunks_exact 2 (of_nat c # of_nat c' # map of_nat t) =
      [of_nat c, of_nat c'] # chunks_exact 2 (map of_nat t :: u8 list)"
    using chunks_exact_append [of "[of_nat c, of_nat c']" 2] by simp
  ultimately show ?case using 2 by (simp add: parse_hex_def del: from_str_radix_16.simps)
qed (simp_all add: parse_hex_def)

lemma parse_rkth_line:
  assumes "decode_utf8 stdout =
      Some (concat (map (\<lambda>l. l @ [10]) before) @ indent @ ascii ''RKTH: '' @ digits @ trailing @ rest)"
    and before: "\<forall>l \<in> set before. 10 \<notin> set l \<and> \<not> contains (ascii ''RKTH'') l"
    and space: "\<forall>c \<in> set indent \<union> set trailing. is_whitespace c \<and> c \<noteq> 10" and rest: "rest = [] \<or> hd rest = 10"
    and digits: "hex_text bs digits" "length bs = 32"
  shows "parse_rkth stdout = Ok (Rkth bs)"
proof -
  let ?tag = "ascii ''RKTH: ''" and ?line = "indent @ ascii ''RKTH: '' @ digits @ trailing"
  have tag: "?tag = [82, 75, 84, 72, 58, 32]" by (simp add: ascii_def)
  have some: "digits \<noteq> []" using digits by (cases bs) auto
  have hex: "\<forall>c \<in> set digits. 0x30 \<le> c \<and> c < 0x80 \<and> c \<noteq> 0x52" using hex_text_chars [OF digits(1)] by blast
  then have ends: "0x30 \<le> last digits" "last digits < 0x80" "hd digits \<noteq> 0x52"
    using last_in_set [OF some] hd_in_set [OF some] by blast+
  define trailing' where "trailing' = (if rest = [] then trailing else strip_cr trailing)"
  have line': "(if rest = [] then ?line else strip_cr ?line) = indent @ ?tag @ digits @ trailing'"
    using some ends by (auto simp: trailing'_def strip_cr_def butlast_append)
  have "set trailing' \<subseteq> set trailing" by (auto simp: trailing'_def strip_cr_def dest: in_set_butlastD)
  then have space': "\<forall>c \<in> set indent \<union> set trailing'. is_whitespace c" using space by auto
  have "contains (ascii ''RKTH'') (indent @ ?tag @ digits @ trailing')"
    using contains_append [of "ascii ''RKTH''" indent "[58, 32] @ digits @ trailing'"] by (simp add: ascii_def)
  moreover have "10 \<notin> set ?line" using hex space by (auto simp: tag)
  ultimately have found: "find (contains (ascii ''RKTH'')) (lines (concat (map (\<lambda>l. l @ [10]) before) @ ?line @ rest)) =
      Some (indent @ ?tag @ digits @ trailing')"
    by (intro find_line [OF before _ _ rest line' [symmetric]]) (simp_all add: tag)
  have "trim (indent @ (?tag @ digits) @ trailing') = ?tag @ digits"
    using some ends by (intro trim_around [OF space']) (simp_all add: tag is_whitespace_def)
  moreover have "trim_start_matches ?tag (?tag @ digits) = digits"
    using some ends(3)
    by (subst trim_start_matches.simps, subst trim_start_matches.simps) (auto simp: tag neq_Nil_conv)
  moreover have "encode_utf8 digits = map of_nat digits" using hex by (intro encode_utf8_ascii) auto
  ultimately have "parse_rkth stdout = map_err HexError (rkth_from_hex (map of_nat digits))"
    using assms(1) found by (simp add: parse_rkth_def)
  with digits show ?thesis by (simp add: rkth_from_hex_def parse_hex_text try_into_32_def)
qed

text \<open>
  For the witnesses: an \<open>nxpimage\<close> that prints a hash of zeros behind a first line and writes the
  one-certificate block.
\<close>

definition nxp_stdout :: "u8 list" where
  "nxp_stdout = [79, 75, 10, 82, 75, 84, 72, 58, 32] @ concat (replicate 32 [48, 48]) @ [10]"

definition nxp_env :: host_env where
  "nxp_env = touch_env\<lparr>run_command :=
     (\<lambda>_ _ _ fs. (Some \<lparr>exec_success = True, exec_stdout = nxp_stdout\<rparr>, fs(''tt'' \<mapsto> cb_data (demo_block 0))))\<rparr>"

lemma nxp_temp_files: "temp_file nxp_env 0 = ''t''" "temp_file nxp_env 1 = ''tt''"
  by (simp_all add: nxp_env_def touch_env_def)

lemma decode_ascii_bytes: "\<forall>b \<in> set bs. b < 0x80 \<Longrightarrow> decode_utf8 bs = Some (map unat bs)"
  by (induction bs) auto

lemma parse_nxp_stdout: "parse_rkth nxp_stdout = Ok (Rkth (replicate 32 0))"
proof (rule parse_rkth_line [where before = "[[79, 75]]" and indent = "[]" and trailing = "[]" and rest = "[10]"])
  have "\<forall>b \<in> set nxp_stdout. b < 0x80" by (auto simp: nxp_stdout_def)
  from decode_ascii_bytes [OF this] show "decode_utf8 nxp_stdout =
     Some (concat (map (\<lambda>l. l @ [10]) [[79, 75]]) @ [] @ ascii ''RKTH: '' @ concat (replicate 32 [48, 48]) @ [] @ [10])"
    by (simp add: nxp_stdout_def ascii_def map_concat)
  have "concat (replicate n [x]) = replicate n x" for n and x :: u8 by (induction n) simp_all
  then show "hex_text (replicate 32 0) (concat (replicate 32 [48, 48]))"
    using hex_text_replicate [of "[0]" "[48, 48]" 32] by (simp add: digit_for_codes)
qed (simp_all add: ascii_def)

lemma demo_block_verified_hash:
  "cert_block_from_bytes demo_crypto (Some (Rkth (replicate 32 0))) (cb_data (demo_block 0)) = Ok (demo_block 0)"
proof -
  have "verify demo_crypto None (demo_block 0) = Ok ()" "unat (32 + 8 + 4 * 32 :: u32) = 168"
    "header_len (demo_block 0) = Ok 32" "cert_table_len (demo_block 0) = Ok 8"
    using demo_block_verified by (auto simp: cert_block_from_bytes_def Let_def outcome_iffs split: if_splits)
      (simp_all add: header_len_def cert_table_len_def field_u32_Ok demo_block_fields)
  moreover have "cert_block_rkth demo_crypto (demo_block 0) = Ok (Rkth (replicate 32 0))"
    by (simp add: cert_block_rkth_def demo_block_hashes) (simp add: demo_crypto_def)
  ultimately have "verify demo_crypto (Some (Rkth (replicate 32 0))) (demo_block 0) = Ok ()"
    by (auto simp: verify_def outcome_iffs)
  with \<open>header_len _ = _\<close> \<open>cert_table_len _ = _\<close> show ?thesis by (simp add: cert_block_from_bytes_def)
qed

lemma nxp_generate:
  "fs ''t'' = None \<Longrightarrow> fs ''tt'' = None \<Longrightarrow> cert_block_generate demo_crypto nxp_env nxpimage config idx fs = (Ok (demo_block 0), fs)"
  using parse_nxp_stdout
  by (auto simp: cert_block_generate_def with_temp_file_def run_checked_def nxp_env_def touch_env_def Let_def
      cert_block_from_file_def fs_read_def demo_block_verified_hash)

lemma cert_block_generate_run:
  assumes "cert_block_generate C env nxpimage config idx fs = (Ok cb, fs')" and "temp_file env 0 \<noteq> temp_file env 1"
  shows "\<exists>json stdout fs1 r padding.
    run_checked env nxpimage ''.'' [''cert-block'', ''export'', ''-c'', temp_file env 0]
      (fs(temp_file env 0 \<mapsto> json, temp_file env 1 \<mapsto> [])) = (Ok stdout, fs1) \<and>
    parse_rkth stdout = Ok r \<and> fs1 (temp_file env 1) = Some (cb_data cb @ padding) \<and>
    verify C (Some r) cb = Ok () \<and> cert_block_rkth C cb = Ok r \<and>
    fs' = fs1(temp_file env 0 := None, temp_file env 1 := None)"
proof -
  let ?t0 = "temp_file env 0" and ?t1 = "temp_file env 1"
  let ?json = "cert_block_json env (generate_config env config idx (Some ?t1) (fs(?t0 \<mapsto> [], ?t1 \<mapsto> [])))"
  have twist: "fs(?t0 \<mapsto> [], ?t1 \<mapsto> [], ?t0 \<mapsto> ?json) = fs(?t0 \<mapsto> ?json, ?t1 \<mapsto> [])" using assms(2) by auto
  obtain out fs1 where run: "run_checked env nxpimage ''.'' [''cert-block'', ''export'', ''-c'', ?t0]
      (fs(?t0 \<mapsto> ?json, ?t1 \<mapsto> [])) = (out, fs1)"
    by fastforce
  from assms(1) obtain stdout r where out: "out = Ok stdout" "parse_rkth stdout = Ok r"
      "cert_block_from_file C ?t1 (Some r) fs1 = Ok cb" "fs' = fs1(?t1 := None, ?t0 := None)"
    unfolding cert_block_generate_def with_temp_file_def Let_def twist run
    by (cases out; cases "parse_rkth (case out of Ok s \<Rightarrow> s)"; auto simp: outcome_iffs)
  from out(3) obtain bytes where bytes: "fs1 ?t1 = Some bytes" "cert_block_from_bytes C (Some r) bytes = Ok cb"
    by (auto simp: cert_block_from_file_def fs_read_def outcome_iffs)
  then obtain padding where "bytes = cb_data cb @ padding" and v: "verify C (Some r) cb = Ok ()"
    by (auto simp: cert_block_from_bytes_def Let_def outcome_iffs split: if_splits) (metis append_take_drop_id)
  moreover from v have "cert_block_rkth C cb = Ok r" by (elim verify_Ok) simp
  moreover have "fs' = fs1(?t0 := None, ?t1 := None)" using out(4) assms(2) by auto
  ultimately show ?thesis using run out(1,2) bytes(1) by metis
qed

section \<open>Properties\<close>

text \<open>
  C34. The block configuration names every configured certificate, once and under the name of its place
  in the chains (the root of chain \<open>i\<close>, or its \<open>j\<close>-th certificate behind the root), and nothing else:
  the decimal names never collide, so no certificate replaces another in the map.
\<close>

theorem generate_config_names:
  "block_certificates (generate_config env config idx out fs) name = Some path \<longleftrightarrow>
     (\<exists>i j. i < length (config_certificates config) \<and> j < length (config_certificates config ! i) \<and>
        name = certificate_name i j \<and>
        path = canonicalize_or_leave env (certificate_path (config_certificates config ! i ! j)) fs)"
proof (cases "\<exists>i j. name = certificate_name i j")
  case True
  then show ?thesis by (auto simp: generate_config_def insert_chains_name split: if_splits)
next
  case False
  then show ?thesis by (simp add: generate_config_def insert_chains_other)
qed

text \<open>
  C33. The hash the tool takes from the output of \<open>nxpimage\<close> is the one printed. The line may be
  indented, end in white space or a carriage return, and be the last one with or without a line feed; its
  digits may be of either case, mixed; any text may follow, and any lines without the word may come
  before. From \<open>RKTH:\<close> and the two hexadecimal digits of each of the 32 bytes exactly these bytes are read.
\<close>

theorem printed_rkth_read:
  assumes "decode_utf8 stdout =
      Some (concat (map (\<lambda>l. l @ [10]) before) @ indent @ ascii ''RKTH: '' @ digits @ trailing @ rest)"
    and "\<forall>l \<in> set before. 10 \<notin> set l \<and> \<not> contains (ascii ''RKTH'') l"
    and "\<forall>c \<in> set indent \<union> set trailing. is_whitespace c \<and> c \<noteq> 10" and "rest = [] \<or> hd rest = 10"
    and "hex_text bs digits" "length bs = 32"
  shows "parse_rkth stdout = Ok (Rkth bs)"
  by (rule parse_rkth_line [OF assms])

text \<open>Two lines of which the second is indented and ends in a blank and a carriage return, with digits of both cases.\<close>

theorem printed_rkth_read_witness:
  "parse_rkth (encode_utf8 (ascii ''Success'' @ [10, 9, 32] @ ascii ''RKTH: '' @
      concat (replicate 16 (ascii ''9fAb'')) @ [32, 13, 10] @ ascii ''done'')) = Ok (Rkth (concat (replicate 16 [0x9f, 0xab])))"
proof (rule printed_rkth_read [where before = "[ascii ''Success'']" and indent = "[9, 32]" and trailing = "[32, 13]"
        and rest = "10 # ascii ''done''" and digits = "concat (replicate 16 (ascii ''9fAb''))"])
  have "\<forall>c \<in> set (ascii ''Success'' @ [10, 9, 32] @ ascii ''RKTH: '' @ concat (replicate 16 (ascii ''9fAb'')) @
      [32, 13, 10] @ ascii ''done''). c < 0x80"
    by (auto simp: ascii_def)
  from decode_ascii [OF this] show "decode_utf8 (encode_utf8 (ascii ''Success'' @ [10, 9, 32] @ ascii ''RKTH: '' @
      concat (replicate 16 (ascii ''9fAb'')) @ [32, 13, 10] @ ascii ''done'')) =
    Some (concat (map (\<lambda>l. l @ [10]) [ascii ''Success'']) @ [9, 32] @ ascii ''RKTH: '' @
      concat (replicate 16 (ascii ''9fAb'')) @ [32, 13] @ 10 # ascii ''done'')"
    by simp
  show "hex_text (concat (replicate 16 [0x9f, 0xab])) (concat (replicate 16 (ascii ''9fAb'')))"
    by (rule hex_text_replicate) (simp add: ascii_def digit_for_codes)
qed (auto simp: ascii_def is_whitespace_def length_concat sum_list_replicate)

text \<open>
  C30. A generated certificate block is checked: when \<open>generate\<close> returns a block, \<open>nxpimage\<close> has
  succeeded and printed a root key table hash, the block is the front of the file it wrote, it passes the
  full verification and its table hashes to the printed value; of the files, only those \<open>nxpimage\<close>
  changed are changed, and both temporary files are gone.
\<close>

theorem cert_block_generate_checked:
  assumes "cert_block_generate C env nxpimage config idx fs = (Ok cb, fs')" and "temp_file env 0 \<noteq> temp_file env 1"
  shows "\<exists>json stdout fs1 r padding.
    run_checked env nxpimage ''.'' [''cert-block'', ''export'', ''-c'', temp_file env 0]
      (fs(temp_file env 0 \<mapsto> json, temp_file env 1 \<mapsto> [])) = (Ok stdout, fs1) \<and>
    parse_rkth stdout = Ok r \<and> fs1 (temp_file env 1) = Some (cb_data cb @ padding) \<and>
    verify C (Some r) cb = Ok () \<and> cert_block_rkth C cb = Ok r \<and>
    fs' = fs1(temp_file env 0 := None, temp_file env 1 := None)"
  by (rule cert_block_generate_run [OF assms])

theorem cert_block_generate_checked_witness:
  "\<exists>r. cert_block_generate demo_crypto nxp_env ''nxpimage'' shipped_config 0 Map.empty = (Ok (demo_block 0), Map.empty) \<and>
     verify demo_crypto (Some r) (demo_block 0) = Ok ()"
proof -
  have run: "cert_block_generate demo_crypto nxp_env ''nxpimage'' shipped_config 0 Map.empty = (Ok (demo_block 0), Map.empty)"
    by (rule nxp_generate) simp_all
  moreover have "temp_file nxp_env 0 \<noteq> temp_file nxp_env 1" by (simp only: nxp_temp_files) simp
  ultimately show ?thesis using cert_block_generate_checked [OF run] by blast
qed

end
