(* ===== verification/Tool_Commands.thy ===== *)
theory Tool_Commands
  imports Cert_Generate Tool_Run
begin

unbundle bit_operations_syntax

text \<open>
  The commands of the host tool (\<open>bootloader-tool/src/commands/\<close>, \<open>processors/probe.rs\<close>, \<open>main.rs\<close>):
  generating key material, signing an ELF file into a master boot image, flashing it over a debug
  probe, and running it with the shadow registers set up. A command works on the files and on the
  chip behind the probe. Three dictionaries stand for code outside the repository: \<open>host_env\<close> for the
  machine, \<open>libs\<close> for the crates that parse and sign, \<open>probe_env\<close> for \<open>probe-rs\<close>.
\<close>

section \<open>Libraries\<close>

text \<open>
  \<open>elf_builder\<close> lists the address and the type of every section of the ELF file; \<open>elf_write\<close> writes the
  file without the sections whose flag is set and without what is orphaned by that.
\<close>

record ('c, 'k) libs =
  crypto_lib :: "('c, 'k) crypto"
  rsa_signer :: "u8 list \<Rightarrow> (u8 list \<Rightarrow> u8 list) option"
  elf_parse :: "u8 list \<Rightarrow> elf_file option"
  elf_builder :: "u8 list \<Rightarrow> (u64 \<times> u32) list option"
  elf_write :: "u8 list \<Rightarrow> bool list \<Rightarrow> u8 list option"
  toml_config :: "u8 list \<Rightarrow> config option"

definition remove_non_prelude :: "('c, 'k) libs \<Rightarrow> u8 list \<Rightarrow> (u8 list, cmd_error) res" where
  "remove_non_prelude L data =
     res_bind (ok_or ElfParse (elf_builder L data)) (\<lambda>sections.
     ok_or ElfBuild (elf_write L data (map (\<lambda>(sh_addr, sh_type). section_deleted sh_addr sh_type) sections)))"

section \<open>Sign\<close>

record sign_output =
  sign_output_path :: "string option"
  sign_rkth :: rkth

text \<open>A call of the image functions, whose errors are wrapped.\<close>

fun tool_call :: "('a, tool_error) res \<times> fs \<Rightarrow> ('a, cmd_error) res \<times> fs" where
  "tool_call (r, fs) = (map_err ToolError r, fs)"

definition check_run_start :: "config \<Rightarrow> bool \<Rightarrow> u32 \<Rightarrow> (unit, cmd_error) res" where
  "check_run_start config is_bootloader base_addr =
     (if is_bootloader then
        (case config_bootloader config of
           Some bootloader \<Rightarrow>
             if boot_run_start bootloader \<noteq> ucast base_addr then Err (WrongRunAddress base_addr (boot_run_start bootloader))
             else Ok ()
         | None \<Rightarrow> Ok ())
      else
        (case config_application config of
           Some application \<Rightarrow>
             if appl_run_start application \<noteq> ucast base_addr
             then Err (WrongRunAddress base_addr (appl_run_start application)) else Ok ()
         | None \<Rightarrow> Ok ()))"

definition leaf_key_path :: "config \<Rightarrow> nat \<Rightarrow> (string, cmd_error) res" where
  "leaf_key_path config idx =
     (if idx < length (config_certificates config) then
        (let cert_chain = config_certificates config ! idx in
         if cert_chain = [] then Err EmptyChain
         else
           (case certificate_proto (last cert_chain) of
              None \<Rightarrow> Err (NoLeafPrototype idx)
            | Some cert_proto \<Rightarrow> Ok (proto_key_path cert_proto)))
      else Err (NoSuchChain idx))"

text \<open>The two blocks at the end of \<open>process\<close>: making the signature if none is given, and merging it.\<close>

definition sign_signature ::
    "('c, 'k) libs \<Rightarrow> config \<Rightarrow> sign_arguments \<Rightarrow> string \<Rightarrow> fs \<Rightarrow> (string option, cmd_error) res \<times> fs" where
  "sign_signature L config args prestage_path fs =
     (if \<not> dont_sign args \<and> signature_path args = None then
        and_then (leaf_key_path config (certificate_idx args), fs) (\<lambda>key_path fs.
        let default_path = set_extension ''signature.bin'' (input_path args) in
        and_then (tool_call (sign (rsa_signer L) default_path prestage_path key_path fs)) (\<lambda>_ fs.
        (Ok (Some default_path), fs)))
      else (Ok (signature_path args), fs))"

definition sign_merge ::
    "('c, 'k) libs \<Rightarrow> sign_arguments \<Rightarrow> bool \<Rightarrow> u32 \<Rightarrow> otp \<Rightarrow> cert_block \<Rightarrow> string option \<Rightarrow> fs \<Rightarrow>
     (sign_output, cmd_error) res \<times> fs" where
  "sign_merge L args is_bootloader base_addr otp cert_block sig_path fs =
     and_then (map_err ToolError (cert_block_rkth (crypto_lib L) cert_block), fs) (\<lambda>rkth fs.
     case sig_path of
       Some sig_path \<Rightarrow>
         let out_path = output_path_with_default args in
         and_then
           (tool_call (merge_with_signature (crypto_lib L) (output_unsigned_path_with_default args) base_addr sig_path
              out_path is_bootloader (Some otp) cert_block fs))
           (\<lambda>_ fs. (Ok \<lparr>sign_output_path = Some out_path, sign_rkth = rkth\<rparr>, fs))
     | None \<Rightarrow> (Ok \<lparr>sign_output_path = None, sign_rkth = rkth\<rparr>, fs))"

definition sign_prelude ::
    "('c, 'k) libs \<Rightarrow> sign_arguments \<Rightarrow> bool \<Rightarrow> u8 list \<Rightarrow> fs \<Rightarrow> (unit, cmd_error) res \<times> fs" where
  "sign_prelude L args is_bootloader input_data fs =
     (if is_bootloader then
        and_then (remove_non_prelude L input_data, fs) (\<lambda>out fs.
        (Ok (), fs(prelude_path_with_default args \<mapsto> out)))
      else (Ok (), fs))"

fun sign_command_args :: "sign_commands \<Rightarrow> bool \<times> sign_arguments" where
  "sign_command_args (SignBootloader sign_arguments) = (True, sign_arguments)"
| "sign_command_args (SignApplication sign_arguments) = (False, sign_arguments)"

definition sign_process ::
    "('c, 'k) libs \<Rightarrow> host_env \<Rightarrow> config \<Rightarrow> sign_commands \<Rightarrow> fs \<Rightarrow> (sign_output, cmd_error) res \<times> fs" where
  "sign_process L env config command fs =
     (let (is_bootloader, args) = sign_command_args command in
      and_then (map_err ToolError (fs_read (input_path args) fs), fs) (\<lambda>input_data fs.
      and_then (ok_or ElfParse (elf_parse L input_data), fs) (\<lambda>elf fs.
      and_then (sign_prelude L args is_bootloader input_data fs) (\<lambda>_ fs.
      and_then (map_err ObjcopyError (objcopy elf), fs) (\<lambda>(img, base_addr) fs.
      and_then (check_run_start config is_bootloader base_addr, fs) (\<lambda>_ fs.
      let unsigned_path = output_unsigned_path_with_default args;
          fs = fs(unsigned_path \<mapsto> img)
      in
      and_then (get_otp config fs, fs) (\<lambda>otp fs.
      let prestage_path = output_prestage_path_with_default args in
      and_then (cert_block_generate (crypto_lib L) env (nxpimage_path args) config (certificate_idx args) fs)
        (\<lambda>cert_block fs.
      and_then (tool_call (prepare_to_sign (crypto_lib L) unsigned_path base_addr prestage_path is_bootloader cert_block fs))
        (\<lambda>_ fs.
      and_then (sign_signature L config args prestage_path fs) (\<lambda>sig_path fs.
      sign_merge L args is_bootloader base_addr otp cert_block sig_path fs))))))))))"

section \<open>The chip behind the probe\<close>

text \<open>The flash memory as the debug probe addresses it, and the registers.\<close>

record 'x target =
  target_flash :: "u64 \<Rightarrow> u8"
  target_hw :: "'x hw"

datatype flash_format = FlashBin u64 | FlashElf

text \<open>
  What the tool calls of \<open>probe-rs\<close>. \<open>flash_download\<close> programs a file in one of two formats and tells
  whether that succeeded; \<open>core_access\<close> tells whether a memory access of the core succeeds.
\<close>

record 'x probe_env =
  selector_parses :: "string \<Rightarrow> bool"
  open_selector :: "string \<Rightarrow> bool"
  list_all_probes :: "string list"
  open_probe :: "string \<Rightarrow> bool"
  attach_chip :: "string \<Rightarrow> bool"
  flash_download :: "flash_format \<Rightarrow> u8 list \<Rightarrow> 'x target \<Rightarrow> bool \<times> 'x target"
  core_available :: bool
  core_access :: "u32 \<Rightarrow> 'x target \<Rightarrow> bool"
  core_resets :: bool

text \<open>
  \<open>start_session\<close>. With several probes and no selector the process exits with status 1, as it does when
  the command returns an error; the model takes it as one.
\<close>

definition start_session :: "'x probe_env \<Rightarrow> string \<Rightarrow> string option \<Rightarrow> (unit, cmd_error) res" where
  "start_session P chip selector =
     res_bind
       (case selector of
          Some probe \<Rightarrow>
            if \<not> selector_parses P probe \<or> \<not> open_selector P probe then Err ProbeFailed else Ok ()
        | None \<Rightarrow>
            (case list_all_probes P of
               [] \<Rightarrow> Err NoProbe
             | [probe] \<Rightarrow> if open_probe P probe then Ok () else Panic
             | _ \<Rightarrow> Err TooManyProbes))
       (\<lambda>_. if attach_chip P chip then Ok () else Err ProbeFailed)"

record 'x world =
  world_fs :: fs
  world_target :: "'x target"

text \<open>A call that only works on the files.\<close>

definition on_files :: "(fs \<Rightarrow> ('a, cmd_error) res \<times> fs) \<Rightarrow> 'x world \<Rightarrow> ('a, cmd_error) res \<times> 'x world" where
  "on_files f w = (case f (world_fs w) of (r, fs) \<Rightarrow> (r, w\<lparr>world_fs := fs\<rparr>))"

definition download_file :: "'x probe_env \<Rightarrow> string \<Rightarrow> flash_format \<Rightarrow> 'x world \<Rightarrow> (unit, cmd_error) res \<times> 'x world" where
  "download_file P path format w =
     (case world_fs w path of
        None \<Rightarrow> (Err FlashFailed, w)
      | Some bytes \<Rightarrow>
          (case flash_download P format bytes (world_target w) of
             (done, t) \<Rightarrow> (if done then Ok () else Err FlashFailed, w\<lparr>world_target := t\<rparr>)))"

section \<open>Download\<close>

definition download_target :: "config \<Rightarrow> run_commands \<Rightarrow> (run_arguments \<times> bool \<times> u64, cmd_error) res" where
  "download_target config command =
     (case command of
        RunBootloader run_args \<Rightarrow>
          (case config_bootloader config of
             Some bootloader \<Rightarrow> Ok (run_args, True, boot_flash_start bootloader)
           | None \<Rightarrow> Err NotConfigured)
      | RunApplication run_args slot \<Rightarrow>
          (case config_application config of
             Some application \<Rightarrow>
               if unat slot < length (slot_starts application)
               then Ok (run_args, False, slot_starts application ! unat slot)
               else Err (NoSlot slot)
           | None \<Rightarrow> Err NotConfigured))"

definition process_other ::
    "('c, 'k) libs \<Rightarrow> host_env \<Rightarrow> 'x probe_env \<Rightarrow> config \<Rightarrow> run_commands \<Rightarrow> 'x world \<Rightarrow> (rkth, cmd_error) res \<times> 'x world" where
  "process_other L env P config command w =
     and_then (download_target config command, w) (\<lambda>(run_args, is_bootloader, flash_start) w.
     let sign_command = (if is_bootloader then SignBootloader (sign_args run_args) else SignApplication (sign_args run_args)) in
     and_then (on_files (sign_process L env config sign_command) w) (\<lambda>output w.
     case sign_output_path output of
       None \<Rightarrow> (Err NotSigned, w)
     | Some out_path \<Rightarrow>
         and_then (start_session P (probe_chip (run_probe_args run_args)) (probe_selector (run_probe_args run_args)), w) (\<lambda>_ w.
         and_then (download_file P out_path (FlashBin flash_start) w) (\<lambda>_ w.
         (Ok (sign_rkth output), w)))))"

definition download_prelude :: "'x probe_env \<Rightarrow> string \<Rightarrow> probe_args \<Rightarrow> 'x world \<Rightarrow> (unit, cmd_error) res \<times> 'x world" where
  "download_prelude P path args w =
     and_then (start_session P (probe_chip args) (probe_selector args), w) (\<lambda>_ w.
     download_file P path FlashElf w)"

definition download_process ::
    "('c, 'k) libs \<Rightarrow> host_env \<Rightarrow> 'x probe_env \<Rightarrow> config \<Rightarrow> download_commands \<Rightarrow> 'x world \<Rightarrow> (unit, cmd_error) res \<times> 'x world" where
  "download_process L env P config command w =
     (case command of
        Prelude path args \<Rightarrow> download_prelude P path args w
      | Other args \<Rightarrow> and_then (process_other L env P config args w) (\<lambda>_ w. (Ok (), w)))"

section \<open>Run\<close>

definition core_write_32 :: "'x probe_env \<Rightarrow> u32 \<Rightarrow> u32 list \<Rightarrow> 'x world \<Rightarrow> (unit, cmd_error) res \<times> 'x world" where
  "core_write_32 P addr ws w =
     (let t = world_target w in
      if core_access P addr t then (Ok (), w\<lparr>world_target := t\<lparr>target_hw := write_32 addr ws (target_hw t)\<rparr>\<rparr>)
      else (Err ProbeFailed, w))"

definition core_read_32 :: "'x probe_env \<Rightarrow> u32 \<Rightarrow> 'x world \<Rightarrow> (u32, cmd_error) res \<times> 'x world" where
  "core_read_32 P addr w =
     (if core_access P addr (world_target w) then (Ok (shadow_mem (target_hw (world_target w)) addr), w)
      else (Err ProbeFailed, w))"

definition set_shadow_registers :: "'x probe_env \<Rightarrow> rkth \<Rightarrow> otp \<Rightarrow> 'x world \<Rightarrow> (unit, cmd_error) res \<times> 'x world" where
  "set_shadow_registers P rkth otp w =
     and_then (core_write_32 P 0x401301E0 (rkth_as_u32_le rkth) w) (\<lambda>_ w.
     and_then (core_write_32 P 0x401301C0 (otp_as_reversed_u32_be otp) w) (\<lambda>_ w.
     and_then (core_write_32 P 0x40130180 [run_boot0] w) (\<lambda>_ w.
     and_then (core_write_32 P 0x40130184 [run_boot1] w) (\<lambda>_ w.
     and_then (core_read_32 P 0x40130194 w) (\<lambda>buf w.
     core_write_32 P 0x40130194 [buf AND NOT (push_bit 7 1)] w)))))"

definition attach_arguments :: "run_arguments \<Rightarrow> string list" where
  "attach_arguments args =
     [''attach'', ''--chip'', probe_chip (run_probe_args args)] @
     (case probe_selector (run_probe_args args) of Some probe \<Rightarrow> [''--probe'', probe] | None \<Rightarrow> []) @
     [input_path (sign_args args)]"

fun run_args_of :: "run_commands \<Rightarrow> run_arguments" where
  "run_args_of (RunBootloader args) = args"
| "run_args_of (RunApplication args slot) = args"

definition run_process ::
    "('c, 'k) libs \<Rightarrow> host_env \<Rightarrow> 'x probe_env \<Rightarrow> config \<Rightarrow> run_commands \<Rightarrow> 'x world \<Rightarrow> (unit, cmd_error) res \<times> 'x world" where
  "run_process L env P config command w =
     and_then (get_otp config (world_fs w), w) (\<lambda>otp w.
     and_then (process_other L env P config command w) (\<lambda>rkth w.
     if \<not> core_available P then (Err ProbeFailed, w)
     else
       and_then (set_shadow_registers P rkth otp w) (\<lambda>_ w.
       if \<not> core_resets P then (Panic, w)
       else
         (let args = run_args_of command in
          case run_command env (probe_rs_path args) ''.'' (attach_arguments args) (world_fs w) of
            (None, fs) \<Rightarrow> (Panic, w\<lparr>world_fs := fs\<rparr>)
          | (Some _, fs) \<Rightarrow> (Ok (), w\<lparr>world_fs := fs\<rparr>)))))"

section \<open>The command line\<close>

definition generate_process ::
    "host_env \<Rightarrow> config \<Rightarrow> generate_commands \<Rightarrow> fs \<Rightarrow> (unit, cmd_error) res \<times> fs" where
  "generate_process env config command fs =
     (case command of
        Certificates args \<Rightarrow> certificates_generate env args config fs
      | GenerateOtp \<Rightarrow> and_then (otp_generate env config fs) (\<lambda>_ fs. (Ok (), fs)))"

text \<open>\<open>todo!()\<close> panics.\<close>

definition commands_process ::
    "('c, 'k) libs \<Rightarrow> host_env \<Rightarrow> 'x probe_env \<Rightarrow> config \<Rightarrow> commands \<Rightarrow> 'x world \<Rightarrow> (unit, cmd_error) res \<times> 'x world" where
  "commands_process L env P config command w =
     (case command of
        Generate subcommand \<Rightarrow> on_files (generate_process env config subcommand) w
      | Sign subcommand \<Rightarrow> and_then (on_files (sign_process L env config subcommand) w) (\<lambda>_ w. (Ok (), w))
      | Download subcommand \<Rightarrow> download_process L env P config subcommand w
      | Run subcommand \<Rightarrow> run_process L env P config subcommand w
      | Fuse \<Rightarrow> (Panic, w))"

definition config_read :: "('c, 'k) libs \<Rightarrow> string \<Rightarrow> fs \<Rightarrow> (config, cmd_error) res" where
  "config_read L path fs =
     res_bind (fs_read_to_string path fs) (\<lambda>text. ok_or ConfigParse (toml_config L text))"

definition tool_main ::
    "('c, 'k) libs \<Rightarrow> host_env \<Rightarrow> 'x probe_env \<Rightarrow> cli \<Rightarrow> 'x world \<Rightarrow> (unit, cmd_error) res \<times> 'x world" where
  "tool_main L env P cli w =
     and_then (config_read L (cli_config cli) (world_fs w), w) (\<lambda>config w.
     case cli_commands cli of
       Some command \<Rightarrow> commands_process L env P config command w
     | None \<Rightarrow> (Ok (), w))"

section \<open>Laws of the libraries\<close>

text \<open>
  \<open>nxpimage\<close> writes the file named in its configuration, which is the second temporary file, and no
  other; a block it writes has the header of UM11147, 32 bytes long, and a table of a sensible length.
\<close>

definition block_layout :: "u8 list \<Rightarrow> bool" where
  "block_layout bytes \<longleftrightarrow> u32_at 0x08 bytes = 0x20 \<and> unat (u32_at 0x1c bytes) < 2 ^ 31"

definition nxpimage_laws :: "host_env \<Rightarrow> string \<Rightarrow> bool" where
  "nxpimage_laws env nxpimage \<longleftrightarrow> temp_file env 0 \<noteq> temp_file env 1 \<and>
     (\<forall>fs r fs'. run_command env nxpimage ''.'' [''cert-block'', ''export'', ''-c'', temp_file env 0] fs = (r, fs') \<longrightarrow>
        (\<forall>p. p \<noteq> temp_file env 1 \<longrightarrow> fs' p = fs p) \<and>
        (\<forall>out bytes. r = Some out \<longrightarrow> exec_success out \<longrightarrow> fs' (temp_file env 1) = Some bytes \<longrightarrow> block_layout bytes))"

text \<open>Programming a binary file puts its bytes at the base address.\<close>

definition flash_laws :: "'x probe_env \<Rightarrow> bool" where
  "flash_laws P \<longleftrightarrow>
     (\<forall>a bytes t t'. flash_download P (FlashBin a) bytes t = (True, t') \<longrightarrow>
        (\<forall>i < length bytes. target_flash t' (a + of_nat i) = bytes ! i))"

text \<open>The unsigned image is read again after the prestage image and the signature were written.\<close>

definition paths_apart :: "host_env \<Rightarrow> sign_arguments \<Rightarrow> bool" where
  "paths_apart env args \<longleftrightarrow>
     output_unsigned_path_with_default args \<notin>
       {temp_file env 0, temp_file env 1, output_prestage_path_with_default args,
        set_extension ''signature.bin'' (input_path args)}"

section \<open>Lemmas\<close>

lemma run_checked_Ok:
  "run_checked env program dir args fs = (Ok stdout, fs') \<longleftrightarrow>
     (\<exists>out. run_command env program dir args fs = (Some out, fs') \<and> exec_success out \<and> exec_stdout out = stdout)"
  by (auto simp: run_checked_def split: prod.splits option.splits if_splits)

lemma tool_call_Ok [outcome_iffs]: "tool_call m = (Ok x, fs') \<longleftrightarrow> m = (Ok x, fs')"
  by (cases m) (auto simp: outcome_iffs)

lemma ok_or_Ok [outcome_iffs]: "ok_or e m = Ok x \<longleftrightarrow> m = Some x"
  by (cases m) simp_all

lemma cert_block_generate_Ok:
  assumes gen: "cert_block_generate C env nxpimage config idx fs = (Ok cb, fs')" and laws: "nxpimage_laws env nxpimage"
  obtains r rkhs n where "verify C (Some r) cb = Ok ()" "cert_block_rkth C cb = Ok r" "length (rkth_bytes r) = 32"
    "root_key_hashes cb = Ok rkhs" "rkh_start cb = Ok n" "0x18 \<le> n"
    "\<forall>p. p \<notin> {temp_file env 0, temp_file env 1} \<longrightarrow> fs' p = fs p"
proof -
  let ?t0 = "temp_file env 0" and ?t1 = "temp_file env 1"
  from laws have ne: "?t0 \<noteq> ?t1" by (simp add: nxpimage_laws_def)
  from cert_block_generate_run [OF gen ne] obtain json stdout fs1 r padding where
    run: "run_checked env nxpimage ''.'' [''cert-block'', ''export'', ''-c'', ?t0] (fs(?t0 \<mapsto> json, ?t1 \<mapsto> [])) = (Ok stdout, fs1)"
    and r: "parse_rkth stdout = Ok r" and block: "fs1 ?t1 = Some (cb_data cb @ padding)"
    and v: "verify C (Some r) cb = Ok ()" "cert_block_rkth C cb = Ok r"
    and fs': "fs' = fs1(?t0 := None, ?t1 := None)"
    by blast
  from run laws block have frame: "\<And>p. p \<noteq> ?t1 \<Longrightarrow> fs1 p = (fs(?t0 \<mapsto> json, ?t1 \<mapsto> [])) p"
    and layout: "block_layout (cb_data cb @ padding)"
    unfolding run_checked_Ok nxpimage_laws_def by blast+
  have len: "length (rkth_bytes r) = 32"
    using r by (auto simp: parse_rkth_def rkth_from_hex_def try_into_32_def outcome_iffs split: if_splits)
  from v(1) obtain rkhs where rkhs: "root_key_hashes cb = Ok rkhs" by (elim verify_Ok)
  then obtain n where n: "rkh_start cb = Ok n" by (auto simp: root_key_hashes_Ok)
  then have long: "0x20 \<le> length (cb_data cb)" and n_eq: "n = unat (u32_at 0x08 (cb_data cb) + u32_at 0x1c (cb_data cb))"
    by (simp_all add: rkh_start_Ok)
  have "u32_at 0x08 (cb_data cb) = 0x20" "unat (u32_at 0x1c (cb_data cb)) < 2 ^ 31"
    using layout long by (simp_all add: block_layout_def u32_at_def)
  then have "0x18 \<le> n"
    unfolding n_eq by (simp add: unat_word_ariths take_bit_eq_mod)
  with v len rkhs n frame show thesis by (intro that) (auto simp: fs')
qed

text \<open>The calls of a signing run that succeeds.\<close>

lemma sign_process_steps:
  assumes run: "sign_process L env config command fs = (Ok so, fs')"
    and command: "sign_command_args command = (is_bootloader, args)"
  obtains bytes elf plain base_addr otp cb fs1 fs2 fs3 fs4 fs5 sig_path where
    "fs (input_path args) = Some bytes" "elf_parse L bytes = Some elf"
    "sign_prelude L args is_bootloader bytes fs = (Ok (), fs1)"
    "objcopy elf = Ok (plain, base_addr)" "check_run_start config is_bootloader base_addr = Ok ()"
    "fs2 = fs1(output_unsigned_path_with_default args \<mapsto> plain)" "get_otp config fs2 = Ok otp"
    "cert_block_generate (crypto_lib L) env (nxpimage_path args) config (certificate_idx args) fs2 = (Ok cb, fs3)"
    "prepare_to_sign (crypto_lib L) (output_unsigned_path_with_default args) base_addr
       (output_prestage_path_with_default args) is_bootloader cb fs3 = (Ok (), fs4)"
    "sign_signature L config args (output_prestage_path_with_default args) fs4 = (Ok sig_path, fs5)"
    "sign_merge L args is_bootloader base_addr otp cb sig_path fs5 = (Ok so, fs')"
  using run unfolding sign_process_def command Let_def prod.case
  by (clarsimp simp: outcome_iffs fs_read_def)

lemma sign_prelude_frame:
  assumes "sign_prelude L args is_bootloader bytes fs = (Ok (), fs')" and "p \<noteq> prelude_path_with_default args \<or> \<not> is_bootloader"
  shows "fs' p = fs p"
  using assms by (auto simp: sign_prelude_def outcome_iffs split: if_splits)

lemma sign_signature_frame:
  assumes "sign_signature L config args prestage fs = (Ok sig_path, fs')" and "p \<noteq> set_extension ''signature.bin'' (input_path args)"
  shows "fs' p = fs p"
  using assms by (auto simp: sign_signature_def sign_def Let_def outcome_iffs split: if_splits)

text \<open>What a successful signing run has done, for an application and for a bootloader.\<close>

lemma sign_process_Ok:
  assumes run: "sign_process L env config command fs = (Ok so, fs')"
    and command: "sign_command_args command = (is_bootloader, args)"
    and laws: "nxpimage_laws env (nxpimage_path args)" and apart: "paths_apart env args"
  obtains bytes elf plain base_addr cb im rkhs n where
    "fs (input_path args) = Some bytes" "elf_parse L bytes = Some elf" "objcopy elf = Ok (plain, base_addr)"
    "check_run_start config is_bootloader base_addr = Ok ()"
    "verify (crypto_lib L) (Some (sign_rkth so)) cb = Ok ()" "cert_block_rkth (crypto_lib L) cb = Ok (sign_rkth so)"
    "length (rkth_bytes (sign_rkth so)) = 32" "root_key_hashes cb = Ok rkhs" "rkh_start cb = Ok n" "0x18 \<le> n"
    "image_new (crypto_lib L) plain base_addr (image_type_new XipPlainSigned) cb = Ok im"
    "\<forall>p. sign_output_path so = Some p \<longrightarrow> p = output_path_with_default args \<and>
       (\<exists>sig otp out. image_merge (crypto_lib L) sig (Some otp) im = Ok out \<and> fs' p = Some out)"
    "\<forall>p. p \<notin> {prelude_path_with_default args, output_unsigned_path_with_default args, output_prestage_path_with_default args,
        set_extension ''signature.bin'' (input_path args), output_path_with_default args, temp_file env 0, temp_file env 1} \<longrightarrow>
      fs' p = fs p"
proof -
  let ?C = "crypto_lib L" and ?u = "output_unsigned_path_with_default args"
  from run command obtain bytes elf plain base_addr otp cb fs1 fs2 fs3 fs4 fs5 sig_path where
    s: "fs (input_path args) = Some bytes" "elf_parse L bytes = Some elf"
      "objcopy elf = Ok (plain, base_addr)" "check_run_start config is_bootloader base_addr = Ok ()"
    and prelude: "sign_prelude L args is_bootloader bytes fs = (Ok (), fs1)"
    and fs2: "fs2 = fs1(?u \<mapsto> plain)"
    and gen: "cert_block_generate ?C env (nxpimage_path args) config (certificate_idx args) fs2 = (Ok cb, fs3)"
    and prep: "prepare_to_sign ?C ?u base_addr (output_prestage_path_with_default args) is_bootloader cb fs3 = (Ok (), fs4)"
    and sig: "sign_signature L config args (output_prestage_path_with_default args) fs4 = (Ok sig_path, fs5)"
    and merge: "sign_merge L args is_bootloader base_addr otp cb sig_path fs5 = (Ok so, fs')"
    by (rule sign_process_steps)
  from gen laws obtain r rkhs n where
    block: "verify ?C (Some r) cb = Ok ()" "cert_block_rkth ?C cb = Ok r" "length (rkth_bytes r) = 32"
      "root_key_hashes cb = Ok rkhs" "rkh_start cb = Ok n" "0x18 \<le> n"
    and frame3: "\<forall>p. p \<notin> {temp_file env 0, temp_file env 1} \<longrightarrow> fs3 p = fs2 p"
    by (rule cert_block_generate_Ok)
  have u3: "fs3 ?u = Some plain" using frame3 apart fs2 by (simp add: paths_apart_def)
  with prep obtain im where im: "image_new ?C plain base_addr (image_type_new XipPlainSigned) cb = Ok im"
    and fs4: "fs4 = fs3(output_prestage_path_with_default args \<mapsto> sign_me im)"
    by (auto simp: prepare_to_sign_def tool_load_image_def fs_read_def outcome_iffs)
  have u5: "fs5 ?u = Some plain"
    using sign_signature_frame [OF sig, of ?u] apart u3 fs4 by (simp add: paths_apart_def)
  have r: "sign_rkth so = r"
    using merge block(2) by (auto simp: sign_merge_def Let_def outcome_iffs split: option.splits)
  have out: "p = output_path_with_default args \<and> (\<exists>sig otp out. image_merge ?C sig (Some otp) im = Ok out \<and> fs' p = Some out)"
    if "sign_output_path so = Some p" for p
  proof -
    from that merge obtain sp where sp: "sig_path = Some sp" "p = output_path_with_default args"
        "merge_with_signature ?C ?u base_addr sp p is_bootloader (Some otp) cb fs5 = (Ok (), fs')"
      using block(2) by (auto simp: sign_merge_def Let_def outcome_iffs split: option.splits)
    with u5 im obtain sg out where "image_merge ?C sg (Some otp) im = Ok out" "fs' = fs5(p \<mapsto> out)"
      by (auto simp: merge_with_signature_def tool_load_image_def fs_read_def outcome_iffs)
    with sp(2) show ?thesis by auto
  qed
  have "fs' p = fs5 p" if "p \<noteq> output_path_with_default args" for p
    using merge that by (auto simp: sign_merge_def merge_with_signature_def Let_def outcome_iffs split: option.splits)
  then have frame: "fs' p = fs p" if "p \<notin> {prelude_path_with_default args, ?u, output_prestage_path_with_default args,
        set_extension ''signature.bin'' (input_path args), output_path_with_default args, temp_file env 0, temp_file env 1}" for p
    using that sign_signature_frame [OF sig, of p] sign_prelude_frame [OF prelude, of p] frame3 by (simp add: fs2 fs4)
  show thesis
    by (rule that [OF s block [folded r] im]) (use out frame in blast)+
qed

text \<open>The register setup, when every access succeeds.\<close>

lemma set_shadow_registers_Ok:
  assumes "set_shadow_registers P rkth otp w = (Ok (), w')"
  shows "w' = w\<lparr>world_target := (world_target w)\<lparr>target_hw := configure_target rkth otp (target_hw (world_target w))\<rparr>\<rparr>"
  using assms
  by (auto simp: set_shadow_registers_def core_write_32_def core_read_32_def configure_target_def Let_def outcome_iffs
      split: if_splits)

lemma get_otp_length: "get_otp config fs = Ok k \<Longrightarrow> length (otp_bytes k) = 32"
  by (auto simp: get_otp_def otp_from_hex_def try_into_32_def outcome_iffs split: if_splits)

lemma on_files_Ok [outcome_iffs]:
  "on_files f w = (Ok x, w') \<longleftrightarrow> (\<exists>fs. f (world_fs w) = (Ok x, fs) \<and> w' = w\<lparr>world_fs := fs\<rparr>)"
  by (auto simp: on_files_def split: prod.splits)

lemma download_file_Ok [outcome_iffs]:
  "download_file P path format w = (Ok u, w') \<longleftrightarrow>
     (\<exists>bytes t. world_fs w path = Some bytes \<and> flash_download P format bytes (world_target w) = (True, t) \<and>
        w' = w\<lparr>world_target := t\<rparr>)"
  by (auto simp: download_file_def split: prod.splits option.splits if_splits)

text \<open>A successful download has signed the image and programmed the file it wrote.\<close>

lemma process_other_Ok:
  assumes "process_other L env P config command w = (Ok r, w')"
  obtains args is_bootloader flash_start so fs out_path bytes where
    "download_target config command = Ok (args, is_bootloader, flash_start)"
    "sign_process L env config (if is_bootloader then SignBootloader (sign_args args) else SignApplication (sign_args args))
       (world_fs w) = (Ok so, fs)"
    "sign_output_path so = Some out_path" "r = sign_rkth so" "fs out_path = Some bytes"
    "flash_download P (FlashBin flash_start) bytes (world_target w) = (True, world_target w')" "world_fs w' = fs"
  using assms
  by (clarsimp simp: process_other_def Let_def outcome_iffs split: option.splits)

text \<open>
  For the witnesses: an ELF file with one segment, libraries that accept it and sign with a constant, a
  probe that always works, and a directory with the ELF file, the OTP key and the private key.
\<close>

definition demo_app_elf :: elf_file where
  "demo_app_elf =
     \<lparr>elf_segments = [\<lparr>p_filesz = 65, p_memsz = 65, p_paddr = 0x10020000, seg_data = Some (replicate 65 0)\<rparr>],
      elf_entry = 0x10020131\<rparr>"

definition demo_libs :: "(unit, unit) libs" where
  "demo_libs =
     \<lparr>crypto_lib = demo_crypto, rsa_signer = (\<lambda>_. Some (\<lambda>_. [1, 2, 3, 4])), elf_parse = (\<lambda>_. Some demo_app_elf),
      elf_builder = (\<lambda>_. Some []), elf_write = (\<lambda>_ _. Some []), toml_config = (\<lambda>_. Some shipped_config)\<rparr>"

definition demo_fs :: fs where
  "demo_fs = [''app.elf'' \<mapsto> [], ''./artifacts/otp_master_key.txt'' \<mapsto> otp_as_hex (Otp (replicate 32 7)),
     ''./artifacts/cert-img1-user-key.pem'' \<mapsto> []]"

definition demo_sign_args :: sign_arguments where
  "demo_sign_args =
     \<lparr>input_path = ''app.elf'', signature_path = None, output_unsigned_path = None, output_prestage_path = None,
      output_path = None, dont_sign = False, certificate_idx = 0, prelude_path = None, nxpimage_path = ''nxpimage''\<rparr>"

lemma demo_paths:
  "output_unsigned_path_with_default demo_sign_args = ''app.unsigned.bin''"
  "output_prestage_path_with_default demo_sign_args = ''app.mbi-proto.bin''"
  "output_path_with_default demo_sign_args = ''app.signed.bin''"
  "prelude_path_with_default demo_sign_args = ''app.prelude.elf''"
  "set_extension ''signature.bin'' (input_path demo_sign_args) = ''app.signature.bin''"
  by (simp_all add: output_unsigned_path_with_default_def output_prestage_path_with_default_def
      output_path_with_default_def prelude_path_with_default_def unwrap_or_extension_def demo_sign_args_def
      set_extension_def file_name_def file_stem_def)

lemma demo_laws: "nxpimage_laws nxp_env program" "paths_apart nxp_env demo_sign_args"
proof -
  have "block_layout (cb_data (demo_block 0))" by (simp add: block_layout_def demo_block_fields)
  moreover have "temp_file nxp_env 0 \<noteq> temp_file nxp_env 1" by (simp only: nxp_temp_files) simp
  ultimately show "nxpimage_laws nxp_env program"
    unfolding nxpimage_laws_def nxp_temp_files by (auto simp: nxp_env_def)
  show "paths_apart nxp_env demo_sign_args" unfolding paths_apart_def nxp_temp_files demo_paths by simp
qed

lemma demo_objcopy: "objcopy demo_app_elf = Ok (replicate 65 0, 0x10020000)"
  by (simp add: objcopy_def demo_app_elf_def in_prelude_def base_address_def top_address_def copy_from_slice_def Let_def)

lemma demo_otp:
  assumes "fs ''./artifacts/otp_master_key.txt'' = Some (otp_as_hex (Otp (replicate 32 7)))"
  shows "get_otp shipped_config fs = Ok (Otp (replicate 32 7))"
proof -
  obtain t where "decode_utf8 (otp_as_hex (Otp (replicate 32 7))) = Some t"
    using generate_hex_ascii by (auto simp: otp_as_hex_def)
  with assms show ?thesis
    by (simp add: get_otp_def fs_read_to_string_def fs_read_def otp_from_hex_def otp_as_hex_def shipped_config_def
        parse_generate_hex try_into_32_def)
qed

lemma demo_sign:
  "\<exists>out fs'. sign_process demo_libs nxp_env shipped_config (SignApplication demo_sign_args) demo_fs =
     (Ok \<lparr>sign_output_path = Some ''app.signed.bin'', sign_rkth = Rkth (replicate 32 0)\<rparr>, fs') \<and>
     fs' ''app.signed.bin'' = Some out \<and> length out = 240"
proof -
  obtain im out where
    new: "image_new demo_crypto (replicate 65 0) 0x10020000 (image_type_new XipPlainSigned) (demo_block 0) = Ok im"
    and merge: "\<And>k. image_merge demo_crypto [1, 2, 3, 4] k im = Ok out" and len: "length out = 240"
    using demo_signed by blast
  let ?fs1 = "demo_fs(''app.unsigned.bin'' \<mapsto> replicate 65 0)"
  let ?fs2 = "?fs1(''app.mbi-proto.bin'' \<mapsto> sign_me im)"
  let ?fs3 = "?fs2(''app.signature.bin'' \<mapsto> [1, 2, 3, 4])"
  have base: "check_run_start shipped_config False 0x10020000 = Ok ()"
    by (simp add: check_run_start_def shipped_config_def)
  have k: "get_otp shipped_config ?fs1 = Ok (Otp (replicate 32 7))" by (rule demo_otp) (simp add: demo_fs_def)
  have gen: "cert_block_generate demo_crypto nxp_env ''nxpimage'' shipped_config 0 ?fs1 = (Ok (demo_block 0), ?fs1)"
    by (rule nxp_generate) (simp_all add: demo_fs_def)
  have prep: "prepare_to_sign demo_crypto ''app.unsigned.bin'' 0x10020000 ''app.mbi-proto.bin'' False (demo_block 0) ?fs1 =
      (Ok (), ?fs2)"
    using new by (simp add: prepare_to_sign_def tool_load_image_def fs_read_def)
  have sig: "sign_signature demo_libs shipped_config demo_sign_args ''app.mbi-proto.bin'' ?fs2 = (Ok (Some ''app.signature.bin''), ?fs3)"
    using demo_paths(5)
    by (simp add: sign_signature_def leaf_key_path_def sign_def fs_read_def demo_sign_args_def demo_libs_def demo_fs_def
        shipped_config_def Let_def)
  have r: "cert_block_rkth demo_crypto (demo_block 0) = Ok (Rkth (replicate 32 0))"
    by (simp add: cert_block_rkth_def demo_block_hashes) (simp add: demo_crypto_def)
  have "merge_with_signature demo_crypto ''app.unsigned.bin'' 0x10020000 ''app.signature.bin'' ''app.signed.bin'' False k
      (demo_block 0) ?fs3 = (Ok (), ?fs3(''app.signed.bin'' \<mapsto> out))" for k
    using new merge by (simp add: merge_with_signature_def tool_load_image_def fs_read_def)
  then have "sign_merge demo_libs demo_sign_args False 0x10020000 k (demo_block 0) (Some ''app.signature.bin'') ?fs3 =
      (Ok \<lparr>sign_output_path = Some ''app.signed.bin'', sign_rkth = Rkth (replicate 32 0)\<rparr>, ?fs3(''app.signed.bin'' \<mapsto> out))" for k
    using r by (simp add: sign_merge_def demo_paths demo_libs_def Let_def)
  moreover have "fs_read ''app.elf'' demo_fs = Ok []" by (simp add: fs_read_def demo_fs_def)
  moreover have "input_path demo_sign_args = ''app.elf''" "nxpimage_path demo_sign_args = ''nxpimage''"
    "certificate_idx demo_sign_args = 0" "elf_parse demo_libs [] = Some demo_app_elf" "crypto_lib demo_libs = demo_crypto"
    by (simp_all add: demo_sign_args_def demo_libs_def)
  ultimately have "sign_process demo_libs nxp_env shipped_config (SignApplication demo_sign_args) demo_fs =
      (Ok \<lparr>sign_output_path = Some ''app.signed.bin'', sign_rkth = Rkth (replicate 32 0)\<rparr>, ?fs3(''app.signed.bin'' \<mapsto> out))"
    using base k gen prep sig
    by (simp add: sign_process_def sign_prelude_def demo_objcopy demo_paths Let_def)
  with len show ?thesis by (intro exI) (auto simp: demo_objcopy)
qed

section \<open>Properties\<close>

text \<open>
  C29. What \<open>sign\<close> leaves behind when it succeeds: the image is the one assembled from the ELF file, it is
  linked to the address the configuration names, its certificate block passed the full verification
  against the hash that is returned, and when an output file is reported it holds the bytes that were
  signed followed by a signature that verifies under the block's signing key. Apart from the files the
  command is to write, and its temporary files, no file changes.
\<close>

theorem signed_output_verified:
  assumes run: "sign_process L env config command fs = (Ok so, fs')"
    and command: "sign_command_args command = (is_bootloader, args)"
    and laws: "nxpimage_laws env (nxpimage_path args)" and apart: "paths_apart env args"
  shows "\<exists>bytes elf plain base_addr cb im.
    fs (input_path args) = Some bytes \<and> elf_parse L bytes = Some elf \<and> objcopy elf = Ok (plain, base_addr) \<and>
    check_run_start config is_bootloader base_addr = Ok () \<and>
    verify (crypto_lib L) (Some (sign_rkth so)) cb = Ok () \<and>
    image_new (crypto_lib L) plain base_addr (image_type_new XipPlainSigned) cb = Ok im \<and>
    (\<forall>p. sign_output_path so = Some p \<longrightarrow> p = output_path_with_default args \<and>
       (\<exists>sig key. fs' p = Some (sign_me im @ sig) \<and> verifying_key (crypto_lib L) (img_cert_block im) = Ok key \<and>
          rsa_verify (crypto_lib L) key (sign_me im) sig)) \<and>
    (\<forall>p. p \<notin> {prelude_path_with_default args, output_unsigned_path_with_default args, output_prestage_path_with_default args,
        set_extension ''signature.bin'' (input_path args), output_path_with_default args, temp_file env 0, temp_file env 1} \<longrightarrow>
       fs' p = fs p)"
proof -
  let ?C = "crypto_lib L"
  from run command laws apart obtain bytes elf plain base_addr cb im where
    s: "fs (input_path args) = Some bytes" "elf_parse L bytes = Some elf" "objcopy elf = Ok (plain, base_addr)"
      "check_run_start config is_bootloader base_addr = Ok ()" "verify ?C (Some (sign_rkth so)) cb = Ok ()"
    and im: "image_new ?C plain base_addr (image_type_new XipPlainSigned) cb = Ok im"
    and out: "\<forall>p. sign_output_path so = Some p \<longrightarrow> p = output_path_with_default args \<and>
       (\<exists>sig otp out. image_merge ?C sig (Some otp) im = Ok out \<and> fs' p = Some out)"
    and frame: "\<forall>p. p \<notin> {prelude_path_with_default args, output_unsigned_path_with_default args,
        output_prestage_path_with_default args, set_extension ''signature.bin'' (input_path args),
        output_path_with_default args, temp_file env 0, temp_file env 1} \<longrightarrow> fs' p = fs p"
    by (rule sign_process_Ok)
  have merged: "out = sign_me im @ sig \<and> (\<exists>key. verifying_key ?C (img_cert_block im) = Ok key \<and> rsa_verify ?C key (sign_me im) sig)"
    if m: "image_merge ?C sig k im = Ok out" for sig k out
    using signed_image_ivt [OF im m] m
    by (auto simp: image_merge_def image_check_def outcome_iffs split: if_splits)
  have "\<forall>p. sign_output_path so = Some p \<longrightarrow> p = output_path_with_default args \<and>
      (\<exists>sig key. fs' p = Some (sign_me im @ sig) \<and> verifying_key ?C (img_cert_block im) = Ok key \<and>
         rsa_verify ?C key (sign_me im) sig)"
    using out merged by blast
  with s im frame show ?thesis by blast
qed

theorem signed_output_verified_witness:
  "\<exists>so fs' sig im. sign_process demo_libs nxp_env shipped_config (SignApplication demo_sign_args) demo_fs = (Ok so, fs') \<and>
     fs' ''app.signed.bin'' = Some (sign_me im @ sig) \<and> rsa_verify demo_crypto () (sign_me im) sig"
proof -
  obtain so fs' where run: "sign_process demo_libs nxp_env shipped_config (SignApplication demo_sign_args) demo_fs = (Ok so, fs')"
    and so: "sign_output_path so = Some ''app.signed.bin''"
    using demo_sign by fastforce
  have cmd: "sign_command_args (SignApplication demo_sign_args) = (False, demo_sign_args)" by simp
  have "crypto_lib demo_libs = demo_crypto" by (simp add: demo_libs_def)
  with signed_output_verified [OF run cmd demo_laws] run so show ?thesis by auto
qed

end
