(* ===== verification/Tool_Device.thy ===== *)
theory Tool_Device
  imports Tool_Commands Example_App
begin

text \<open>
  The host tool, with the configuration file of the repository, and the example device together: what
  the load range of the example bootloader admits, and the way of an application from its ELF file through \<open>sign\<close>, \<open>download\<close> and \<open>run\<close> into the memory the bootloader checks.
\<close>

text \<open>The start of the memory-mapped flash, where the tool addresses offset 0 of the partitions.\<close>

definition flash_base :: u64 where
  "flash_base = 0x08000000"

text \<open>A partition driver over the chip's flash: it reads what the probe has programmed.\<close>

definition views_partition :: "('p, 'e) nor_flash \<Rightarrow> 'p \<Rightarrow> partition \<Rightarrow> 'x target \<Rightarrow> bool" where
  "views_partition pops p part t \<longleftrightarrow> capacity pops p = part_size part \<and>
     (\<forall>m \<le> part_size part. flash_read pops 0 m p =
        (Ok (map (\<lambda>i. target_flash t (flash_base + of_nat (part_offset part + i))) [0..<m]), p))"

section \<open>Lemmas\<close>

text \<open>A successful run: the flash as the download left it, and the registers set from the image's hash.\<close>

lemma run_process_Ok:
  assumes run: "run_process L env P config (RunApplication args slot) w = (Ok (), w')"
    and app: "config_application config = Some app"
    and laws: "nxpimage_laws env (nxpimage_path (sign_args args))" "flash_laws P" "paths_apart env (sign_args args)"
  obtains plain base_addr cb im sig otp out r k rkhs n h where
    "unat slot < length (slot_starts app)" "ucast base_addr = appl_run_start app"
    "cert_block_rkth (crypto_lib L) cb = Ok r" "length (rkth_bytes r) = 32" "length (otp_bytes k) = 32"
    "root_key_hashes cb = Ok rkhs" "rkh_start cb = Ok n" "0x18 \<le> n"
    "image_new (crypto_lib L) plain base_addr (image_type_new XipPlainSigned) cb = Ok im"
    "image_merge (crypto_lib L) sig (Some otp) im = Ok out"
    "\<forall>i < length out. target_flash (world_target w') (slot_starts app ! unat slot + of_nat i) = out ! i"
    "target_hw (world_target w') = configure_target r k h"
proof -
  from run obtain k r w1 w2 where k: "get_otp config (world_fs w) = Ok k"
    and other: "process_other L env P config (RunApplication args slot) w = (Ok r, w1)"
    and regs: "set_shadow_registers P r k w1 = (Ok (), w2)" and w': "world_target w' = world_target w2"
    by (auto simp: run_process_def Let_def outcome_iffs split: if_splits prod.splits option.splits)
  from other obtain args' is_bl start so fs path bytes where
    o: "download_target config (RunApplication args slot) = Ok (args', is_bl, start)"
      "sign_process L env config (if is_bl then SignBootloader (sign_args args') else SignApplication (sign_args args'))
         (world_fs w) = (Ok so, fs)"
      "sign_output_path so = Some path" "r = sign_rkth so" "fs path = Some bytes"
      "flash_download P (FlashBin start) bytes (world_target w) = (True, world_target w1)"
    by (rule process_other_Ok)
  from o(1) app have t: "args' = args" "is_bl = False" "start = slot_starts app ! unat slot"
    and slot: "unat slot < length (slot_starts app)"
    by (auto simp: download_target_def split: if_splits)
  from o(2) t have sign: "sign_process L env config (SignApplication (sign_args args)) (world_fs w) = (Ok so, fs)" by simp
  have cmd: "sign_command_args (SignApplication (sign_args args)) = (False, sign_args args)" by simp
  from sign cmd laws(1,3) obtain plain base_addr cb im rkhs n where
    s: "check_run_start config False base_addr = Ok ()" "cert_block_rkth (crypto_lib L) cb = Ok (sign_rkth so)"
      "length (rkth_bytes (sign_rkth so)) = 32" "root_key_hashes cb = Ok rkhs" "rkh_start cb = Ok n" "0x18 \<le> n"
      "image_new (crypto_lib L) plain base_addr (image_type_new XipPlainSigned) cb = Ok im"
    and out: "\<forall>p. sign_output_path so = Some p \<longrightarrow> p = output_path_with_default (sign_args args) \<and>
       (\<exists>sig otp out. image_merge (crypto_lib L) sig (Some otp) im = Ok out \<and> fs p = Some out)"
    by (rule sign_process_Ok)
  from out o(3,5) obtain sig otp where merge: "image_merge (crypto_lib L) sig (Some otp) im = Ok bytes" by auto
  have base: "ucast base_addr = appl_run_start app"
    using s(1) app by (auto simp: check_run_start_def split: if_splits)
  note w2 = set_shadow_registers_Ok [OF regs]
  have flash: "\<forall>i < length bytes. target_flash (world_target w') (slot_starts app ! unat slot + of_nat i) = bytes ! i"
    using laws(2) o(6) t(3) unfolding flash_laws_def w' w2 by auto
  have "target_hw (world_target w') = configure_target r k (target_hw (world_target w1))" using w' w2 by simp
  with slot base s [folded o(4)] k merge flash show thesis by (intro that) (auto dest: get_otp_length)
qed

text \<open>The bootloader reads a slot that holds a signed application.\<close>

lemma flashed_application_loads:
  fixes h :: "'y hw" and rom :: "'y rom_api"
  assumes im: "image_new C plain 0x10020000 (image_type_new XipPlainSigned) cb = Ok im"
    and merge: "image_merge C sig k im = Ok out"
    and table: "root_key_hashes cb = Ok rkhs" "rkh_start cb = Ok n" "0x18 \<le> n" and r: "cert_block_rkth C cb = Ok r"
    and hash: "\<And>data h. sha256 rom data h = (Ok (sha256_digest C data), h)"
    and view: "views_partition pops p part t" and size: "part_size part = 0xec000"
    and flash: "\<forall>i < length out. target_flash t (flash_base + of_nat (part_offset part) + of_nat i) = out ! i"
    and fits: "length out \<le> part_size part"
  shows "\<exists>i h'. load_image (example_config crc non_secure evk buf) pops p h = (Ok i, p, h') \<and> target_ptr i = 0x10020000 \<and>
    ram_slice (target_ptr i) (image_len i) h' = out \<and> image_rkth rom i h' = (Ok (rkth_bytes r), h')"
proof -
  let ?cfg = "example_config crc non_secure evk buf"
  note ivt = signed_image_ivt [OF im merge]
  have hashes: "rkth_bytes r = sha256_digest C (concat rkhs)" using r table(1) by (auto simp: cert_block_rkth_def)
  define all where "all = map (\<lambda>i. target_flash t (flash_base + of_nat (part_offset part + i))) [0..<part_size part]"
  have "take (length out) all = out"
    by (rule nth_equalityI) (use fits flash in \<open>simp_all add: all_def add.assoc\<close>)
  then obtain padding where whole: "all = out @ padding" by (metis append_take_drop_id)
  have slot_reads: "capacity pops p = length all"
    "\<And>m. m \<le> length all \<Longrightarrow> flash_read pops 0 m p = (Ok (take m all), p)"
    using view by (auto simp: views_partition_def all_def take_map)
  have long: "64 \<le> length out" using ivt by (auto simp: ivt_read_from_slice_def split: if_splits)
  have sizes: "length all < snd (SLOT_SIZE_RANGE ?cfg)" "fst (SLOT_SIZE_RANGE ?cfg) \<le> length out"
    using long size by (simp_all add: all_def example_config_def)
  have lenw: "unat (of_nat (length out) :: u32) = length out" using ivt unat_of_nat_u32 by blast
  have sum: "unat (0x10020000 + of_nat (length out) :: u32) = 0x10020000 + length out"
    using lenw fits size by (simp add: unat_word_ariths take_bit_eq_mod)
  have range: "unat (0x10020000 :: u32) + length out < 2 ^ 32" "range_contains (LOAD_RANGE ?cfg) 0x10020000"
    "range_contains (LOAD_RANGE ?cfg) (0x10020000 + of_nat (length out))"
    using fits size sum by (simp_all add: example_config_def word_le_nat_alt word_less_nat_alt)
  from signed_image_loads [OF im merge table slot_reads [unfolded whole] sizes [unfolded whole] range, of h rom] hash
  show ?thesis by (simp add: to_rkth_def hashes)
qed

lemma ucast_up_eq: "ucast (a :: u32) = (ucast b :: u64) \<longleftrightarrow> a = b"
proof
  assume "ucast a = (ucast b :: u64)"
  then have "uint (ucast a :: u64) = uint (ucast b :: u64)" by simp
  then have "take_bit 64 (uint a) = take_bit 64 (uint b)" by (simp add: unsigned_ucast_eq)
  moreover have "take_bit 64 (uint x) = uint x" for x :: u32
    using uint_lt2p [of x] by (simp add: take_bit_int_eq_self)
  ultimately show "a = b" by (simp add: word_uint_eq_iff)
qed simp

text \<open>For the witness: a probe that programs any file of sensible size, and the slot read back from the chip.\<close>

definition demo_probe :: "unit probe_env" where
  "demo_probe =
     \<lparr>selector_parses = (\<lambda>_. True), open_selector = (\<lambda>_. True), list_all_probes = [''probe''], open_probe = (\<lambda>_. True),
      attach_chip = (\<lambda>_. True),
      flash_download = (\<lambda>format bytes t.
        case format of
          FlashElf \<Rightarrow> (True, t)
        | FlashBin a \<Rightarrow>
            if length bytes < 2 ^ 32
            then (True, t\<lparr>target_flash := (\<lambda>x. if unat (x - a) < length bytes then bytes ! unat (x - a) else target_flash t x)\<rparr>)
            else (False, t)),
      core_available = True, core_access = (\<lambda>_ _. True), core_resets = True\<rparr>"

definition demo_run_args :: run_arguments where
  "demo_run_args =
     \<lparr>sign_args = demo_sign_args, run_probe_args = \<lparr>probe_selector = None, probe_chip = ''MIMXRT685SFVKB''\<rparr>,
      probe_rs_path = ''probe-rs''\<rparr>"

definition demo_world :: "unit world" where
  "demo_world = \<lparr>world_fs = demo_fs, world_target = \<lparr>target_flash = (\<lambda>_. 0xff), target_hw = blank_hw\<rparr>\<rparr>"

definition view_ops :: "partition \<Rightarrow> 'x target \<Rightarrow> (unit, unit) nor_flash" where
  "view_ops part t =
     \<lparr>ERASE_SIZE = 4096,
      capacity = (\<lambda>_. part_size part),
      flash_read = (\<lambda>off n p.
        (Ok (map (\<lambda>i. target_flash t (flash_base + of_nat (part_offset part + unat off + i))) [0..<n]), p)),
      flash_erase = (\<lambda>a b p. (Err (), p)),
      flash_write = (\<lambda>a bs p. (Err (), p))\<rparr>"

lemma view_ops_views: "views_partition (view_ops part t) () part t"
  by (simp add: views_partition_def view_ops_def)

lemma demo_flash_laws: "flash_laws demo_probe"
proof -
  have "unat (a + of_nat i - a :: u64) = i" if "i < length bytes" "length bytes < 2 ^ 32" for i a and bytes :: "u8 list"
    using that by (simp add: unat_of_nat take_bit_nat_eq_self)
  then show ?thesis by (auto simp: flash_laws_def demo_probe_def split: if_splits)
qed

lemma demo_run: "\<exists>w'. run_process demo_libs nxp_env demo_probe shipped_config (RunApplication demo_run_args 0) demo_world = (Ok (), w')"
proof -
  obtain out fs' where
    sign: "sign_process demo_libs nxp_env shipped_config (SignApplication demo_sign_args) demo_fs =
      (Ok \<lparr>sign_output_path = Some ''app.signed.bin'', sign_rkth = Rkth (replicate 32 0)\<rparr>, fs')"
    and out: "fs' ''app.signed.bin'' = Some out" "length out = 240"
    using demo_sign by blast
  have tgt: "download_target shipped_config (RunApplication demo_run_args 0) = Ok (demo_run_args, False, 0x800D000)"
    by (simp add: download_target_def shipped_config_def)
  have ses: "start_session demo_probe chip None = Ok ()" for chip by (simp add: start_session_def demo_probe_def)
  have fl: "flash_download demo_probe (FlashBin a) out t =
      (True, t\<lparr>target_flash := (\<lambda>x. if unat (x - a) < length out then out ! unat (x - a) else target_flash t x)\<rparr>)" for a t
    using out(2) by (simp add: demo_probe_def)
  have args: "sign_args demo_run_args = demo_sign_args" "probe_selector (run_probe_args demo_run_args) = None"
    "world_fs demo_world = demo_fs"
    by (simp_all add: demo_run_args_def demo_world_def)
  obtain w1 where other: "process_other demo_libs nxp_env demo_probe shipped_config (RunApplication demo_run_args 0) demo_world =
      (Ok (Rkth (replicate 32 0)), w1)"
    using sign out(1) by (simp add: process_other_def tgt ses args on_files_def download_file_def fl)
  have k: "get_otp shipped_config (world_fs demo_world) = Ok (Otp (replicate 32 7))"
    by (rule demo_otp) (simp add: demo_world_def demo_fs_def)
  have ok: "core_access demo_probe a t" "core_available demo_probe" "core_resets demo_probe" for a t
    by (simp_all add: demo_probe_def)
  then obtain w2 where "set_shadow_registers demo_probe (Rkth (replicate 32 0)) (Otp (replicate 32 7)) w1 = (Ok (), w2)"
    by (simp add: set_shadow_registers_def core_write_32_def core_read_32_def Let_def)
  then show ?thesis using k other ok by (simp add: run_process_def nxp_env_def Let_def)
qed

text \<open>The header of an image of a given length that asks to be loaded to a given address.\<close>

definition header_for :: "nat \<Rightarrow> u32 \<Rightarrow> u8 list" where
  "header_for len addr =
     replicate 32 0 @ u32_to_le_bytes (of_nat len) @ u32_to_le_bytes IMAGE_TYPE_TZ_XIP_SIGNED @ u32_to_le_bytes 0x40 @
     replicate 8 0 @ u32_to_le_bytes addr @ replicate 8 0"

lemma length_header_for [simp]: "length (header_for len addr) = 0x40"
  by (simp add: header_for_def)

lemma header_for_ivt:
  "ivt_read_from_slice (header_for len addr @ payload) =
     Ok \<lparr>image_len = of_nat len, image_type = IMAGE_TYPE_TZ_XIP_SIGNED, header_offset = 0x40, target_ptr = addr\<rparr>"
proof -
  have "u32_at 0x20 (header_for len addr @ payload) = of_nat len"
    "u32_at 0x24 (header_for len addr @ payload) = IMAGE_TYPE_TZ_XIP_SIGNED"
    "u32_at 0x28 (header_for len addr @ payload) = 0x40" "u32_at 0x34 (header_for len addr @ payload) = addr"
    by (simp_all add: header_for_def u32_at_def)
  then show ?thesis by (simp add: ivt_read_from_slice_def)
qed

section \<open>Properties\<close>

text \<open>
  C36. The load range of the example bootloader covers the memory the bootloader itself runs from. Whatever
  bytes are meant to replace its code, up to the whole of it, there are contents of an application slot
  for which the checks before the copy pass and the copy puts exactly those bytes at the address where,
  by the tool's configuration, the running bootloader is; the authentication of the image is only
  reached afterwards.
\<close>

theorem load_range_covers_bootloader:
  assumes "config_bootloader shipped_config = Some bl" and "length payload + 0x40 \<le> unat (boot_max_size bl)"
  shows "\<exists>slot image i h'. length slot = part_size (app_slot0 ext_flash) \<and> take (length image) slot = image \<and>
    drop 0x40 image = payload \<and>
    load_image (example_config crc non_secure evk buf) slot_ops slot h = (Ok i, slot, h') \<and>
    ucast (target_ptr i) = boot_run_start bl \<and>
    ram_slice (target_ptr i) (of_nat (length image)) h' = image"
proof -
  let ?n = "length payload + 0x40"
  let ?image = "header_for ?n 0x10170000 @ payload"
  let ?pad = "replicate (0xec000 - ?n) (0xff :: u8)"
  let ?i = "\<lparr>image_len = of_nat ?n, image_type = IMAGE_TYPE_TZ_XIP_SIGNED, header_offset = 0x40, target_ptr = 0x10170000\<rparr>"
  have bl: "boot_run_start bl = 0x10170000" and n: "?n \<le> 0x8000"
    using assms by (auto simp: shipped_config_def)
  have len: "length ?image = ?n" by simp
  have un: "unat (of_nat ?n :: u32) = ?n" by (rule unat_of_nat_u32) (use n in simp)
  have cap: "capacity slot_ops (?image @ ?pad) = length (?image @ ?pad)" by (simp add: slot_ops_def)
  have read: "flash_read slot_ops 0 m (?image @ ?pad) = (Ok (take m (?image @ ?pad)), ?image @ ?pad)"
    if "m \<le> length (?image @ ?pad)" for m
    using that by (simp add: slot_ops_def)
  have total: "length (?image @ ?pad) = 0xec000" using n unfolding length_append len by simp
  have "unat (0x10170000 + of_nat ?n :: u32) = 0x10170000 + ?n"
    unfolding unat_word_ariths(1) un using n by (simp add: take_bit_nat_eq_self)
  then have ends: "range_contains (LOAD_RANGE (example_config crc non_secure evk buf)) (target_ptr ?i + image_len ?i)"
    using n by (simp add: example_config_def word_le_nat_alt word_less_nat_alt)
  have load: "load_image (example_config crc non_secure evk buf) slot_ops (?image @ ?pad) h =
      (Ok ?i, ?image @ ?pad, write_ram 0x10170000 ?image h)"
    and ram: "ram_slice 0x10170000 (of_nat ?n) (write_ram 0x10170000 ?image h) = ?image"
    using stored_image_loads [where i = ?i and out = ?image and padding = ?pad and pops = slot_ops and p = "?image @ ?pad" and
        cfg = "example_config crc non_secure evk buf" and h = h, OF header_for_ivt _ _ cap read _ _ _ _ ends] un len total n
    by (simp_all add: example_config_def)
  show ?thesis
  proof (rule exI [of _ "?image @ ?pad"], rule exI [of _ ?image], rule exI [of _ ?i],
      rule exI [of _ "write_ram 0x10170000 ?image h"], intro conjI)
    show "ram_slice (target_ptr ?i) (of_nat (length ?image)) (write_ram 0x10170000 ?image h) = ?image"
      unfolding len using ram by simp
  qed (use load total bl in \<open>simp_all add: ext_flash_def\<close>)
qed

theorem load_range_covers_bootloader_witness:
  "\<exists>slot image i h'. length slot = 0xec000 \<and> drop 0x40 image = [0xde, 0xad] \<and>
     load_image (example_config crc8_opensafety False True 0x30176000) slot_ops slot blank_hw = (Ok i, slot, h') \<and>
     ram_slice 0x10170000 66 h' = image"
proof -
  obtain bl where bl: "config_bootloader shipped_config = Some bl" by (simp add: shipped_config_def)
  then have "length [0xde, 0xad :: u8] + 0x40 \<le> unat (boot_max_size bl)" and run: "boot_run_start bl = 0x10170000"
    by (auto simp: shipped_config_def)
  from load_range_covers_bootloader [where crc = crc8_opensafety and non_secure = False and evk = True and
      buf = "0x30176000" and h = blank_hw, OF bl this(1)]
  obtain slot image i h' where *: "length slot = part_size (app_slot0 ext_flash)" "drop 0x40 image = [0xde, 0xad]"
    "load_image (example_config crc8_opensafety False True 0x30176000) slot_ops slot blank_hw = (Ok i, slot, h')"
    "ucast (target_ptr i) = boot_run_start bl" "ram_slice (target_ptr i) (of_nat (length image)) h' = image" by blast
  have "length (drop 0x40 image) = 2" by (simp add: *(2))
  then have "length image = 66" by simp
  moreover have "target_ptr i = 0x10170000" using *(4) ucast_up_eq [of "target_ptr i" "0x10170000"] run by simp
  ultimately show ?thesis using *
    by - (rule exI [of _ slot], rule exI [of _ image], rule exI [of _ i], rule exI [of _ h'], simp add: ext_flash_def)
qed

text \<open>
  C28. From the ELF file to the checked memory: when \<open>run\<close> succeeds for an application, the chip's flash
  holds, at the slot's partition, an image whose signature verifies under the key of its certificate
  block, and the shadow registers hold a root key hash and have secure boot enabled. The bootloader
  that then reads the slot, if the image fits into it, accepts the image, copies exactly its bytes to
  the start of its load range and computes, with the same SHA-256, the very hash the registers hold.
\<close>

theorem run_application_boots:
  fixes h :: "'y hw" and rom :: "'y rom_api"
  assumes run: "run_process L env P shipped_config (RunApplication args slot) w = (Ok (), w')"
    and laws: "nxpimage_laws env (nxpimage_path (sign_args args))" "flash_laws P" "paths_apart env (sign_args args)"
    and hash: "\<And>data h. sha256 rom data h = (Ok (sha256_digest (crypto_lib L) data), h)"
    and view: "unat slot < 2 \<Longrightarrow> views_partition pops p (snd (example_partitions ext_flash) ! unat slot) (world_target w')"
  shows "\<exists>im sig key out rkth. out = sign_me im @ sig \<and>
    (\<forall>i < length out. target_flash (world_target w')
       (flash_base + of_nat (part_offset (snd (example_partitions ext_flash) ! unat slot)) + of_nat i) = out ! i) \<and>
    verifying_key (crypto_lib L) (img_cert_block im) = Ok key \<and> rsa_verify (crypto_lib L) key (sign_me im) sig \<and>
    (let hw = target_hw (world_target w') in
       shadow_rkth hw = (Ok rkth, hw) \<and>
       (\<exists>cfg0. shadow_boot_cfg_0 hw = (Ok cfg0, hw) \<and> \<not> secure_boot_disabled cfg0)) \<and>
    (length out \<le> part_size (snd (example_partitions ext_flash) ! unat slot) \<longrightarrow>
       (\<exists>i h'. load_image (example_config crc non_secure evk buf) pops p h = (Ok i, p, h') \<and> target_ptr i = 0x10020000 \<and>
          ram_slice (target_ptr i) (image_len i) h' = out \<and> image_rkth rom i h' = (Ok rkth, h')))"
proof -
  let ?C = "crypto_lib L" and ?t = "world_target w'"
  define app where "app = \<lparr>slot_starts = [0x800D000, 0x80F9000], appl_run_start = 0x10020000, appl_slot_size = 0xec000\<rparr>"
  have app: "config_application shipped_config = Some app" by (simp add: shipped_config_def app_def)
  from run app laws obtain plain base_addr cb im sig otp out r k rkhs n hw where
    s: "unat slot < length (slot_starts app)" "ucast base_addr = appl_run_start app"
      "cert_block_rkth ?C cb = Ok r" "length (rkth_bytes r) = 32" "length (otp_bytes k) = 32"
    and table: "root_key_hashes cb = Ok rkhs" "rkh_start cb = Ok n" "0x18 \<le> n"
    and im: "image_new ?C plain base_addr (image_type_new XipPlainSigned) cb = Ok im"
    and merge: "image_merge ?C sig (Some otp) im = Ok out"
    and flash: "\<forall>i < length out. target_flash ?t (slot_starts app ! unat slot + of_nat i) = out ! i"
    and regs: "target_hw ?t = configure_target r k hw"
    by (rule run_process_Ok)
  note ivt = signed_image_ivt [OF im merge]
  have slot: "unat slot < 2" using s(1) by (simp add: app_def)
  define part where "part = snd (example_partitions ext_flash) ! unat slot"
  have part: "part_size part = 0xec000" "slot_starts app ! unat slot = flash_base + of_nat (part_offset part)"
    using slot by (auto simp: part_def app_def example_partitions_def ext_flash_def flash_base_def less_Suc_eq numeral_2_eq_2)
  have base: "base_addr = 0x10020000" using s(2) by (simp add: app_def ucast_up_eq [symmetric])
  have view': "views_partition pops p part ?t" using view [OF slot] by (simp add: part_def)
  have flash': "\<forall>i < length out. target_flash ?t (flash_base + of_nat (part_offset part) + of_nat i) = out ! i"
    using flash part(2) by simp
  note loads = flashed_application_loads [OF im [unfolded base] merge table s(3) hash view' part(1) flash']
  obtain key where key: "verifying_key ?C (img_cert_block im) = Ok key" "rsa_verify ?C key (sign_me im) sig"
    using merge by (auto simp: image_merge_def image_check_def outcome_iffs split: if_splits)
  have "let hw = target_hw ?t in shadow_rkth hw = (Ok (rkth_bytes r), hw) \<and>
      (\<exists>cfg0. shadow_boot_cfg_0 hw = (Ok cfg0, hw) \<and> \<not> secure_boot_disabled cfg0)"
    using configure_target_read [OF s(4,5), of hw] regs by (simp add: Let_def)
  then show ?thesis using ivt key loads flash' unfolding part_def by blast
qed

theorem run_application_boots_witness:
  "\<exists>w' im sig. run_process demo_libs nxp_env demo_probe shipped_config (RunApplication demo_run_args 0) demo_world = (Ok (), w') \<and>
     rsa_verify demo_crypto () (sign_me im) sig \<and>
     (\<exists>rkth. shadow_rkth (target_hw (world_target w')) = (Ok rkth, target_hw (world_target w'))) \<and>
     (length (sign_me im @ sig) \<le> part_size (app_slot0 ext_flash) \<longrightarrow>
        (\<exists>i h'. load_image (example_config (\<lambda>_. 0) False False 0) (view_ops (app_slot0 ext_flash) (world_target w')) () blank_hw =
           (Ok i, (), h')))"
proof -
  obtain w' where run: "run_process demo_libs nxp_env demo_probe shipped_config (RunApplication demo_run_args 0) demo_world = (Ok (), w')"
    using demo_run by blast
  have laws: "nxpimage_laws nxp_env (nxpimage_path (sign_args demo_run_args))" "paths_apart nxp_env (sign_args demo_run_args)"
    using demo_laws by (simp_all add: demo_run_args_def)
  have hash: "\<And>data h. sha256 demo_rom data h = (Ok (sha256_digest (crypto_lib demo_libs) data), h)"
    by (simp add: demo_rom_def demo_libs_def demo_crypto_def)
  have lib: "crypto_lib demo_libs = demo_crypto" by (simp add: demo_libs_def)
  have part: "snd (example_partitions ext_flash) ! unat (0 :: u8) = app_slot0 ext_flash" by (simp add: example_partitions_def)
  have view: "unat (0 :: u8) < 2 \<Longrightarrow>
      views_partition (view_ops (app_slot0 ext_flash) (world_target w')) () (snd (example_partitions ext_flash) ! unat (0 :: u8))
        (world_target w')"
    using view_ops_views part by simp
  from run_application_boots [OF run laws(1) demo_flash_laws laws(2) hash view, of "\<lambda>_. 0" False False 0 blank_hw]
  obtain im sig key where w: "rsa_verify demo_crypto key (sign_me im) sig"
      "\<exists>rkth. shadow_rkth (target_hw (world_target w')) = (Ok rkth, target_hw (world_target w'))"
      "length (sign_me im @ sig) \<le> part_size (app_slot0 ext_flash) \<longrightarrow>
        (\<exists>i h'. load_image (example_config (\<lambda>_. 0) False False 0) (view_ops (app_slot0 ext_flash) (world_target w')) () blank_hw =
           (Ok i, (), h'))"
    unfolding Let_def part lib by blast
  from w(1) have "rsa_verify demo_crypto () (sign_me im) sig" by (cases key) simp
  with run w(2,3) show ?thesis by blast
qed

end
