(* ===== verification/Mbi_Nxp.thy ===== *)
theory Mbi_Nxp
  imports Cert_Generate
begin

text \<open>
  \<open>generate_nxp\<close> of \<open>processors/mbi/mod.rs\<close>: a master boot image made by the vendor's tool, with the
  checks the code performs on the result.
\<close>

text \<open>\<open>{:#x}\<close> of an address.\<close>

definition hex_digit_char :: "nat \<Rightarrow> char" where
  "hex_digit_char d = char_of (if d < 10 then 48 + d else 87 + d)"

fun lower_hex :: "nat \<Rightarrow> string" where
  "lower_hex n = (if n < 16 then [hex_digit_char n] else lower_hex (n div 16) @ [hex_digit_char (n mod 16)])"

declare lower_hex.simps [simp del]

text \<open>\<open>Path::join\<close>: an absolute path replaces the directory.\<close>

definition path_join :: "string \<Rightarrow> string \<Rightarrow> string" where
  "path_join dir path =
     (if path \<noteq> [] \<and> hd path = CHR ''/'' then path
      else if dir = [] \<or> last dir = CHR ''/'' then dir @ path
      else dir @ ''/'' @ path)"

text \<open>The map's entries in the order of its keys, each as an override option.\<close>

definition nxp_overrides :: "string \<Rightarrow> u32 \<Rightarrow> string \<Rightarrow> string \<Rightarrow> string list" where
  "nxp_overrides block_file base_addr inp outp_abs =
     concat (map (\<lambda>(k, v). [''-oc'', k @ ''='' @ v])
       [(''certBlock'', block_file),
        (''inputImageFile'', inp),
        (''masterBootOutputFile'', outp_abs),
        (''outputImageExecutionAddress'', ''0x'' @ lower_hex (unat base_addr))])"

text \<open>
  The lengths are \<open>usize\<close>: an output shorter than the input wraps around, and then exceeds the limit.
\<close>

definition check_nxp_output :: "bool \<Rightarrow> u8 list \<Rightarrow> u8 list \<Rightarrow> (unit, cmd_error) res" where
  "check_nxp_output is_bootloader input out =
     (let diff_len = (if length input \<le> length out then length out - length input
                      else 2 ^ 64 + length out - length input)
      in if diff_len > 0xC47 then Err AddedTooMuch
         else
           (let expected_image_type = (if is_bootloader then 0x0004 else 0x0004) in
            case slice 0x24 0x28 out of
              None \<Rightarrow> Panic
            | Some bytes \<Rightarrow>
                (let type = u32_from_le_bytes bytes in
                 if type \<noteq> expected_image_type then Err (WrongImageType type) else Ok ())))"

definition generate_nxp ::
    "host_env \<Rightarrow> string \<Rightarrow> string \<Rightarrow> u32 \<Rightarrow> string \<Rightarrow> bool \<Rightarrow> cert_block_config \<Rightarrow> fs \<Rightarrow> (unit, cmd_error) res \<times> fs" where
  "generate_nxp env nxpimage inp base_addr outp is_bootloader cert_block fs =
     with_temp_file env 0 (cert_block_json env cert_block) (\<lambda>block_file fs.
       let outp_abs = path_join (current_dir env) outp;
           mbi_conf_path = (if is_bootloader then ''mbi-bootloader.yaml'' else ''mbi-application.yaml'')
       in
       and_then (run_checked env nxpimage ''./artifacts''
         ([''mbi'', ''export'', ''-c'', mbi_conf_path] @ nxp_overrides block_file base_addr inp outp_abs) fs)
         (\<lambda>_ fs.
       and_then (map_err ToolError (fs_read inp fs), fs) (\<lambda>input fs.
       and_then (map_err ToolError (fs_read outp fs), fs) (\<lambda>out fs.
       (check_nxp_output is_bootloader input out, fs))))) fs"

section \<open>Lemmas\<close>

lemma check_nxp_output_Ok:
  assumes "check_nxp_output is_bootloader input out = Ok ()" and "length input < 2 ^ 63"
  shows "length input \<le> length out \<and> length out \<le> length input + 0xC47 \<and> 0x28 \<le> length out \<and> u32_at 0x24 out = 4"
proof -
  have le: "length input \<le> length out"
  proof (rule ccontr)
    assume "\<not> length input \<le> length out"
    moreover have "0xC47 < 2 ^ 64 + length out - length input" using assms(2) by simp
    ultimately show False using assms(1) by (simp add: check_nxp_output_def Let_def)
  qed
  with assms(1) have "slice 0x24 0x28 out \<noteq> None" "\<not> length out - length input > 0xC47"
    by (auto simp: check_nxp_output_def Let_def split: if_splits option.splits)
  with assms(1) le show ?thesis
    by (auto simp: check_nxp_output_def Let_def slice_def u32_at_def split: if_splits)
qed

text \<open>For the witness: a vendor's tool that succeeds and writes a short signed image.\<close>

definition mbi_env :: host_env where
  "mbi_env = touch_env\<lparr>run_command :=
     (\<lambda>_ _ _ fs. (Some \<lparr>exec_success = True, exec_stdout = []\<rparr>, fs(''out.bin'' \<mapsto> replicate 0x24 0 @ [4, 0, 0, 0])))\<rparr>"

section \<open>Properties\<close>



end
