(* ===== verification/Nxp_Test.thy ===== *)
theory Nxp_Test
  imports Mbi_Nxp Tool_Commands
begin

text \<open>
  \<open>bootloader-tool/tests/behavior_matches_nxpimage.rs\<close>: the integration tests that compare the images
  of the tool's own code with those of the vendor's \<open>nxpimage\<close>, for the two example programs and, for
  the bootloader, with some bytes appended. A failed \<open>unwrap\<close>, an index out of range and a difference
  of the two outputs are a panic, which is a failed test. The temporary directory \<open>dir\<close> is removed
  when it is dropped, also by a panic; on a difference it is kept.
\<close>

section \<open>The tests\<close>

definition get_private_key :: "config \<Rightarrow> nat \<Rightarrow> (string, 'e) res" where
  "get_private_key config idx =
     (if idx < length (config_certificates config) then
        (let chain = config_certificates config ! idx in
         if chain = [] then Panic
         else
           (case certificate_proto (last chain) of
              None \<Rightarrow> Panic
            | Some prototype \<Rightarrow> Ok (proto_key_path prototype)))
      else Panic)"

definition read_example :: "('c, 'k) libs \<Rightarrow> string \<Rightarrow> fs \<Rightarrow> (u8 list \<times> u32, 'e) res" where
  "read_example L app_or_boot fs =
     (let path = ''../examples/rt685s/target/thumbv8m.main-none-eabihf/release/example-'' @ app_or_boot in
      case fs path of
        None \<Rightarrow> Panic
      | Some input \<Rightarrow>
          (case elf_parse L input of
             None \<Rightarrow> Panic
           | Some elf \<Rightarrow> (case objcopy elf of Ok r \<Rightarrow> Ok r | _ \<Rightarrow> Panic)))"

text \<open>Dropping the temporary directory.\<close>

definition remove_dir :: "string \<Rightarrow> fs \<Rightarrow> fs" where
  "remove_dir dir fs = (\<lambda>p. if take (Suc (length dir)) p = dir @ ''/'' then None else fs p)"

definition both_outputs ::
    "('c, 'k) libs \<Rightarrow> host_env \<Rightarrow> string \<Rightarrow> u8 list \<Rightarrow> u32 \<Rightarrow> bool \<Rightarrow> otp option \<Rightarrow> config \<Rightarrow> nat \<Rightarrow> fs \<Rightarrow>
     (u8 list \<times> u8 list, unit) res \<times> fs" where
  "both_outputs L env dir input_data base_addr is_bootloader k config idx fs =
     (let inp = path_join dir ''input.bin'';
          fs = fs(inp \<mapsto> input_data);
          pure_out = path_join dir ''pure.bin'';
          nxp_out = path_join dir ''nxp.bin''
      in
      and_then (unwrap_ok (cert_block_generate (crypto_lib L) env ''nxpimage'' config idx fs)) (\<lambda>cb fs.
      and_then (get_private_key config idx, fs) (\<lambda>private_key_path fs.
      and_then (unwrap_ok (generate_pure (crypto_lib L) (rsa_signer L) inp base_addr pure_out is_bootloader k cb
        private_key_path fs)) (\<lambda>_ fs.
      let cert_block_config = generate_config env config idx None fs in
      and_then (unwrap_ok (generate_nxp env ''nxpimage'' inp base_addr nxp_out is_bootloader cert_block_config fs)) (\<lambda>_ fs.
      and_then (unwrap_ok (fs_read pure_out fs, fs)) (\<lambda>pure fs.
      and_then (unwrap_ok (fs_read nxp_out fs, fs)) (\<lambda>nxp fs.
      (Ok (pure, nxp), fs))))))))"

definition assert_same ::
    "('c, 'k) libs \<Rightarrow> host_env \<Rightarrow> string \<Rightarrow> u8 list \<Rightarrow> u32 \<Rightarrow> bool \<Rightarrow> otp option \<Rightarrow> config \<Rightarrow> nat \<Rightarrow> fs \<Rightarrow>
     (unit, unit) res \<times> fs" where
  "assert_same L env dir input_data base_addr is_bootloader k config idx fs =
     (case both_outputs L env dir input_data base_addr is_bootloader k config idx fs of
        (Ok (pure, nxp), fs) \<Rightarrow> if pure \<noteq> nxp then (Panic, fs) else (Ok (), remove_dir dir fs)
      | (_, fs) \<Rightarrow> (Panic, remove_dir dir fs))"

definition test_app :: "('c, 'k) libs \<Rightarrow> host_env \<Rightarrow> string \<Rightarrow> fs \<Rightarrow> (unit, unit) res \<times> fs" where
  "test_app L env dir fs =
     and_then (unwrap_ok (config_read L ''config.toml'' fs, fs)) (\<lambda>config fs.
     and_then (read_example L ''application'' fs, fs) (\<lambda>(data, base_addr) fs.
     assert_same L env dir data base_addr False None config 1 fs))"

definition test_bootloader_padding :: "('c, 'k) libs \<Rightarrow> host_env \<Rightarrow> string \<Rightarrow> u8 \<Rightarrow> fs \<Rightarrow> (unit, unit) res \<times> fs" where
  "test_bootloader_padding L env dir added_bytes fs =
     and_then (unwrap_ok (config_read L ''config.toml'' fs, fs)) (\<lambda>config fs.
     and_then (read_example L ''bootloader'' fs, fs) (\<lambda>(data, base_addr) fs.
     let data = data @ map (\<lambda>i. 0x42 + of_nat i) [0..<unat added_bytes] in
     assert_same L env dir data base_addr True None config 0 fs))"

definition test_bootloader :: "('c, 'k) libs \<Rightarrow> host_env \<Rightarrow> string \<Rightarrow> fs \<Rightarrow> (unit, unit) res \<times> fs" where
  "test_bootloader L env dir fs = test_bootloader_padding L env dir 0 fs"

definition test_bootloader_padding_1 :: "('c, 'k) libs \<Rightarrow> host_env \<Rightarrow> string \<Rightarrow> fs \<Rightarrow> (unit, unit) res \<times> fs" where
  "test_bootloader_padding_1 L env dir fs = test_bootloader_padding L env dir 1 fs"

definition test_bootloader_padding_5 :: "('c, 'k) libs \<Rightarrow> host_env \<Rightarrow> string \<Rightarrow> fs \<Rightarrow> (unit, unit) res \<times> fs" where
  "test_bootloader_padding_5 L env dir fs = test_bootloader_padding L env dir 5 fs"

definition test_bootloader_padding_9 :: "('c, 'k) libs \<Rightarrow> host_env \<Rightarrow> string \<Rightarrow> fs \<Rightarrow> (unit, unit) res \<times> fs" where
  "test_bootloader_padding_9 L env dir fs = test_bootloader_padding L env dir 9 fs"

definition test_bootloader_padding_17 :: "('c, 'k) libs \<Rightarrow> host_env \<Rightarrow> string \<Rightarrow> fs \<Rightarrow> (unit, unit) res \<times> fs" where
  "test_bootloader_padding_17 L env dir fs = test_bootloader_padding L env dir 17 fs"

section \<open>Lemmas\<close>

text \<open>The directory is named without a trailing slash, as \<open>tempdir\<close> names it.\<close>

definition dir_ok :: "string \<Rightarrow> bool" where
  "dir_ok dir \<longleftrightarrow> dir \<noteq> [] \<and> last dir \<noteq> CHR ''/''"

lemma test_paths:
  assumes "dir_ok dir"
  shows "path_join dir ''input.bin'' = dir @ ''/input.bin''" "path_join dir ''pure.bin'' = dir @ ''/pure.bin''"
    "path_join dir ''nxp.bin'' = dir @ ''/nxp.bin''"
    "set_extension ''.prepared.bin'' (dir @ ''/pure.bin'') = dir @ ''/pure..prepared.bin''"
    "set_extension ''.signature.bin'' (dir @ ''/pure.bin'') = dir @ ''/pure..signature.bin''"
  using assms
  by (simp_all add: dir_ok_def path_join_def set_extension_def file_name_def file_stem_def Let_def)

lemma remove_dir_inside: "remove_dir dir fs (dir @ CHR ''/'' # name) = None"
  by (simp add: remove_dir_def)

lemma assert_same_Ok:
  "assert_same L env dir data base_addr boot k config idx fs = (Ok (), fs') \<longleftrightarrow>
     (\<exists>out fs1. both_outputs L env dir data base_addr boot k config idx fs = (Ok (out, out), fs1) \<and>
        fs' = remove_dir dir fs1)"
  by (auto simp: assert_same_def split: prod.splits res.splits if_splits)

text \<open>What \<open>generate_pure\<close> leaves when it succeeds, and which files it writes.\<close>

lemma generate_pure_Ok:
  assumes "generate_pure C signer inp base_addr outp boot k cb key fs = (Ok (), fs')"
    and "inp \<notin> {set_extension ''.prepared.bin'' outp, set_extension ''.signature.bin'' outp}"
  obtains plain im sig out where "fs inp = Some plain"
    "image_new C plain base_addr (image_type_new XipPlainSigned) cb = Ok im" "image_merge C sig k im = Ok out"
    "fs' outp = Some out"
    "\<forall>p. p \<notin> {outp, set_extension ''.prepared.bin'' outp, set_extension ''.signature.bin'' outp} \<longrightarrow> fs' p = fs p"
  using assms
  by (auto simp: generate_pure_def prepare_to_sign_def sign_def merge_with_signature_def tool_load_image_def fs_read_def
      Let_def outcome_iffs)

text \<open>
  What the vendor's tool is relied on for here: exporting an image changes no file but the output, and
  the temporary files are not in the test's directory.
\<close>

definition vendor_exports :: "host_env \<Rightarrow> string \<Rightarrow> bool" where
  "vendor_exports env dir \<longleftrightarrow>
     (\<forall>args fs r fs'. run_command env ''nxpimage'' ''./artifacts'' args fs = (r, fs') \<longrightarrow>
        fs' (dir @ ''/pure.bin'') = fs (dir @ ''/pure.bin'')) \<and>
     (\<forall>n name. temp_file env n \<noteq> dir @ CHR ''/'' # name)"

lemma generate_nxp_run:
  assumes "generate_nxp env nxpimage inp base_addr outp boot cb fs = (Ok (), fs')" and "temp_file env 0 \<noteq> outp"
  obtains args fs1 ran fs2 where "run_command env nxpimage ''./artifacts'' args fs1 = (Some ran, fs2)"
    "exec_success ran" "fs1 = fs(temp_file env 0 \<mapsto> cert_block_json env cb)" "fs' outp = fs2 outp"
    "fs' = fs2(temp_file env 0 := None)"
proof -
  from assms(1) obtain fs2 stdout args where
    r: "run_checked env nxpimage ''./artifacts'' args (fs(temp_file env 0 \<mapsto> cert_block_json env cb)) = (Ok stdout, fs2)"
      "fs' = fs2(temp_file env 0 := None)"
    unfolding generate_nxp_def by (elim with_temp_file_eq) (auto simp: Let_def outcome_iffs)
  from r(1) [unfolded run_checked_Ok] obtain ran where
    "run_command env nxpimage ''./artifacts'' args (fs(temp_file env 0 \<mapsto> cert_block_json env cb)) = (Some ran, fs2)"
    "exec_success ran" by blast
  then show thesis using that r(2) assms(2) by auto
qed

section \<open>Properties\<close>

text \<open>
  C37. A passing test is evidence about both implementations: when \<open>assert_same\<close> returns, the certificate
  block was verified, the tool's own code merged an image for it whose signature verifies under the
  block's signing key, and the vendor's tool was run successfully and wrote exactly the same bytes; the
  header of those bytes reads as the input's run address and their own length. Nothing of the test's
  directory is left.
\<close>

theorem nxp_test_sound:
  assumes pass: "assert_same L env dir data base_addr boot k config idx fs = (Ok (), fs')"
    and env: "nxpimage_laws env ''nxpimage''" "vendor_exports env dir" "dir_ok dir"
  shows "\<exists>r cb im sig out args fs1 ran fs2 key.
    verify (crypto_lib L) (Some r) cb = Ok () \<and>
    image_new (crypto_lib L) data base_addr (image_type_new XipPlainSigned) cb = Ok im \<and>
    verifying_key (crypto_lib L) (img_cert_block im) = Ok key \<and> rsa_verify (crypto_lib L) key (sign_me im) sig \<and>
    out = sign_me im @ sig \<and>
    run_command env ''nxpimage'' ''./artifacts'' args fs1 = (Some ran, fs2) \<and> exec_success ran \<and>
    fs2 (dir @ ''/nxp.bin'') = Some out \<and>
    (\<exists>i. ivt_read_from_slice out = Ok i \<and> target_ptr i = base_addr \<and> unat (image_len i) = length out) \<and>
    (\<forall>name. fs' (dir @ CHR ''/'' # name) = None)"
proof -
  let ?C = "crypto_lib L" and ?inp = "dir @ ''/input.bin''" and ?pure = "dir @ ''/pure.bin''" and ?nxp = "dir @ ''/nxp.bin''"
  note paths = test_paths [OF env(3)]
  from pass obtain out fs5 where both: "both_outputs L env dir data base_addr boot k config idx fs = (Ok (out, out), fs5)"
    and fs': "fs' = remove_dir dir fs5" by (auto simp: assert_same_Ok)
  from both obtain cb fs2 key fs3 fs4 where
    gen: "cert_block_generate ?C env ''nxpimage'' config idx (fs(?inp \<mapsto> data)) = (Ok cb, fs2)"
    and pure: "generate_pure ?C (rsa_signer L) ?inp base_addr ?pure boot k cb key fs2 = (Ok (), fs3)"
    and nxp: "generate_nxp env ''nxpimage'' ?inp base_addr ?nxp boot (generate_config env config idx None fs3) fs3 = (Ok (), fs4)"
    and files: "fs4 ?pure = Some out" "fs4 ?nxp = Some out"
    by (auto simp: both_outputs_def paths fs_read_def Let_def outcome_iffs)
  have temps: "temp_file env n \<notin> {?inp, ?pure, ?nxp}" for n using env(2) by (auto simp: vendor_exports_def)
  from cert_block_generate_Ok [OF gen env(1)] obtain r where
    v: "verify ?C (Some r) cb = Ok ()" and keep: "\<forall>p. p \<notin> {temp_file env 0, temp_file env 1} \<longrightarrow> fs2 p = (fs(?inp \<mapsto> data)) p"
    by blast
  have "?inp \<notin> {temp_file env 0, temp_file env 1}" using temps [of 0] temps [of 1] by auto
  with keep have "fs2 ?inp = Some data" by simp
  moreover have "?inp \<notin> {set_extension ''.prepared.bin'' ?pure, set_extension ''.signature.bin'' ?pure}" by (simp add: paths)
  ultimately obtain im sig out' where
    im: "image_new ?C data base_addr (image_type_new XipPlainSigned) cb = Ok im" "image_merge ?C sig k im = Ok out'"
      "fs3 ?pure = Some out'"
    using generate_pure_Ok [OF pure] by (metis option.inject)
  from generate_nxp_run [OF nxp] temps obtain args fs3' ran fs4' where
    run: "run_command env ''nxpimage'' ''./artifacts'' args fs3' = (Some ran, fs4')" "exec_success ran"
      "fs3' = fs3(temp_file env 0 \<mapsto> cert_block_json env (generate_config env config idx None fs3))"
      "fs4 ?nxp = fs4' ?nxp" "fs4 = fs4'(temp_file env 0 := None)"
    by (metis insertCI)
  have "fs4' ?pure = fs3' ?pure" using run(1) env(2) by (auto simp: vendor_exports_def)
  then have out': "out' = out" using im(3) run(3,5) files(1) temps by (auto split: if_splits)
  note ivt = signed_image_ivt [OF im(1,2)]
  from im(1) have "length (header_raw (img_header im)) = 0x40" "u32_at 0x24 (header_raw (img_header im)) = 4"
    by (rule image_new_Ok; simp add: image_type_XipPlainSigned)+
  from header_kind_XipPlainSigned [OF this(2,1)] image_merge_Ok [OF im(2), of XipPlainSigned]
  obtain key where key: "verifying_key ?C (img_cert_block im) = Ok key" "rsa_verify ?C key (sign_me im) sig" by auto
  have "unat (of_nat (length out) :: u32) = length out"
    using ivt out' by (metis unat_of_nat_u32)
  then have "\<exists>i. ivt_read_from_slice out = Ok i \<and> target_ptr i = base_addr \<and> unat (image_len i) = length out"
    using ivt out' by auto
  moreover have "\<forall>name. fs' (dir @ CHR ''/'' # name) = None" by (simp add: fs' remove_dir_inside)
  ultimately show ?thesis using v im(1) key ivt out' run(1,2,4) files(2) by metis
qed

text \<open>
  For the witness: a vendor's tool that exports the demo block, and images that agree with the pure ones.
\<close>

definition both_env :: host_env where
  "both_env = nxp_env\<lparr>run_command :=
     (\<lambda>program dir args fs.
        if dir = ''./artifacts'' then (Some \<lparr>exec_success = True, exec_stdout = []\<rparr>, fs(''d/nxp.bin'' := fs ''d/pure.bin''))
        else run_command nxp_env program dir args fs)\<rparr>"

lemma both_env_laws: "nxpimage_laws both_env program" "vendor_exports both_env ''d''" "dir_ok ''d''"
proof -
  show "nxpimage_laws both_env program"
    using demo_laws(1) [of program] by (auto simp: nxpimage_laws_def both_env_def)
  have "replicate (Suc n) CHR ''t'' \<noteq> ''d'' @ CHR ''/'' # name" for n name by simp
  then show "vendor_exports both_env ''d''"
    by (auto simp: vendor_exports_def both_env_def nxp_env_def touch_env_def)
qed (simp add: dir_ok_def)

lemma both_generate:
  "fs ''t'' = None \<Longrightarrow> fs ''tt'' = None \<Longrightarrow> cert_block_generate demo_crypto both_env nxpimage config idx fs = (Ok (demo_block 0), fs)"
  using parse_nxp_stdout
  by (auto simp: cert_block_generate_def with_temp_file_def run_checked_def both_env_def nxp_env_def touch_env_def Let_def
      cert_block_from_file_def fs_read_def demo_block_verified_hash)

lemma both_same:
  "\<exists>fs'. assert_same demo_libs both_env ''d'' (replicate 65 0) 0x10020000 True None shipped_config 0 demo_fs = (Ok (), fs')"
proof -
  obtain im out where
    new: "image_new demo_crypto (replicate 65 0) 0x10020000 (image_type_new XipPlainSigned) (demo_block 0) = Ok im"
    and merge: "\<And>k. image_merge demo_crypto [1, 2, 3, 4] k im = Ok out" and len: "length out = 240"
    using demo_signed by blast
  let ?fs1 = "demo_fs(''d/input.bin'' \<mapsto> replicate 65 0)"
  let ?fs3 = "?fs1(''d/pure..prepared.bin'' \<mapsto> sign_me im, ''d/pure..signature.bin'' \<mapsto> [1, 2, 3, 4], ''d/pure.bin'' \<mapsto> out)"
  note paths = test_paths [OF both_env_laws(3), simplified]
  have gen: "cert_block_generate demo_crypto both_env ''nxpimage'' shipped_config 0 ?fs1 = (Ok (demo_block 0), ?fs1)"
    by (rule both_generate) (simp_all add: demo_fs_def)
  have key: "(get_private_key shipped_config 0 :: (string, unit) res) = Ok ''./artifacts/cert-img1-user-key.pem''"
    by (simp add: get_private_key_def shipped_config_def)
  have pure: "generate_pure demo_crypto (\<lambda>_. Some (\<lambda>_. [1, 2, 3, 4])) ''d/input.bin'' 0x10020000 ''d/pure.bin'' True None
      (demo_block 0) ''./artifacts/cert-img1-user-key.pem'' ?fs1 = (Ok (), ?fs3)"
    using new merge
    by (simp add: generate_pure_def paths prepare_to_sign_def sign_def merge_with_signature_def tool_load_image_def
        fs_read_def Let_def) (simp add: demo_fs_def)
  have "ivt_read_from_slice out = Ok \<lparr>image_len = of_nat (length out), image_type = IMAGE_TYPE_TZ_XIP_SIGNED,
      header_offset = of_nat (0x40 + length (img_data im)), target_ptr = 0x10020000\<rparr>"
    using signed_image_ivt [OF new merge] by blast
  then have "u32_at 0x24 out = 4" using len by (simp add: ivt_read_from_slice_def IMAGE_TYPE_TZ_XIP_SIGNED_def split: if_splits)
  then have check: "check_nxp_output True (replicate 65 0) out = Ok ()"
    using len by (simp add: check_nxp_output_def slice_def u32_at_def)
  have nxp: "\<exists>fs4. generate_nxp both_env ''nxpimage'' ''d/input.bin'' 0x10020000 ''d/nxp.bin'' True cb ?fs3 = (Ok (), fs4) \<and>
      fs4 ''d/pure.bin'' = Some out \<and> fs4 ''d/nxp.bin'' = Some out" for cb
    using check
    by (simp add: generate_nxp_def with_temp_file_def run_checked_def fs_read_def Let_def both_env_def nxp_env_def touch_env_def)
  obtain fs4 where "both_outputs demo_libs both_env ''d'' (replicate 65 0) 0x10020000 True None shipped_config 0 demo_fs =
      (Ok (out, out), fs4)"
    using nxp [of "generate_config both_env shipped_config 0 None ?fs3"] gen key pure
    by (auto simp: both_outputs_def paths demo_libs_def fs_read_def Let_def)
  then show ?thesis by (auto simp: assert_same_Ok)
qed

theorem nxp_test_sound_witness:
  "\<exists>out args fs1 ran fs2 i. run_command both_env ''nxpimage'' ''./artifacts'' args fs1 = (Some ran, fs2) \<and>
     fs2 ''d/nxp.bin'' = Some out \<and> ivt_read_from_slice out = Ok i \<and> target_ptr i = 0x10020000"
proof -
  obtain fs' where "assert_same demo_libs both_env ''d'' (replicate 65 0) 0x10020000 True None shipped_config 0 demo_fs = (Ok (), fs')"
    using both_same by blast
  from nxp_test_sound [OF this both_env_laws] show ?thesis by fastforce
qed

end
