(* ===== verification/Tool_Progress.thy ===== *)
theory Tool_Progress
  imports Cert_Generate
begin

text \<open>
  \<open>bootloader-tool/src/util/progress.rs\<close>: the progress bars for flashing. The file is part of the
  repository but not of the build (\<open>util/mod.rs\<close> does not declare it).

  The drawing is done by \<open>indicatif\<close>, which is not in the repository: a bar is modelled as the length it
  was created with and the calls made on it since, in order. The layout of a phase is what the code
  reads of it, the sizes of its fills and of its sectors; the merged layout the code also computes is
  never used. The sums of sizes wrap, as they do in a release build.
\<close>

section \<open>Bars and groups\<close>

record progress_style =
  template :: string
  tick_chars :: "nat list"
  progress_chars :: string

datatype bar_call =
  SetMessage string | SetStyle progress_style | EnableSteadyTick nat | ResetElapsed | ResetEta
| SetLength u64 | IncBar u64 | AbandonBar | FinishBar

record progress_bar =
  created_length :: u64
  bar_calls :: "bar_call list"

definition progress_bar_new :: "u64 \<Rightarrow> progress_bar" where
  "progress_bar_new len = \<lparr>created_length = len, bar_calls = []\<rparr>"

definition call_bar :: "bar_call list \<Rightarrow> progress_bar \<Rightarrow> progress_bar" where
  "call_bar cs bar = bar\<lparr>bar_calls := bar_calls bar @ cs\<rparr>"

definition spinner_chars :: "nat list" where
  "spinner_chars =
     [0x2801, 0x2801, 0x2809, 0x2819, 0x281a, 0x2812, 0x2802, 0x2802, 0x2812, 0x2832, 0x2834, 0x2824, 0x2804, 0x2804, 0x2824,
      0x2820, 0x2820, 0x2824, 0x2826, 0x2816, 0x2812, 0x2810, 0x2810, 0x2812, 0x2813, 0x280b, 0x2809, 0x2808, 0x2808, 0x2714]"

definition idle_style :: progress_style where
  "idle_style =
     \<lparr>template = ''{msg:.green.bold} {spinner} {percent:>3}% [{bar:20}]'',
      tick_chars = spinner_chars, progress_chars = ''--''\<rparr>"

definition active_style :: progress_style where
  "active_style =
     \<lparr>template = ''{msg:.green.bold} {spinner} {percent:>3}% [{bar:20}] {bytes:>10} @ {bytes_per_sec:>12} (ETA {eta})'',
      tick_chars = spinner_chars, progress_chars = ''##-''\<rparr>"

definition finished_style :: progress_style where
  "finished_style =
     \<lparr>template = ''{msg:.green.bold} {spinner} {percent:>3}% [{bar:20}] {bytes:>10} @ {bytes_per_sec:>12} (took {elapsed})'',
      tick_chars = spinner_chars, progress_chars = ''##''\<rparr>"

record bar_group =
  group_message :: string
  group_bars :: "progress_bar list"
  group_selected :: nat
  group_append_phase :: bool

definition group_new :: "string \<Rightarrow> bar_group" where
  "group_new message = \<lparr>group_message = message, group_bars = [], group_selected = 0, group_append_phase = False\<rparr>"

definition group_add :: "progress_bar \<Rightarrow> bar_group \<Rightarrow> bar_group" where
  "group_add bar g =
     (let bar =
        (if group_append_phase g
         then call_bar [SetMessage (group_message g @ '' '' @ display_nat (length (group_bars g) + 1))] bar
         else call_bar [SetMessage (group_message g)] bar);
          bar = call_bar [SetStyle idle_style] bar;
          bar = call_bar [EnableSteadyTick 100] bar;
          bar = call_bar [ResetElapsed] bar
      in g\<lparr>group_bars := group_bars g @ [bar]\<rparr>)"

text \<open>\<open>if let Some(bar) = self.bars.get(self.selected)\<close>: no bar is selected once all are done.\<close>

definition on_selected :: "bar_call list \<Rightarrow> bar_group \<Rightarrow> bar_group" where
  "on_selected cs g =
     (if group_selected g < length (group_bars g)
      then g\<lparr>group_bars := (group_bars g)[group_selected g := call_bar cs (group_bars g ! group_selected g)]\<rparr>
      else g)"

definition group_set_length :: "u64 \<Rightarrow> bar_group \<Rightarrow> bar_group" where
  "group_set_length len g = on_selected [SetLength len] g"

definition group_inc :: "u64 \<Rightarrow> bar_group \<Rightarrow> bar_group" where
  "group_inc amount g = on_selected [SetStyle active_style, IncBar amount] g"

definition group_next :: "bar_group \<Rightarrow> bar_group" where
  "group_next g = g\<lparr>group_selected := group_selected g + 1\<rparr>"

definition group_abandon :: "bar_group \<Rightarrow> bar_group" where
  "group_abandon g = group_next (on_selected [AbandonBar] g)"

definition group_finish :: "bar_group \<Rightarrow> bar_group" where
  "group_finish g = group_next (on_selected [SetStyle finished_style, FinishBar] g)"

definition group_set_append_phase :: "bar_group \<Rightarrow> bar_group" where
  "group_set_append_phase g = g\<lparr>group_append_phase := True\<rparr>"

definition group_mark_start_now :: "bar_group \<Rightarrow> bar_group" where
  "group_mark_start_now g = on_selected [ResetElapsed, ResetEta] g"

section \<open>Events\<close>

record phase_layout =
  fill_sizes :: "u64 list"
  sector_sizes :: "u64 list"

datatype progress_event =
  Initialized bool "phase_layout list" bool
| StartedProgramming u64 | StartedErasing | StartedFilling
| PageProgrammed u32 | SectorErased u64 | PageFilled u64
| FailedErasing | FinishedErasing | FailedProgramming | FinishedProgramming | FailedFilling | FinishedFilling
| DiagnosticMessage

record progress_bars =
  pb_erase :: bar_group
  pb_fill :: bar_group
  pb_program :: bar_group

definition progress_bars_new :: progress_bars where
  "progress_bars_new =
     \<lparr>pb_erase = group_new ''          Erasing'', pb_fill = group_new ''    Reading flash'',
      pb_program = group_new ''      Programming''\<rparr>"

definition add_phase :: "bool \<Rightarrow> bool \<Rightarrow> phase_layout \<Rightarrow> progress_bars \<Rightarrow> progress_bars" where
  "add_phase chip_erase restore_unwritten phase_layout p =
     (let p = (if restore_unwritten
               then p\<lparr>pb_fill := group_add (progress_bar_new (sum_list (fill_sizes phase_layout))) (pb_fill p)\<rparr> else p);
          p = (if \<not> chip_erase
               then p\<lparr>pb_erase := group_add (progress_bar_new (sum_list (sector_sizes phase_layout))) (pb_erase p)\<rparr> else p)
      in p\<lparr>pb_program := group_add (progress_bar_new 0) (pb_program p)\<rparr>)"

definition initialize_bars :: "bool \<Rightarrow> phase_layout list \<Rightarrow> bool \<Rightarrow> progress_bars \<Rightarrow> progress_bars" where
  "initialize_bars chip_erase phases restore_unwritten p =
     (let p = (if chip_erase then p\<lparr>pb_erase := group_add (progress_bar_new 0) (pb_erase p)\<rparr> else p);
          p = (if length phases > 1
               then \<lparr>pb_erase = group_set_append_phase (pb_erase p), pb_fill = group_set_append_phase (pb_fill p),
                     pb_program = group_set_append_phase (pb_program p)\<rparr>
               else p)
      in fold (add_phase chip_erase restore_unwritten) phases p)"

fun flash_progress_event :: "progress_event \<Rightarrow> progress_bars \<Rightarrow> progress_bars" where
  "flash_progress_event (Initialized chip_erase phases restore_unwritten) p =
     initialize_bars chip_erase phases restore_unwritten p"
| "flash_progress_event (StartedProgramming len) p =
     (let p = p\<lparr>pb_program := group_mark_start_now (pb_program p)\<rparr> in
      p\<lparr>pb_program := group_set_length len (pb_program p)\<rparr>)"
| "flash_progress_event StartedErasing p = p\<lparr>pb_erase := group_mark_start_now (pb_erase p)\<rparr>"
| "flash_progress_event StartedFilling p = p\<lparr>pb_fill := group_mark_start_now (pb_fill p)\<rparr>"
| "flash_progress_event (PageProgrammed amount) p = p\<lparr>pb_program := group_inc (ucast amount) (pb_program p)\<rparr>"
| "flash_progress_event (SectorErased amount) p = p\<lparr>pb_erase := group_inc amount (pb_erase p)\<rparr>"
| "flash_progress_event (PageFilled amount) p = p\<lparr>pb_fill := group_inc amount (pb_fill p)\<rparr>"
| "flash_progress_event FailedErasing p =
     (let p = p\<lparr>pb_erase := group_abandon (pb_erase p)\<rparr> in p\<lparr>pb_program := group_abandon (pb_program p)\<rparr>)"
| "flash_progress_event FinishedErasing p = p\<lparr>pb_erase := group_finish (pb_erase p)\<rparr>"
| "flash_progress_event FailedProgramming p = p\<lparr>pb_program := group_abandon (pb_program p)\<rparr>"
| "flash_progress_event FinishedProgramming p = p\<lparr>pb_program := group_finish (pb_program p)\<rparr>"
| "flash_progress_event FailedFilling p = p\<lparr>pb_fill := group_abandon (pb_fill p)\<rparr>"
| "flash_progress_event FinishedFilling p = p\<lparr>pb_fill := group_finish (pb_fill p)\<rparr>"
| "flash_progress_event DiagnosticMessage p = p"

definition flash_progress :: "progress_event list \<Rightarrow> progress_bars" where
  "flash_progress events = fold flash_progress_event events progress_bars_new"

section \<open>What each bar should see\<close>

text \<open>
  What an event asks of each group: the calls for the bar of the current phase, and whether the phase is
  over for the group. \<open>phase_calls k\<close> are then the calls for the bar of phase \<open>k\<close>.
\<close>

fun erase_step :: "progress_event \<Rightarrow> bar_call list \<times> bool" where
  "erase_step StartedErasing = ([ResetElapsed, ResetEta], False)"
| "erase_step (SectorErased n) = ([SetStyle active_style, IncBar n], False)"
| "erase_step FailedErasing = ([AbandonBar], True)"
| "erase_step FinishedErasing = ([SetStyle finished_style, FinishBar], True)"
| "erase_step _ = ([], False)"

fun fill_step :: "progress_event \<Rightarrow> bar_call list \<times> bool" where
  "fill_step StartedFilling = ([ResetElapsed, ResetEta], False)"
| "fill_step (PageFilled n) = ([SetStyle active_style, IncBar n], False)"
| "fill_step FailedFilling = ([AbandonBar], True)"
| "fill_step FinishedFilling = ([SetStyle finished_style, FinishBar], True)"
| "fill_step _ = ([], False)"

fun program_step :: "progress_event \<Rightarrow> bar_call list \<times> bool" where
  "program_step (StartedProgramming len) = ([ResetElapsed, ResetEta, SetLength len], False)"
| "program_step (PageProgrammed n) = ([SetStyle active_style, IncBar (ucast n)], False)"
| "program_step FailedErasing = ([AbandonBar], True)"
| "program_step FailedProgramming = ([AbandonBar], True)"
| "program_step FinishedProgramming = ([SetStyle finished_style, FinishBar], True)"
| "program_step _ = ([], False)"

fun phase_calls :: "nat \<Rightarrow> (bar_call list \<times> bool) list \<Rightarrow> bar_call list" where
  "phase_calls k [] = []"
| "phase_calls 0 ((cs, over) # rest) = cs @ (if over then [] else phase_calls 0 rest)"
| "phase_calls (Suc k) ((cs, over) # rest) = phase_calls (if over then k else Suc k) rest"

definition expected_bar :: "string \<Rightarrow> bool \<Rightarrow> (nat \<Rightarrow> u64) \<Rightarrow> (bar_call list \<times> bool) list \<Rightarrow> nat \<Rightarrow> progress_bar" where
  "expected_bar message numbered len steps k =
     \<lparr>created_length = len k,
      bar_calls =
        [SetMessage (if numbered then message @ '' '' @ display_nat (k + 1) else message), SetStyle idle_style,
         EnableSteadyTick 100, ResetElapsed] @ phase_calls k steps\<rparr>"

fun is_initialized :: "progress_event \<Rightarrow> bool" where
  "is_initialized (Initialized _ _ _) \<longleftrightarrow> True"
| "is_initialized _ \<longleftrightarrow> False"

section \<open>Lemmas\<close>

definition group_step :: "bar_call list \<times> bool \<Rightarrow> bar_group \<Rightarrow> bar_group" where
  "group_step step g = (if snd step then group_next (on_selected (fst step) g) else on_selected (fst step) g)"

lemma call_bar_simps [simp]:
  "call_bar [] bar = bar" "call_bar ds (call_bar cs bar) = call_bar (cs @ ds) bar"
  "bar_calls (call_bar cs bar) = bar_calls bar @ cs" "created_length (call_bar cs bar) = created_length bar"
  by (simp_all add: call_bar_def)

lemma on_selected_simps [simp]:
  "on_selected [] g = g" "on_selected ds (on_selected cs g) = on_selected (cs @ ds) g"
  "length (group_bars (on_selected cs g)) = length (group_bars g)" "group_selected (on_selected cs g) = group_selected g"
  by (simp_all add: on_selected_def)

lemma on_selected_nth:
  "k < length (group_bars g) \<Longrightarrow>
     group_bars (on_selected cs g) ! k = (if k = group_selected g then call_bar cs (group_bars g ! k) else group_bars g ! k)"
  by (simp add: on_selected_def nth_list_update)

lemma group_step_simps [simp]:
  "length (group_bars (group_step step g)) = length (group_bars g)"
  "group_selected (group_step step g) = group_selected g + (if snd step then 1 else 0)"
  by (simp_all add: group_step_def group_next_def)

lemma group_step_nth:
  "k < length (group_bars g) \<Longrightarrow>
     group_bars (group_step step g) ! k =
       (if k = group_selected g then call_bar (fst step) (group_bars g ! k) else group_bars g ! k)"
  by (simp add: group_step_def group_next_def on_selected_nth)

lemma length_fold_group_step [simp]: "length (group_bars (fold group_step steps g)) = length (group_bars g)"
  by (induction steps arbitrary: g) simp_all

text \<open>A run of steps gives every bar the calls of its own phase.\<close>

lemma fold_group_step_nth:
  assumes "k < length (group_bars g)"
  shows "group_bars (fold group_step steps g) ! k =
    (if group_selected g \<le> k then call_bar (phase_calls (k - group_selected g) steps) (group_bars g ! k) else group_bars g ! k)"
  using assms
proof (induction steps arbitrary: g)
  case (Cons step steps)
  obtain cs over where step: "step = (cs, over)" by fastforce
  have "k - group_selected g = Suc (k - Suc (group_selected g))" if "group_selected g < k" using that by simp
  with Cons.IH [of "group_step step g"] Cons.prems show ?case
    by (cases k "group_selected g" rule: linorder_cases) (auto simp: step group_step_nth)
qed simp

text \<open>An event is one step of each group.\<close>

lemma flash_progress_event_steps:
  assumes "\<not> is_initialized e"
  shows "pb_erase (flash_progress_event e p) = group_step (erase_step e) (pb_erase p)"
    "pb_fill (flash_progress_event e p) = group_step (fill_step e) (pb_fill p)"
    "pb_program (flash_progress_event e p) = group_step (program_step e) (pb_program p)"
  using assms
  by (cases e; simp add: group_step_def group_mark_start_now_def group_set_length_def group_inc_def group_abandon_def
      group_finish_def)+

lemma fold_events:
  assumes "list_all (\<lambda>e. \<not> is_initialized e) es"
  shows "pb_erase (fold flash_progress_event es p) = fold group_step (map erase_step es) (pb_erase p)"
    "pb_fill (fold flash_progress_event es p) = fold group_step (map fill_step es) (pb_fill p)"
    "pb_program (fold flash_progress_event es p) = fold group_step (map program_step es) (pb_program p)"
  using assms by (induction es arbitrary: p) (simp_all add: flash_progress_event_steps)

text \<open>The bars made for the phases.\<close>

lemma group_add_eq:
  "group_add (progress_bar_new len) g =
     g\<lparr>group_bars := group_bars g @
       [expected_bar (group_message g) (group_append_phase g) (\<lambda>_. len) [] (length (group_bars g))]\<rparr>"
  by (simp add: group_add_def expected_bar_def progress_bar_new_def call_bar_def)

lemma expected_bar_cong: "len k = len' k \<Longrightarrow> expected_bar message numbered len steps k = expected_bar message numbered len' steps k"
  by (simp add: expected_bar_def)

lemma fold_group_add:
  assumes "group_bars g = []"
  shows "fold (\<lambda>phase. group_add (progress_bar_new (len phase))) phases g =
    g\<lparr>group_bars := map (expected_bar (group_message g) (group_append_phase g) (\<lambda>k. len (phases ! k)) []) [0..<length phases]\<rparr>"
proof (induction phases rule: rev_induct)
  case Nil
  then show ?case using assms by simp
next
  case (snoc phase phases)
  have "map (expected_bar (group_message g) (group_append_phase g) (\<lambda>k. len (phases ! k)) []) [0..<length phases] =
      map (expected_bar (group_message g) (group_append_phase g) (\<lambda>k. len ((phases @ [phase]) ! k)) []) [0..<length phases]"
    by (auto intro!: expected_bar_cong simp: nth_append)
  moreover have "expected_bar (group_message g) (group_append_phase g) (\<lambda>_. len phase) [] (length phases) =
      expected_bar (group_message g) (group_append_phase g) (\<lambda>k. len ((phases @ [phase]) ! k)) [] (length phases)"
    by (rule expected_bar_cong) simp
  ultimately show ?case by (simp add: snoc.IH group_add_eq [of "len phase"])
qed

lemma fold_add_phase:
  "pb_program (fold (add_phase ce ru) phases p) = fold (\<lambda>_. group_add (progress_bar_new 0)) phases (pb_program p)"
  "pb_fill (fold (add_phase ce ru) phases p) =
     (if ru then fold (\<lambda>ph. group_add (progress_bar_new (sum_list (fill_sizes ph)))) phases (pb_fill p) else pb_fill p)"
  "pb_erase (fold (add_phase ce ru) phases p) =
     (if ce then pb_erase p else fold (\<lambda>ph. group_add (progress_bar_new (sum_list (sector_sizes ph)))) phases (pb_erase p))"
  by (induction phases arbitrary: p) (simp_all add: add_phase_def Let_def)

text \<open>A fresh group of bars, after a run of steps.\<close>

lemma fresh_group_steps:
  assumes "group_bars g = map (expected_bar message numbered len []) [0..<n]" and "group_selected g = 0"
  shows "group_bars (fold group_step steps g) = map (expected_bar message numbered len steps) [0..<n]"
  by (rule nth_equalityI)
    (use assms in \<open>auto simp: fold_group_step_nth expected_bar_def call_bar_def\<close>)

lemma initialized_groups:
  fixes ce ru and phases :: "phase_layout list"
  defines "p \<equiv> initialize_bars ce phases ru progress_bars_new" and "many \<equiv> 1 < length phases"
  shows "group_bars (pb_program p) = map (expected_bar ''      Programming'' many (\<lambda>_. 0) []) [0..<length phases]"
    and "group_bars (pb_fill p) = map (expected_bar ''    Reading flash'' many (\<lambda>k. sum_list (fill_sizes (phases ! k))) [])
      [0..<if ru then length phases else 0]"
    and "group_bars (pb_erase p) =
      (if ce then map (expected_bar ''          Erasing'' False (\<lambda>_. 0) []) [0..<1]
       else map (expected_bar ''          Erasing'' many (\<lambda>k. sum_list (sector_sizes (phases ! k))) []) [0..<length phases])"
    and "group_selected (pb_program p) = 0" "group_selected (pb_fill p) = 0" "group_selected (pb_erase p) = 0"
  unfolding p_def many_def initialize_bars_def progress_bars_new_def Let_def
  by (simp_all add: fold_add_phase fold_group_add group_add_eq group_new_def group_set_append_phase_def)

section \<open>Properties\<close>

text \<open>
  C38. The progress bars follow the phases of the programming: after the initial event, whatever events
  come then, the program group has exactly one bar per phase, the fill group one per phase if the
  unwritten bytes are restored and none otherwise, and the erase group one per phase, or a single one
  when the whole chip is erased; the bar of phase \<open>k\<close> was created with the sizes of its own phase,
  carries the number of the phase when there are several, and has received exactly the calls of the
  events of phase \<open>k\<close>, in their order.
\<close>

theorem progress_bars_follow_phases:
  fixes ce ru and phases :: "phase_layout list"
  assumes "list_all (\<lambda>e. \<not> is_initialized e) es"
  defines "p \<equiv> flash_progress (Initialized ce phases ru # es)" and "many \<equiv> 1 < length phases"
  shows "group_bars (pb_program p) =
      map (expected_bar ''      Programming'' many (\<lambda>_. 0) (map program_step es)) [0..<length phases] \<and>
    group_bars (pb_fill p) =
      map (expected_bar ''    Reading flash'' many (\<lambda>k. sum_list (fill_sizes (phases ! k))) (map fill_step es))
        [0..<if ru then length phases else 0] \<and>
    group_bars (pb_erase p) =
      (if ce then [expected_bar ''          Erasing'' False (\<lambda>_. 0) (map erase_step es) 0]
       else map (expected_bar ''          Erasing'' many (\<lambda>k. sum_list (sector_sizes (phases ! k))) (map erase_step es))
         [0..<length phases])"
proof -
  note init = initialized_groups [of ce phases ru]
  have p: "p = fold flash_progress_event es (initialize_bars ce phases ru progress_bars_new)"
    by (simp add: p_def flash_progress_def)
  have "group_bars (pb_erase p) =
      (if ce then map (expected_bar ''          Erasing'' False (\<lambda>_. 0) (map erase_step es)) [0..<1]
       else map (expected_bar ''          Erasing'' many (\<lambda>k. sum_list (sector_sizes (phases ! k))) (map erase_step es))
         [0..<length phases])"
  proof (cases ce)
    case True
    from True have "group_bars (pb_erase (initialize_bars ce phases ru progress_bars_new)) =
        map (expected_bar ''          Erasing'' False (\<lambda>_. 0) []) [0..<1]" using init(3) by simp
    from fresh_group_steps [OF this init(6)] True show ?thesis by (simp add: p fold_events [OF assms(1)])
  next
    case False
    with fresh_group_steps [OF _ init(6)] init(3) show ?thesis by (simp add: p fold_events [OF assms(1)] many_def)
  qed
  then show ?thesis
    using fresh_group_steps [OF init(1,4)] fresh_group_steps [OF init(2,5)]
    by (simp add: p fold_events [OF assms(1)] many_def)
qed

theorem progress_bars_follow_phases_witness:
  "let p = flash_progress [Initialized False [\<lparr>fill_sizes = [], sector_sizes = [4096]\<rparr>, \<lparr>fill_sizes = [], sector_sizes = [8192]\<rparr>] False,
         FinishedErasing, SectorErased 8192]
   in bar_calls (group_bars (pb_erase p) ! 1) =
        [SetMessage (''          Erasing '' @ display_nat 2), SetStyle idle_style, EnableSteadyTick 100, ResetElapsed,
         SetStyle active_style, IncBar 8192]"
  using progress_bars_follow_phases [of "[FinishedErasing, SectorErased 8192]" False
      "[\<lparr>fill_sizes = [], sector_sizes = [4096]\<rparr>, \<lparr>fill_sizes = [], sector_sizes = [8192]\<rparr>]" False]
  by (simp add: Let_def expected_bar_def upt_rec)

end
