(* ===== verification/Build_Scripts.thy ===== *)
theory Build_Scripts
  imports Mbi_Nxp
begin

text \<open>
  The build scripts: \<open>examples/rt685s/bootloader/build.rs\<close> and \<open>application/build.rs\<close>, which put the linker
  script where the linker finds it, and, for the bootloader, generate \<open>biv.rs\<close> with the version word
  that ends up behind the flash configuration block; and \<open>libs/imxrt-rom/build.rs\<close>. A script returns
  the lines it prints for cargo; a failed \<open>unwrap\<close> or \<open>expect\<close> is a panic, which fails the build.
\<close>

section \<open>The scripts\<close>

record build_env =
  out_dir :: "string option"
  memory_x :: "u8 list"
  pkg_version :: "string \<times> string \<times> string"
  feature_defmt :: bool

text \<open>\<open>str::parse::<u8>\<close>: an optional plus sign and decimal digits, with a check for overflow.\<close>

definition dec_digit :: "char \<Rightarrow> nat option" where
  "dec_digit c = (let n = of_char c in if 48 \<le> n \<and> n \<le> 57 then Some (n - 48) else None)"

fun dec_digits :: "nat \<Rightarrow> string \<Rightarrow> nat option" where
  "dec_digits acc [] = Some acc"
| "dec_digits acc (c # cs) =
     (case dec_digit c of
        None \<Rightarrow> None
      | Some d \<Rightarrow> if acc * 10 + d < 256 then dec_digits (acc * 10 + d) cs else None)"

fun parse_u8 :: "string \<Rightarrow> u8 option" where
  "parse_u8 [] = None"
| "parse_u8 [c] = (if c = CHR ''+'' then None else map_option of_nat (dec_digits 0 [c]))"
| "parse_u8 (c # cs) = map_option of_nat (dec_digits 0 (if c = CHR ''+'' then cs else c # cs))"

definition format_02x :: "u8 \<Rightarrow> string" where
  "format_02x b = [hex_digit_char (unat b div 16), hex_digit_char (unat b mod 16)]"

definition nl :: string where
  "nl = [CHR 0x0A]"

definition version_literal :: "u8 \<Rightarrow> u8 \<Rightarrow> u8 \<Rightarrow> string" where
  "version_literal major minor patch = ''0x'' @ format_02x major @ format_02x minor @ format_02x patch @ ''00''"

definition biv_rs :: "u8 \<Rightarrow> u8 \<Rightarrow> u8 \<Rightarrow> string" where
  "biv_rs major minor patch =
     nl @ ''#[link_section = '' @ [CHR 0x22] @ ''.biv'' @ [CHR 0x22] @ '']'' @ nl @ ''#[used]'' @ nl @
     ''static BOOT_IMAGE_VERSION: u32 = '' @ version_literal major minor patch @ '';'' @ nl"

definition link_lines :: "string \<Rightarrow> string list" where
  "link_lines out =
     [''cargo:rustc-link-search='' @ out, ''cargo:rustc-link-arg=-Tlink.x'', ''cargo:rustc-link-arg=--nmagic'']"

definition application_build :: "build_env \<Rightarrow> fs \<Rightarrow> (string list, unit) res \<times> fs" where
  "application_build env fs =
     (case out_dir env of
        None \<Rightarrow> (Panic, fs)
      | Some out \<Rightarrow>
          (Ok (link_lines out @ [''cargo:rerun-if-changed=memory.x''] @
             (if feature_defmt env then [''cargo:rustc-link-arg=-Tdefmt.x''] else [])),
           fs(path_join out ''memory.x'' \<mapsto> memory_x env)))"

text \<open>The file is created before its contents are formatted.\<close>

definition bootloader_build :: "build_env \<Rightarrow> fs \<Rightarrow> (string list, unit) res \<times> fs" where
  "bootloader_build env fs =
     (case out_dir env of
        None \<Rightarrow> (Panic, fs)
      | Some out \<Rightarrow>
          (let fs = fs(path_join out ''memory.x'' \<mapsto> memory_x env);
               printed = link_lines out @ (if feature_defmt env then [''cargo:rustc-link-arg=-Tdefmt.x''] else []) @
                 [''cargo:rerun-if-changed=memory.x''];
               fs = fs(path_join out ''biv.rs'' \<mapsto> []);
               (major, minor, patch) = pkg_version env
           in case (parse_u8 major, parse_u8 minor, parse_u8 patch) of
                (Some major, Some minor, Some patch) \<Rightarrow>
                  (Ok printed, fs(path_join out ''biv.rs'' \<mapsto> map of_char (biv_rs major minor patch)))
              | _ \<Rightarrow> (Panic, fs)))"

definition imxrt_rom_build :: "string list" where
  "imxrt_rom_build = [''cargo:rerun-if-changed=registers.yaml'']"

section \<open>The version word\<close>

text \<open>The value of a hexadecimal literal.\<close>

definition hex_value :: "string \<Rightarrow> nat" where
  "hex_value s = foldl (\<lambda>a c. 16 * a + (if of_char c < (97 :: nat) then of_char c - 48 else of_char c - 87)) 0 s"

definition BOOT_IMAGE_VERSION :: "u8 \<Rightarrow> u8 \<Rightarrow> u8 \<Rightarrow> u32" where
  "BOOT_IMAGE_VERSION major minor patch = of_nat (hex_value (drop 2 (version_literal major minor patch)))"

lemma hex_digit_char_value: "d < 16 \<Longrightarrow> (of_char (hex_digit_char d) :: nat) = (if d < 10 then 48 + d else 87 + d)"
  by (auto simp: hex_digit_char_def)

lemma hex_value_version:
  "hex_value (drop 2 (version_literal major minor patch)) = unat major * 2 ^ 24 + unat minor * 2 ^ 16 + unat patch * 2 ^ 8"
proof -
  have d: "unat b div 16 < 16" "unat b mod 16 < 16" for b :: u8 using unat_u8_less [of b] by linarith+
  have step: "foldl (\<lambda>a c. 16 * a + (if of_char c < (97 :: nat) then of_char c - 48 else of_char c - 87)) a (format_02x b) =
      256 * a + unat b" for a and b :: u8
    using d [of b] by (simp add: format_02x_def hex_digit_char_value)
  show ?thesis by (simp add: hex_value_def version_literal_def step)
qed

lemma unat_version: "unat (BOOT_IMAGE_VERSION major minor patch) = unat major * 2 ^ 24 + unat minor * 2 ^ 16 + unat patch * 2 ^ 8"
  unfolding BOOT_IMAGE_VERSION_def hex_value_version
proof (rule unat_of_nat_u32)
  have "x * 2 ^ 24 + y * 2 ^ 16 + z * 2 ^ 8 < 2 ^ 32" if "x < 256" "y < 256" "z < 256" for x y z :: nat
    using that by simp
  from this [OF unat_u8_less unat_u8_less unat_u8_less]
  show "unat major * 2 ^ 24 + unat minor * 2 ^ 16 + unat patch * 2 ^ 8 < 2 ^ 32" .
qed

lemma lex_nat:
  fixes a b c a' b' c' :: nat
  assumes "b < 256" "c < 256" "b' < 256" "c' < 256"
  shows "a * 2 ^ 24 + b * 2 ^ 16 + c * 2 ^ 8 < a' * 2 ^ 24 + b' * 2 ^ 16 + c' * 2 ^ 8 \<longleftrightarrow>
    a < a' \<or> a = a' \<and> (b < b' \<or> b = b' \<and> c < c')"
  using assms by (cases a a' rule: linorder_cases; cases b b' rule: linorder_cases) auto

text \<open>
  The version words are ordered as the versions are, and different versions have different words. A
  version number above 255 fails the build instead of wrapping around.
\<close>

lemma version_order:
  "BOOT_IMAGE_VERSION a b c < BOOT_IMAGE_VERSION a' b' c' \<longleftrightarrow> a < a' \<or> a = a' \<and> (b < b' \<or> b = b' \<and> c < c')"
  unfolding word_less_nat_alt word_unat_eq_iff [where 'a = 8] unat_version
  by (rule lex_nat [OF unat_u8_less unat_u8_less unat_u8_less unat_u8_less])

lemma dec_digits_range: "dec_digits acc cs = Some n \<Longrightarrow> acc < 256 \<Longrightarrow> n < 256"
  by (induction acc cs rule: dec_digits.induct) (auto split: option.splits if_splits)

lemma dec_digits_append:
  "dec_digits acc (xs @ ys) = (case dec_digits acc xs of None \<Rightarrow> None | Some n \<Rightarrow> dec_digits n ys)"
  by (induction acc xs rule: dec_digits.induct) (auto split: option.splits)

lemma dec_digit_char: "d < 10 \<Longrightarrow> dec_digit (digit_char d) = Some d"
  by (simp add: dec_digit_def digit_char_value)

lemma dec_digits_display: "dec_digits 0 (display_nat n) = (if n < 256 then Some n else None)"
proof (induction n rule: display_nat.induct)
  case (1 n)
  show ?case
  proof (cases "n < 10")
    case True
    then show ?thesis by (simp add: display_nat.simps [of n] dec_digit_char)
  next
    case False
    with 1 show ?thesis
      by (simp add: display_nat.simps [of n] dec_digits_append dec_digit_char) linarith
  qed
qed

lemma hd_display: "\<exists>d < 10. \<exists>cs. display_nat n = digit_char d # cs"
proof (induction n rule: display_nat.induct)
  case (1 n)
  then show ?case by (cases "n < 10") (auto simp: display_nat.simps [of n])
qed

lemma parse_u8_display: "parse_u8 (display_nat n) = (if n < 256 then Some (of_nat n) else None)"
proof -
  obtain d cs where "d < 10" "display_nat n = digit_char d # cs" using hd_display by blast
  moreover from this(1) digit_char_value [OF this(1)] have "digit_char d \<noteq> CHR ''+''" by auto
  ultimately have "parse_u8 (display_nat n) = map_option of_nat (dec_digits 0 (display_nat n))"
    by (cases cs) simp_all
  then show ?thesis by (simp add: dec_digits_display)
qed

section \<open>Properties\<close>

text \<open>
  C40. The version word of the bootloader is built from the package version: for a version of three
  decimal numbers below 256 the script succeeds and leaves a \<open>biv.rs\<close> that declares a word of eight
  hexadecimal digits, of value \<open>major * 2 ^ 24 + minor * 2 ^ 16 + patch * 2 ^ 8\<close>. When one of the numbers does
  not fit a byte the build fails, instead of wrapping around into the word of another version.
\<close>

theorem version_word_built:
  assumes "pkg_version env = (display_nat major, display_nat minor, display_nat patch)" and "out_dir env = Some out"
  shows "if major < 256 \<and> minor < 256 \<and> patch < 256
    then \<exists>printed fs' digits. bootloader_build env fs = (Ok printed, fs') \<and>
      fs' (path_join out ''biv.rs'') = Some (map of_char (nl @ ''#[link_section = '' @ [CHR 0x22] @ ''.biv'' @ [CHR 0x22] @
        '']'' @ nl @ ''#[used]'' @ nl @ ''static BOOT_IMAGE_VERSION: u32 = 0x'' @ digits @ '';'' @ nl)) \<and>
      length digits = 8 \<and> hex_value digits = major * 2 ^ 24 + minor * 2 ^ 16 + patch * 2 ^ 8
    else fst (bootloader_build env fs) = Panic"
proof (cases "major < 256 \<and> minor < 256 \<and> patch < 256")
  case True
  let ?digits = "drop 2 (version_literal (of_nat major) (of_nat minor) (of_nat patch))"
  have "unat (of_nat n :: u8) = n" if "n < 256" for n using that by (simp add: unat_of_nat take_bit_nat_eq_self)
  with True have "hex_value ?digits = major * 2 ^ 24 + minor * 2 ^ 16 + patch * 2 ^ 8" by (simp add: hex_value_version)
  moreover have "length ?digits = 8" by (simp add: version_literal_def format_02x_def)
  moreover have "biv_rs (of_nat major) (of_nat minor) (of_nat patch) =
      nl @ ''#[link_section = '' @ [CHR 0x22] @ ''.biv'' @ [CHR 0x22] @ '']'' @ nl @ ''#[used]'' @ nl @
      ''static BOOT_IMAGE_VERSION: u32 = 0x'' @ ?digits @ '';'' @ nl"
    by (simp add: biv_rs_def version_literal_def)
  moreover obtain printed fs' where "bootloader_build env fs = (Ok printed, fs')"
      "fs' (path_join out ''biv.rs'') = Some (map of_char (biv_rs (of_nat major) (of_nat minor) (of_nat patch)))"
    using True assms by (simp add: bootloader_build_def parse_u8_display Let_def)
  ultimately show ?thesis unfolding if_P [OF True] by metis
next
  case False
  with assms show ?thesis by (auto simp: bootloader_build_def parse_u8_display Let_def)
qed

theorem version_word_built_witness:
  "\<exists>printed fs' before digits.
     bootloader_build \<lparr>out_dir = Some ''out'', memory_x = [], pkg_version = (''1'', ''20'', ''255''), feature_defmt = False\<rparr>
       Map.empty = (Ok printed, fs') \<and>
     fs' (path_join ''out'' ''biv.rs'') = Some (map of_char (before @ digits @ '';'' @ nl)) \<and>
     length digits = 8 \<and> hex_value digits = 0x0114ff00"
proof -
  let ?env = "\<lparr>out_dir = Some ''out'', memory_x = [], pkg_version = (''1'', ''20'', ''255''), feature_defmt = False\<rparr>"
  have "display_nat 1 = ''1''" "display_nat 20 = ''20''" "display_nat 255 = ''255''"
    by (simp_all add: display_nat.simps digit_char_def char_of_def bit_0)
  then have env: "pkg_version ?env = (display_nat 1, display_nat 20, display_nat 255)" "out_dir ?env = Some ''out''" by simp_all
  have num: "1 < (256 :: nat) \<and> 20 < (256 :: nat) \<and> 255 < (256 :: nat)"
    "1 * 2 ^ 24 + 20 * 2 ^ 16 + 255 * 2 ^ 8 = (0x0114ff00 :: nat)" by simp_all
  from version_word_built [OF env, of Map.empty, unfolded if_P [OF num(1)] num(2)] show ?thesis
    by (metis append_assoc)
qed

end
