(* ===== verification/Spec2Isabelle.thy ===== *)
theory Spec2Isabelle
  imports Boot_Properties Unit_Tests Fuzz_Inputs Fcb Lifecycle Tool_Device Nxp_Test Tool_Progress Build_Scripts
begin

text \<open>
  \<^bold>\<open>ec-slimloader\<close>: a second-stage bootloader for the i.MX RT685 that starts one of several application
  images, falls back to a backup image when a new one is not confirmed, and a host tool that builds,
  signs and downloads the images.

  \<^bold>\<open>The program and the theories.\<close> Paths are relative to \<open>src/\<close>.

  \<^item> \<open>Slim_Prelude\<close>: machine integers as words; the outcome type \<open>res\<close> of a Rust call (\<open>Ok\<close>, \<open>Err\<close>,
    \<open>Panic\<close>); \<open>and_then\<close>, the \<open>?\<close> operator on calls that change state; slices, chunks and byte orders;
    the collection \<open>outcome_iffs\<close> that turns a successful sequence of calls into its steps.
  \<^item> \<open>Boot_State\<close> (\<open>libs/ec-slimloader-state/src/state.rs\<close>): the two-byte journal entry. Properties: round
    trip, exact range of the parser, type invariant of the unchecked accessors. Slots and statuses are
    instances of \<open>enum\<close>.
  \<^item> \<open>Nor_Flash\<close>, \<open>Flash_Journal\<close> (\<open>libs/ec-slimloader-state/src/flash.rs\<close>): the journal over a dictionary of flash
    operations. The locale \<open>nor_flash_laws\<close> states what the storage must do, also when it fails half way;
    the effects of \<open>new\<close> and \<open>set\<close> are proved inside it, and \<open>journal_contract\<close> is what clients of the journal rely on.
  \<^item> \<open>Mock_Flash\<close> (\<open>.../flash/mock.rs\<close>): the mock storage down to the byte at which the power fails, and
    its interpretation of the locale. \<open>Journal_Tests\<close> (\<open>.../fuzz/fuzz_targets/\<close>): the runs of both fuzz
    targets; \<open>set\<close> is atomic under power failure, the blockwise scan equals a one-pass scan.
    \<open>Fuzz_Inputs\<close>: the inputs the fuzzer makes, on all of which the targets pass, and the printed form of
    states. \<open>Journal_Log\<close>: on storage that does not fail the journal is a log, word for word.
    \<open>Unit_Tests\<close>: the unit tests of \<open>state.rs\<close>, \<open>flash.rs\<close> and \<open>registers.rs\<close>, with lemmas that they pass.
  \<^item> \<open>Slimloader\<close> (\<open>libs/ec-slimloader/src/lib.rs\<close>): \<open>start\<close> over a dictionary \<open>board\<close> for the \<open>Board\<close> trait, with
    the locale \<open>board_contract\<close> of what a board promises and the abstract boot state machine \<open>start\<close> refines.
  \<^item> \<open>Rom_Api\<close> (\<open>libs/imxrt-rom/src/\<close>): image authentication, OTP driver, fuse and shadow register words over the
    ROM's function table. \<open>Otp_Registers\<close> (\<open>registers.json\<close>, \<open>registers.rs\<close>): the registers with their fields and
    enumerations, the locale \<open>register_interface\<close> of a memory-like interface, interpreted on the shadow registers, and
    their round trip byte by byte. \<open>Mbi_Header\<close>, \<open>Imxrt_Board\<close> (\<open>libs/ec-slimloader-imxrt/src/\<close>): image headers,
    loading, the image check and the jump, as the board of \<open>Slimloader\<close>. \<open>Fcb\<close> (\<open>.../fcb.rs\<close>): the flash
    configuration blocks and the features that select one. \<open>Boot_Properties\<close>: what a boot guarantees of the journal, the memory, the
    authentication and the root of trust. \<open>Demo_Device\<close> is the instance its witnesses run on.
  \<^item> \<open>Device_Contract\<close>: what the boot leaves for the next reader of the journal, as locales interpreted on
    the mock storage. \<open>Example_App\<close> (\<open>examples/rt685s/\<close>): the bootloader's configuration, the flash layout and the
    application with its start, LEDs, buttons and fuses. \<open>Lifecycle\<close>: both programs as one device, with an
    inductive step relation for boots, button presses, faults, resets and power failures, and its invariant by
    rule induction; an update goes through from the first press to the confirmed new image. \<open>Build_Scripts\<close>: the
    build scripts, with the version word the bootloader carries.
  \<^item> The host tool (\<open>bootloader-tool/src/\<close>): \<open>Tool_Util\<close> (\<open>util/mod.rs\<close>, keys), \<open>Tool_Text\<close> (the string
    functions used), \<open>Tool_Config\<close> (\<open>config.rs\<close>, \<open>lib.rs\<close>, \<open>config.toml\<close>), \<open>Tool_Host\<close> (other programs,
    temporary files), \<open>Tool_Keys\<close> (\<open>processors/otp.rs\<close>, \<open>processors/certificates.rs\<close>), \<open>Cert_Block\<close> and
    \<open>Cert_Generate\<close> (\<open>processors/mbi/cert_block.rs\<close>), \<open>Mbi_Image\<close>, \<open>Mbi_Nxp\<close> and \<open>Tool_Boot\<close>
    (\<open>processors/mbi/mod.rs\<close>, against the bootloader's loader), \<open>Objcopy\<close> (\<open>processors/objcopy.rs\<close>), \<open>Tool_Run\<close> (the
    register setup of \<open>commands/run.rs\<close>), \<open>Tool_Commands\<close> (\<open>commands/\<close>, \<open>processors/probe.rs\<close>, \<open>main.rs\<close>).
    \<open>Tool_Device\<close> joins tool and device: an application that \<open>run\<close> downloaded is loaded by the bootloader;
    the load range, however, also admits the memory the bootloader runs from. \<open>Tool_Progress\<close>
    (\<open>util/progress.rs\<close>): the progress bars, against a reference that looks at one phase at a time. \<open>Nxp_Test\<close>
    (\<open>bootloader-tool/tests\<close>): what a passing comparison with the vendor's tool means.

  \<^bold>\<open>How the code is represented.\<close> A struct is a record, an enum a datatype, a call that changes state a
  function into a result and the new state, which is also returned on errors and panics, because an
  interrupted flash operation leaves traces. Traits and code outside the repository are dictionaries
  passed as arguments: \<open>nor_flash\<close>, \<open>board\<close>, \<open>rom_api\<close>, \<open>storage_hal\<close>, \<open>crypto\<close>, \<open>host_env\<close>, \<open>libs\<close>, \<open>probe_env\<close>,
  \<open>unstructured\<close>, and the checksum \<open>crc\<close>. What a theorem needs of them is a hypothesis or the locale's assumption. Asynchronous functions
  are sequential: every \<open>await\<close> is on the storage or a pin, and the tasks of the application share only
  the journal and the registers of one of them. Addresses on the device are 32-bit words; \<open>usize\<close> of the
  host is \<open>nat\<close>, with the wrap-around written out where a difference can be negative. Arithmetic wraps, as in
  a release build.

  \<^bold>\<open>Bounds and fuel.\<close> Only the loop of the fuzz target \<open>interrupted.rs\<close> runs on fuel, since a state may be
  retried; two more steps than there are states are enough, which its theorem states. Every other loop is a total
  function. The journal's theorems hold for every geometry with at least two pages and every even buffer
  size of at least two bytes; the theorems on the example use its sizes.

  \<^bold>\<open>Idealisations.\<close> The accessors of registers and fields that \<open>device_driver\<close> generates from
  \<open>registers.json\<close> have the meaning its documentation gives them (\<open>field_set\<close>, \<open>field_get\<close>, \<open>register_read\<close>,
  \<open>register_write\<close>, \<open>register_modify\<close>); they stand for no code of the repository. A successful 32-bit access of \<open>probe-rs\<close>
  stores or returns the word, whether it succeeds is a parameter, and the reset of the core leaves the
  registers; \<open>configure_target\<close> is the setup when all accesses succeed, to which \<open>set_shadow_registers\<close>, with its error
  paths, is linked by a lemma. Writing a file, asking whether one exists and creating a temporary file
  succeed. A failing read of an image slot leaves the memory as it is, and \<open>process::exit\<close> of the tool is an error
  return. \<open>crc8_opensafety\<close> instantiates the checksum in witnesses only.

  \<^bold>\<open>Not modelled.\<close> Log output and error texts; the inside of the HAL and of the crates, which are
  parameters; the parsers generated by \<open>clap\<close> and \<open>serde\<close>; linker scripts; the interrupt handler that passes
  \<open>HASHCRYPT\<close> on to the ROM; the ROM's structures in \<open>api.rs\<close> that no call uses.
\<close>

end
